theory Spec2Isabelle
  imports Main "HOL-Library.AList"
begin

section \<open>JavaScript values\<close>

text \<open>
  The application state, the action payloads and everything read back from the
  browser store are dynamically typed JavaScript values. They are modelled by the
  datatype \<open>jsval\<close>. An object is the list of its own enumerable properties in the
  order of their definition; it denotes a JavaScript object when its keys are distinct.
  (JavaScript enumerates the keys that are array indices first; the order of the keys
  has no effect on any property that is read.)
  A \<open>Date\<close> object is identified by the string its \<open>toISOString\<close> method returns.
  Numbers are the integral ones; functions, symbols and cyclic structures do not occur
  in the state and have no counterpart here.
\<close>

datatype jsval =
    JUndefined
  | JNull
  | JBool bool
  | JNum int
  | JStr string
  | JDate string
  | JArr "jsval list"
  | JObj "(string \<times> jsval) list"

text \<open>A thrown \<open>Error\<close> object, by its \<open>name\<close> and \<open>message\<close> properties.\<close>

datatype js_error = JsError (err_name: string) (err_message: string)

definition TypeError :: "string \<Rightarrow> js_error" where
  "TypeError msg = JsError ''TypeError'' msg"

definition SyntaxError :: "string \<Rightarrow> js_error" where
  "SyntaxError msg = JsError ''SyntaxError'' msg"

definition ReferenceError :: "string \<Rightarrow> js_error" where
  "ReferenceError msg = JsError ''ReferenceError'' msg"

definition Error :: "string \<Rightarrow> js_error" where
  "Error msg = JsError ''Error'' msg"

text \<open>Sequencing of computations that may throw: the first exception ends the run.\<close>

definition bnd :: "js_error + 'a \<Rightarrow> ('a \<Rightarrow> js_error + 'b) \<Rightarrow> js_error + 'b" where
  "bnd m f = (case m of Inl e \<Rightarrow> Inl e | Inr v \<Rightarrow> f v)"

fun mapM :: "('a \<Rightarrow> js_error + 'b) \<Rightarrow> 'a list \<Rightarrow> js_error + 'b list" where
  "mapM f [] = Inr []"
| "mapM f (x # xs) = bnd (f x) (\<lambda>y. bnd (mapM f xs) (\<lambda>ys. Inr (y # ys)))"

subsection \<open>Property access\<close>

text \<open>
  \<open>own_prop v k\<close> is the value of the own property \<open>k\<close> of an object, \<open>undefined\<close>
  when there is none. The source reads only the properties \<open>id\<close>, \<open>messages\<close>,
  \<open>conversations\<close>, \<open>activeConversation\<close>, \<open>sidebarOpen\<close>, \<open>conversationId\<close>,
  \<open>message\<close>, \<open>updates\<close>, \<open>userRoles\<close>, \<open>quickPrompts\<close> and \<open>response\<close>; none of
  them is an index, \<open>length\<close> or a property of a built-in prototype, so on a boolean,
  number, string, date or array each of these reads gives \<open>undefined\<close>.
\<close>

fun own_prop :: "jsval \<Rightarrow> string \<Rightarrow> jsval" where
  "own_prop (JObj kvs) k = (case map_of kvs k of None \<Rightarrow> JUndefined | Some v \<Rightarrow> v)"
| "own_prop v k = JUndefined"

text \<open>\<open>v.k\<close>: reading a property of \<open>undefined\<close> or \<open>null\<close> throws a TypeError.\<close>

definition get_prop :: "jsval \<Rightarrow> string \<Rightarrow> js_error + jsval" where
  "get_prop v k =
     (if v = JUndefined \<or> v = JNull
      then Inl (TypeError (''Cannot read properties of undefined or null: '' @ k))
      else Inr (own_prop v k))"

text \<open>\<open>v?.k\<close>: optional chaining gives \<open>undefined\<close> on \<open>undefined\<close> and \<open>null\<close>.\<close>

definition opt_get :: "jsval \<Rightarrow> string \<Rightarrow> jsval" where
  "opt_get v k = (if v = JUndefined \<or> v = JNull then JUndefined else own_prop v k)"

text \<open>
  \<open>a === b\<close>. Primitive values are compared by value. Objects, arrays and dates are
  compared by reference, which a value model does not hold: two of them are taken to
  be different references. The identifiers compared by the reducer are strings.
\<close>

fun is_primitive :: "jsval \<Rightarrow> bool" where
  "is_primitive (JDate d) = False"
| "is_primitive (JArr xs) = False"
| "is_primitive (JObj kvs) = False"
| "is_primitive v = True"

definition strict_eq :: "jsval \<Rightarrow> jsval \<Rightarrow> bool" where
  "strict_eq a b = (is_primitive a \<and> a = b)"

text \<open>Conversion to boolean, as \<open>!v\<close> and \<open>if (v)\<close> apply it.\<close>

fun truthy :: "jsval \<Rightarrow> bool" where
  "truthy JUndefined = False"
| "truthy JNull = False"
| "truthy (JBool b) = b"
| "truthy (JNum n) = (n \<noteq> 0)"
| "truthy (JStr s) = (s \<noteq> [])"
| "truthy v = True"

text \<open>\<open>typeof v !== 'object' || v === null\<close>, the validation of the parsed state.\<close>

fun typeof :: "jsval \<Rightarrow> string" where
  "typeof JUndefined = ''undefined''"
| "typeof JNull = ''object''"
| "typeof (JBool b) = ''boolean''"
| "typeof (JNum n) = ''number''"
| "typeof (JStr s) = ''string''"
| "typeof (JDate d) = ''object''"
| "typeof (JArr xs) = ''object''"
| "typeof (JObj kvs) = ''object''"

subsection \<open>Object and array literals with spread elements\<close>

text \<open>
  \<open>n.toString()\<close> for a natural number \<open>n\<close>: its decimal digits. The keys of the
  elements of an array are the renderings of their indices.
\<close>

definition digit_char :: "nat \<Rightarrow> char" where
  "digit_char d = ''0123456789'' ! d"

function number_toString :: "nat \<Rightarrow> string" where
  "number_toString n =
     (if n < 10 then [digit_char n]
      else number_toString (n div 10) @ [digit_char (n mod 10)])"
  by pat_completeness auto
termination
  by (relation "measure (\<lambda>n. n)") auto

declare number_toString.simps [simp del]

text \<open>
  The own enumerable string-keyed properties that \<open>{...v}\<close> copies: those of an
  object, the indexed elements of an array, the indexed characters of a string, and
  nothing for the other values.
\<close>

fun own_props :: "jsval \<Rightarrow> (string \<times> jsval) list" where
  "own_props (JObj kvs) = kvs"
| "own_props (JArr xs) = zip (map number_toString [0..<length xs]) xs"
| "own_props (JStr s) = zip (map number_toString [0..<length s]) (map (\<lambda>c. JStr [c]) s)"
| "own_props v = []"

text \<open>
  An object literal is evaluated from left to right: a spread element copies each own
  property in turn, a later definition of a key replaces the value and keeps the
  position of the key.
\<close>

datatype part = Spread jsval | Field string jsval

fun define_part :: "(string \<times> jsval) list \<Rightarrow> part \<Rightarrow> (string \<times> jsval) list" where
  "define_part props (Field k v) = AList.update k v props"
| "define_part props (Spread v) = foldl (\<lambda>ps kv. AList.update (fst kv) (snd kv) ps) props (own_props v)"

definition obj_literal :: "part list \<Rightarrow> jsval" where
  "obj_literal parts = JObj (foldl define_part [] parts)"

text \<open>
  \<open>[...v]\<close> iterates \<open>v\<close>: an array yields its elements, a string its characters;
  the other values are not iterable and the spread throws a TypeError.
\<close>

fun iter_spread :: "jsval \<Rightarrow> js_error + jsval list" where
  "iter_spread (JArr xs) = Inr xs"
| "iter_spread (JStr s) = Inr (map (\<lambda>c. JStr [c]) s)"
| "iter_spread v = Inl (TypeError ''value is not iterable'')"

text \<open>
  \<open>v.map(f)\<close> and \<open>v.filter(p)\<close>: only an array has these methods among the values
  of the model; on anything else the call throws a TypeError.
\<close>

fun array_map :: "(jsval \<Rightarrow> js_error + jsval) \<Rightarrow> jsval \<Rightarrow> js_error + jsval" where
  "array_map f (JArr xs) = bnd (mapM f xs) (\<lambda>ys. Inr (JArr ys))"
| "array_map f v = Inl (TypeError ''map is not a function'')"

fun array_filter :: "(jsval \<Rightarrow> js_error + bool) \<Rightarrow> jsval \<Rightarrow> js_error + jsval" where
  "array_filter p (JArr xs) =
     bnd (mapM p xs) (\<lambda>bs. Inr (JArr (map fst (filter snd (zip xs bs)))))"
| "array_filter p v = Inl (TypeError ''filter is not a function'')"

section \<open>The reducer\<close>

record action =
  type :: string
  payload :: jsval

definition SET_USER :: string where "SET_USER = ''SET_USER''"
definition LOGOUT_USER :: string where "LOGOUT_USER = ''LOGOUT_USER''"
definition SET_THEME :: string where "SET_THEME = ''SET_THEME''"
definition TOGGLE_SIDEBAR :: string where "TOGGLE_SIDEBAR = ''TOGGLE_SIDEBAR''"
definition ADD_CONVERSATION :: string where "ADD_CONVERSATION = ''ADD_CONVERSATION''"
definition SET_ACTIVE_CONVERSATION :: string where
  "SET_ACTIVE_CONVERSATION = ''SET_ACTIVE_CONVERSATION''"
definition ADD_MESSAGE :: string where "ADD_MESSAGE = ''ADD_MESSAGE''"
definition SET_TYPING :: string where "SET_TYPING = ''SET_TYPING''"
definition DELETE_CONVERSATION :: string where "DELETE_CONVERSATION = ''DELETE_CONVERSATION''"
definition UPDATE_CONVERSATION :: string where "UPDATE_CONVERSATION = ''UPDATE_CONVERSATION''"
definition CLEAR_ALL_CONVERSATIONS :: string where
  "CLEAR_ALL_CONVERSATIONS = ''CLEAR_ALL_CONVERSATIONS''"

definition ActionTypes :: "string list" where
  "ActionTypes = [SET_USER, LOGOUT_USER, SET_THEME, TOGGLE_SIDEBAR, ADD_CONVERSATION,
     SET_ACTIVE_CONVERSATION, ADD_MESSAGE, SET_TYPING, DELETE_CONVERSATION,
     UPDATE_CONVERSATION, CLEAR_ALL_CONVERSATIONS]"

text \<open>The callback of \<open>state.conversations.map\<close> in the \<open>ADD_MESSAGE\<close> case.\<close>

definition add_message_to :: "jsval \<Rightarrow> jsval \<Rightarrow> js_error + jsval" where
  "add_message_to pl conv =
     bnd (get_prop conv ''id'') (\<lambda>cid.
     bnd (get_prop pl ''conversationId'') (\<lambda>target.
       if strict_eq cid target
       then bnd (get_prop conv ''messages'') (\<lambda>ms.
            bnd (iter_spread ms) (\<lambda>elems.
            bnd (get_prop pl ''message'') (\<lambda>m.
              Inr (obj_literal [Spread conv, Field ''messages'' (JArr (elems @ [m]))]))))
       else Inr conv))"

text \<open>The \<open>updatedActiveConv\<close> of the \<open>ADD_MESSAGE\<close> case.\<close>

definition add_message_to_active :: "jsval \<Rightarrow> jsval \<Rightarrow> js_error + jsval" where
  "add_message_to_active pl active =
     bnd (get_prop pl ''conversationId'') (\<lambda>target.
       if strict_eq (opt_get active ''id'') target
       then bnd (get_prop active ''messages'') (\<lambda>ms.
            bnd (iter_spread ms) (\<lambda>elems.
            bnd (get_prop pl ''message'') (\<lambda>m.
              Inr (obj_literal [Spread active, Field ''messages'' (JArr (elems @ [m]))]))))
       else Inr active)"

text \<open>The callback of \<open>filter\<close> in the \<open>DELETE_CONVERSATION\<close> case.\<close>

definition keeps :: "jsval \<Rightarrow> jsval \<Rightarrow> js_error + bool" where
  "keeps target conv = bnd (get_prop conv ''id'') (\<lambda>cid. Inr (\<not> strict_eq cid target))"

text \<open>The callback of \<open>map\<close> in the \<open>UPDATE_CONVERSATION\<close> case.\<close>

definition update_conv :: "jsval \<Rightarrow> jsval \<Rightarrow> js_error + jsval" where
  "update_conv pl conv =
     bnd (get_prop conv ''id'') (\<lambda>cid.
     bnd (get_prop pl ''id'') (\<lambda>target.
       if strict_eq cid target
       then bnd (get_prop pl ''updates'') (\<lambda>updates.
              Inr (obj_literal [Spread conv, Spread updates]))
       else Inr conv))"

definition appReducer :: "jsval \<Rightarrow> action \<Rightarrow> js_error + jsval" where
  "appReducer state action =
    (if type action = SET_USER then
       Inr (obj_literal [Spread state, Field ''currentUser'' (payload action)])
     else if type action = LOGOUT_USER then
       Inr (obj_literal [Spread state, Field ''currentUser'' JNull,
              Field ''conversations'' (JArr []), Field ''activeConversation'' JNull])
     else if type action = SET_THEME then
       Inr (obj_literal [Spread state, Field ''theme'' (payload action)])
     else if type action = TOGGLE_SIDEBAR then
       bnd (get_prop state ''sidebarOpen'') (\<lambda>sidebarOpen.
         Inr (obj_literal [Spread state, Field ''sidebarOpen'' (JBool (\<not> truthy sidebarOpen))]))
     else if type action = ADD_CONVERSATION then
       bnd (get_prop state ''conversations'') (\<lambda>conversations.
       bnd (iter_spread conversations) (\<lambda>elems.
         Inr (obj_literal [Spread state, Field ''conversations'' (JArr (payload action # elems)),
                Field ''activeConversation'' (payload action)])))
     else if type action = SET_ACTIVE_CONVERSATION then
       Inr (obj_literal [Spread state, Field ''activeConversation'' (payload action)])
     else if type action = ADD_MESSAGE then
       bnd (get_prop state ''conversations'') (\<lambda>conversations.
       bnd (array_map (add_message_to (payload action)) conversations) (\<lambda>updatedConversations.
       bnd (get_prop state ''activeConversation'') (\<lambda>activeConversation.
       bnd (add_message_to_active (payload action) activeConversation) (\<lambda>updatedActiveConv.
         Inr (obj_literal [Spread state, Field ''conversations'' updatedConversations,
                Field ''activeConversation'' updatedActiveConv])))))
     else if type action = SET_TYPING then
       Inr (obj_literal [Spread state, Field ''isTyping'' (payload action)])
     else if type action = DELETE_CONVERSATION then
       bnd (get_prop state ''conversations'') (\<lambda>conversations.
       bnd (array_filter (keeps (payload action)) conversations) (\<lambda>filteredConversations.
       bnd (get_prop state ''activeConversation'') (\<lambda>activeConversation.
         Inr (obj_literal [Spread state, Field ''conversations'' filteredConversations,
                Field ''activeConversation''
                  (if strict_eq (opt_get activeConversation ''id'') (payload action)
                   then JNull else activeConversation)]))))
     else if type action = UPDATE_CONVERSATION then
       bnd (get_prop state ''conversations'') (\<lambda>conversations.
       bnd (array_map (update_conv (payload action)) conversations) (\<lambda>updated.
         Inr (obj_literal [Spread state, Field ''conversations'' updated])))
     else if type action = CLEAR_ALL_CONVERSATIONS then
       Inr (obj_literal [Spread state, Field ''conversations'' (JArr []),
              Field ''activeConversation'' JNull])
     else Inr state)"

text \<open>A sequence of dispatched actions, applied in order; the first exception ends it.\<close>

fun dispatch_all :: "jsval \<Rightarrow> action list \<Rightarrow> js_error + jsval" where
  "dispatch_all state [] = Inr state"
| "dispatch_all state (a # as) = bnd (appReducer state a) (\<lambda>state'. dispatch_all state' as)"

subsection \<open>The action creators\<close>

text \<open>The actions that the components dispatch, as \<open>AppProvider\<close> builds them.\<close>

definition setTyping :: "bool \<Rightarrow> action" where
  "setTyping isTyping = \<lparr>type = SET_TYPING, payload = JBool isTyping\<rparr>"

definition addMessage :: "jsval \<Rightarrow> jsval \<Rightarrow> action" where
  "addMessage conversationId message =
     \<lparr>type = ADD_MESSAGE,
      payload = JObj [(''conversationId'', conversationId), (''message'', message)]\<rparr>"

definition addConversation :: "jsval \<Rightarrow> action" where
  "addConversation conversation = \<lparr>type = ADD_CONVERSATION, payload = conversation\<rparr>"

definition deleteConversation :: "jsval \<Rightarrow> action" where
  "deleteConversation conversationId = \<lparr>type = DELETE_CONVERSATION, payload = conversationId\<rparr>"

definition updateConversation :: "jsval \<Rightarrow> jsval \<Rightarrow> action" where
  "updateConversation cid updates =
     \<lparr>type = UPDATE_CONVERSATION, payload = JObj [(''id'', cid), (''updates'', updates)]\<rparr>"

subsection \<open>The initial state\<close>

definition userRoles :: jsval where
  "userRoles = JArr [
     JObj [(''id'', JStr ''field_technician''), (''name'', JStr ''Field Technician''),
           (''description'', JStr ''Real-time fault detection and resolution''),
           (''color'', JStr ''#10B981'')],
     JObj [(''id'', JStr ''command_center''), (''name'', JStr ''Command Center Operator''),
           (''description'', JStr ''Situational awareness and operational control''),
           (''color'', JStr ''#3B82F6'')],
     JObj [(''id'', JStr ''senior_leadership''), (''name'', JStr ''Senior Leadership''),
           (''description'', JStr ''Strategic insights and performance monitoring''),
           (''color'', JStr ''#8B5CF6'')]]"

definition quickPrompts :: jsval where
  "quickPrompts = JArr [
     JObj [(''title'', JStr ''System Status Check''),
           (''description'', JStr ''Get current status of all renewable energy sources''),
           (''prompt'', JStr ''Check system status for all renewable energy sources'')],
     JObj [(''title'', JStr ''Performance Report''),
           (''description'', JStr ''Generate monthly performance analytics''),
           (''prompt'', JStr ''Generate monthly performance report'')],
     JObj [(''title'', JStr ''Active Alerts''),
           (''description'', JStr ''Show current active alerts and warnings''),
           (''prompt'', JStr ''What are the current active alerts?'')],
     JObj [(''title'', JStr ''Maintenance Schedule''),
           (''description'', JStr ''View maintenance schedules for this week''),
           (''prompt'', JStr ''Show me maintenance schedules for this week'')],
     JObj [(''title'', JStr ''Efficiency Analysis''),
           (''description'', JStr ''Analyze power generation efficiency trends''),
           (''prompt'', JStr ''Analyze power generation efficiency trends'')],
     JObj [(''title'', JStr ''Compliance Report''),
           (''description'', JStr ''Create regulatory compliance report''),
           (''prompt'', JStr ''Create compliance report for regulatory submission'')],
     JObj [(''title'', JStr ''Fault Detection''),
           (''description'', JStr ''Check fault detection logs for last 24 hours''),
           (''prompt'', JStr ''Check fault detection logs for last 24 hours'')],
     JObj [(''title'', JStr ''Grid Load''),
           (''description'', JStr ''Show current grid load distribution''),
           (''prompt'', JStr (''What'' @ [CHR 0x27] @ ''s the current grid load distribution?''))]]"

definition initialState :: jsval where
  "initialState = JObj [
     (''currentUser'', JNull),
     (''conversations'', JArr []),
     (''activeConversation'', JNull),
     (''isTyping'', JBool False),
     (''theme'', JStr ''light''),
     (''sidebarOpen'', JBool True),
     (''userRoles'', userRoles),
     (''quickPrompts'', quickPrompts)]"

section \<open>Persistence\<close>

subsection \<open>The JSON codec\<close>

text \<open>
  \<open>JSON.stringify\<close> and \<open>JSON.parse\<close> are built into the language. A string of the
  store is modelled up to its reading by \<open>JSON.parse\<close>: \<open>JsonText v\<close> is a string of
  the JSON grammar that parses to the value \<open>v\<close>, \<open>Malformed s\<close> is the string \<open>s\<close>,
  which is outside the grammar (the empty string is one).
\<close>

datatype store_string = JsonText jsval | Malformed string

text \<open>
  The value that the text written by \<open>JSON.stringify\<close> denotes. A \<open>Date\<close> is
  written as its ISO string, a property whose value is \<open>undefined\<close> is left out, an
  \<open>undefined\<close> array element is written as \<open>null\<close>; for \<open>undefined\<close> itself
  \<open>JSON.stringify\<close> returns \<open>undefined\<close>, which is \<open>None\<close> here.
\<close>

fun to_json :: "jsval \<Rightarrow> jsval option"
  and to_json_elems :: "jsval list \<Rightarrow> jsval list"
  and to_json_props :: "(string \<times> jsval) list \<Rightarrow> (string \<times> jsval) list"
where
  "to_json JUndefined = None"
| "to_json JNull = Some JNull"
| "to_json (JBool b) = Some (JBool b)"
| "to_json (JNum n) = Some (JNum n)"
| "to_json (JStr s) = Some (JStr s)"
| "to_json (JDate d) = Some (JStr d)"
| "to_json (JArr xs) = Some (JArr (to_json_elems xs))"
| "to_json (JObj kvs) = Some (JObj (to_json_props kvs))"
| "to_json_elems [] = []"
| "to_json_elems (x # xs) =
     (case to_json x of None \<Rightarrow> JNull | Some j \<Rightarrow> j) # to_json_elems xs"
| "to_json_props [] = []"
| "to_json_props (kv # kvs) =
     (case to_json (snd kv) of
        None \<Rightarrow> to_json_props kvs
      | Some j \<Rightarrow> (fst kv, j) # to_json_props kvs)"

definition JSON_stringify :: "jsval \<Rightarrow> store_string option" where
  "JSON_stringify v = map_option JsonText (to_json v)"

fun JSON_parse :: "store_string \<Rightarrow> js_error + jsval" where
  "JSON_parse (JsonText v) = Inr v"
| "JSON_parse (Malformed s) = Inl (SyntaxError (''Unexpected token in JSON: '' @ s))"

text \<open>
  \<open>setItem\<close> stores the string conversion of its argument: the string itself, or the
  nine letters of \<open>undefined\<close> when \<open>JSON.stringify\<close> returned \<open>undefined\<close>.
\<close>

fun to_stored :: "store_string option \<Rightarrow> store_string" where
  "to_stored None = Malformed ''undefined''"
| "to_stored (Some t) = t"

text \<open>The truth value of a string: only the empty string is falsy.\<close>

fun text_truthy :: "store_string \<Rightarrow> bool" where
  "text_truthy (JsonText v) = True"
| "text_truthy (Malformed s) = (s \<noteq> [])"

subsection \<open>The browser store\<close>

text \<open>
  \<open>localStorage\<close> is a map from keys to strings. Its failures belong to the
  environment: \<open>denied\<close> is the exception every access throws when the store is
  disabled, and \<open>write_error\<close> tells for the current content, a key and a value
  whether \<open>setItem\<close> throws (a \<open>QuotaExceededError\<close> when the value does not fit).
  \<open>calls\<close> records every call made on the store, in order.
\<close>

datatype storage_call = SetItem string store_string | GetItem string | RemoveItem string

record storage =
  items :: "string \<rightharpoonup> store_string"
  denied :: "js_error option"
  write_error :: "(string \<rightharpoonup> store_string) \<Rightarrow> string \<Rightarrow> store_string \<Rightarrow> js_error option"
  calls :: "storage_call list"

definition setItem :: "string \<Rightarrow> store_string \<Rightarrow> storage \<Rightarrow> (js_error + unit) \<times> storage" where
  "setItem k v st =
     (let st' = st\<lparr>calls := calls st @ [SetItem k v]\<rparr> in
      case denied st of
        Some e \<Rightarrow> (Inl e, st')
      | None \<Rightarrow>
          (case write_error st (items st) k v of
             Some e \<Rightarrow> (Inl e, st')
           | None \<Rightarrow> (Inr (), st'\<lparr>items := (items st)(k \<mapsto> v)\<rparr>)))"

definition getItem :: "string \<Rightarrow> storage \<Rightarrow> (js_error + store_string option) \<times> storage" where
  "getItem k st =
     (let st' = st\<lparr>calls := calls st @ [GetItem k]\<rparr> in
      case denied st of
        Some e \<Rightarrow> (Inl e, st')
      | None \<Rightarrow> (Inr (items st k), st'))"

definition removeItem :: "string \<Rightarrow> storage \<Rightarrow> (js_error + unit) \<times> storage" where
  "removeItem k st =
     (let st' = st\<lparr>calls := calls st @ [RemoveItem k]\<rparr> in
      case denied st of
        Some e \<Rightarrow> (Inl e, st')
      | None \<Rightarrow> (Inr (), st'\<lparr>items := (items st)(k := None)\<rparr>))"

subsection \<open>Saving and loading the state\<close>

definition STORAGE_KEY :: string where
  "STORAGE_KEY = ''ireno-chat-state''"

definition isLocalStorageAvailable :: "storage \<Rightarrow> bool \<times> storage" where
  "isLocalStorageAvailable st =
     (let testKey = ''__localStorage_test__'' in
      case setItem testKey (Malformed ''test'') st of
        (Inl error, st1) \<Rightarrow> (False, st1)
      | (Inr u, st1) \<Rightarrow>
          (case removeItem testKey st1 of
             (Inl error, st2) \<Rightarrow> (False, st2)
           | (Inr u', st2) \<Rightarrow> (True, st2)))"

text \<open>
  Reading the variable \<open>x\<close>, bound to \<open>v\<close> where it is declared, from a place whose
  enclosing scopes bind the names \<open>scope\<close>: reading a name that no enclosing scope
  binds throws a ReferenceError.
\<close>

definition read_var :: "string list \<Rightarrow> string \<Rightarrow> 'a \<Rightarrow> js_error + 'a" where
  "read_var scope x v =
     (if x \<in> set scope then Inr v else Inl (ReferenceError (x @ '' is not defined'')))"

text \<open>
  The names bound where the retry of \<open>saveStateToStorage\<close> is evaluated: the imports
  and declarations of the module, the parameter \<open>state\<close> and the parameter \<open>error\<close> of
  the \<open>catch\<close> clause. The \<open>const stateToStore\<close> is declared inside the block of the
  \<open>try\<close> statement and is bound in that block only.
\<close>

definition retry_scope :: "string list" where
  "retry_scope = [''React'', ''createContext'', ''useContext'', ''useReducer'', ''useEffect'',
     ''STORAGE_KEY'', ''isLocalStorageAvailable'', ''saveStateToStorage'',
     ''initializeStateFromStorage'', ''initialState'', ''ActionTypes'', ''appReducer'',
     ''AppContext'', ''AppProvider'', ''useApp'', ''state'', ''error'']"

text \<open>
  \<open>saveStateToStorage\<close>. The arguments of the second \<open>setItem\<close> are evaluated before
  the call, so the call is made only if reading \<open>stateToStore\<close> succeeds. The
  exceptions of the retry are caught and logged.
\<close>

definition saveStateToStorage :: "jsval \<Rightarrow> storage \<Rightarrow> storage" where
  "saveStateToStorage state st =
     (case isLocalStorageAvailable st of
        (False, st1) \<Rightarrow> st1
      | (True, st1) \<Rightarrow>
          (let stateToStore = JSON_stringify state in
           case setItem STORAGE_KEY (to_stored stateToStore) st1 of
             (Inr u, st2) \<Rightarrow> st2
           | (Inl error, st2) \<Rightarrow>
               if err_name error = ''QuotaExceededError'' then
                 (case removeItem ''ireno-theme'' st2 of
                    (Inl retryError, st3) \<Rightarrow> st3
                  | (Inr u, st3) \<Rightarrow>
                      (case read_var retry_scope ''stateToStore'' stateToStore of
                         Inl retryError \<Rightarrow> st3
                       | Inr v \<Rightarrow> snd (setItem STORAGE_KEY (to_stored v) st3)))
               else st2))"

text \<open>The merge of the default state with the parsed state (\<open>hydratedState\<close>).\<close>

definition hydrate :: "jsval \<Rightarrow> jsval \<Rightarrow> js_error + jsval" where
  "hydrate defaultState parsedState =
     bnd (get_prop defaultState ''userRoles'') (\<lambda>roles.
     bnd (get_prop defaultState ''quickPrompts'') (\<lambda>prompts.
       Inr (obj_literal [Spread defaultState, Spread parsedState,
              Field ''userRoles'' roles, Field ''quickPrompts'' prompts])))"

text \<open>The body of the \<open>try\<close> block of \<open>initializeStateFromStorage\<close> from the parse on.\<close>

definition load_stored :: "jsval \<Rightarrow> store_string \<Rightarrow> js_error + jsval" where
  "load_stored defaultState storedState =
     bnd (JSON_parse storedState) (\<lambda>parsedState.
       if typeof parsedState \<noteq> ''object'' \<or> parsedState = JNull
       then Inl (Error ''Invalid state format in localStorage'')
       else hydrate defaultState parsedState)"

text \<open>
  \<open>initializeStateFromStorage\<close>. Every statement that can throw stands in the
  \<open>try\<close> block, and the removal of the key in the \<open>catch\<close> block has a
  \<open>try\<close> block of its own: the function returns a state for every store. A key that
  is absent reads as \<open>null\<close>, which is falsy, as the empty string is.
\<close>

definition initializeStateFromStorage :: "jsval \<Rightarrow> storage \<Rightarrow> jsval \<times> storage" where
  "initializeStateFromStorage defaultState st =
     (case isLocalStorageAvailable st of
        (False, st1) \<Rightarrow> (defaultState, st1)
      | (True, st1) \<Rightarrow>
          (case getItem STORAGE_KEY st1 of
             (Inl error, st2) \<Rightarrow> (defaultState, snd (removeItem STORAGE_KEY st2))
           | (Inr None, st2) \<Rightarrow> (defaultState, st2)
           | (Inr (Some storedState), st2) \<Rightarrow>
               if text_truthy storedState then
                 (case load_stored defaultState storedState of
                    Inr hydratedState \<Rightarrow> (hydratedState, st2)
                  | Inl error \<Rightarrow> (defaultState, snd (removeItem STORAGE_KEY st2)))
               else (defaultState, st2)))"

section \<open>The chat request\<close>

text \<open>
  What the awaited \<open>fetch\<close> gives: the promise is rejected (no connection), or it
  resolves with a response, of which the handler reads the status and the body parsed
  by \<open>response.json()\<close>, itself rejected when the body is not JSON. \<open>response.ok\<close> is
  true for the status codes 200 to 299.
\<close>

datatype fetch_outcome = Rejected js_error | Responded nat "js_error + jsval"

definition response_ok :: "nat \<Rightarrow> bool" where
  "response_ok status = (200 \<le> status \<and> status \<le> 299)"

definition connection_trouble :: string where
  "connection_trouble =
     ''Sorry, I'' @ [CHR 0x27] @ ''m having trouble connecting to the server right now. '' @
     ''Please make sure the backend is running at http://127.0.0.1:5000. Error: ''"

definition assistant_message :: "nat \<Rightarrow> string \<Rightarrow> jsval \<Rightarrow> jsval" where
  "assistant_message now stamp content =
     JObj [(''id'', JStr (number_toString (now + 1))), (''role'', JStr ''assistant''),
           (''content'', content), (''timestamp'', JDate stamp)]"

text \<open>
  \<open>sendMessageToBackend\<close>, run to its end for a given outcome of the request. \<open>state\<close>
  is the state captured by the component that submitted; \<open>now\<close> and \<open>stamp\<close> are the
  readings of \<open>Date.now()\<close> and \<open>new Date()\<close>. The text that is sent goes to the
  backend only and has no part in what is dispatched. \<open>handleSubmit\<close> calls the
  function only when \<open>state.activeConversation\<close> is truthy. The result is the list of the actions
  dispatched, in order, and the exception that leaves the function, if any: one thrown
  inside the \<open>catch\<close> block is not caught, yet the \<open>finally\<close> block still runs.
\<close>

definition sendMessageToBackend ::
  "jsval \<Rightarrow> fetch_outcome \<Rightarrow> nat \<Rightarrow> string \<Rightarrow> action list \<times> js_error option" where
  "sendMessageToBackend state outcome now stamp =
     (let try_block =
        (case outcome of
           Rejected e \<Rightarrow> Inl e
         | Responded status body \<Rightarrow>
             if \<not> response_ok status
             then Inl (Error (''HTTP error! status: '' @ number_toString status))
             else
               bnd body (\<lambda>data.
               bnd (get_prop data ''response'') (\<lambda>content.
               bnd (get_prop state ''activeConversation'') (\<lambda>active.
               bnd (get_prop active ''id'') (\<lambda>cid.
                 Inr [addMessage cid (assistant_message now stamp content)])))))
      in
      case try_block of
        Inr dispatched \<Rightarrow> ([setTyping True] @ dispatched @ [setTyping False], None)
      | Inl error \<Rightarrow>
          (let errorResponse =
                 assistant_message now stamp (JStr (connection_trouble @ err_message error))
           in
           case bnd (get_prop state ''activeConversation'') (\<lambda>active. get_prop active ''id'') of
             Inr cid \<Rightarrow> ([setTyping True, addMessage cid errorResponse, setTyping False], None)
           | Inl thrown \<Rightarrow> ([setTyping True, setTyping False], Some thrown)))"

section \<open>The shape of the data\<close>

text \<open>
  The shapes of the data model: an object has distinct keys, a conversation is an object
  whose \<open>messages\<close> is an array, a state is an object whose \<open>conversations\<close> is an
  array of conversations and whose \<open>activeConversation\<close> is \<open>null\<close> or a conversation.
\<close>

fun is_obj :: "jsval \<Rightarrow> bool" where
  "is_obj (JObj kvs) = distinct (map fst kvs)"
| "is_obj v = False"

fun is_arr :: "jsval \<Rightarrow> bool" where
  "is_arr (JArr xs) = True"
| "is_arr v = False"

fun is_str :: "jsval \<Rightarrow> bool" where
  "is_str (JStr s) = True"
| "is_str v = False"

fun elems_of :: "jsval \<Rightarrow> jsval list" where
  "elems_of (JArr xs) = xs"
| "elems_of v = []"

definition wf_conv :: "jsval \<Rightarrow> bool" where
  "wf_conv c = (is_obj c \<and> is_arr (own_prop c ''messages''))"

definition nullish :: "jsval \<Rightarrow> bool" where
  "nullish v = (v = JUndefined \<or> v = JNull)"

definition wf_state :: "jsval \<Rightarrow> bool" where
  "wf_state s =
     (is_obj s \<and> is_arr (own_prop s ''conversations'') \<and>
      list_all wf_conv (elems_of (own_prop s ''conversations'')) \<and>
      (own_prop s ''activeConversation'' = JNull \<or> wf_conv (own_prop s ''activeConversation'')))"

text \<open>
  The payload each action type expects. The partial fields of an update are an object
  which, if it sets \<open>messages\<close>, sets it to an array.
\<close>

definition wf_updates :: "jsval \<Rightarrow> bool" where
  "wf_updates u =
     (is_obj u \<and> (''messages'' \<in> fst ` set (own_props u) \<longrightarrow> is_arr (own_prop u ''messages'')))"

definition wf_action :: "action \<Rightarrow> bool" where
  "wf_action a =
     (if type a = ADD_CONVERSATION then wf_conv (payload a)
      else if type a = SET_ACTIVE_CONVERSATION then payload a = JNull \<or> wf_conv (payload a)
      else if type a = ADD_MESSAGE then
        is_obj (payload a) \<and> is_str (own_prop (payload a) ''conversationId'')
      else if type a = DELETE_CONVERSATION then is_str (payload a)
      else if type a = UPDATE_CONVERSATION then
        is_obj (payload a) \<and> is_str (own_prop (payload a) ''id'') \<and>
        wf_updates (own_prop (payload a) ''updates'')
      else True)"

text \<open>
  Plain JSON data: no \<open>undefined\<close> and no \<open>Date\<close> anywhere in the value.
\<close>

fun json_data :: "jsval \<Rightarrow> bool"
  and json_data_elems :: "jsval list \<Rightarrow> bool"
  and json_data_props :: "(string \<times> jsval) list \<Rightarrow> bool"
where
  "json_data JUndefined = False"
| "json_data JNull = True"
| "json_data (JBool b) = True"
| "json_data (JNum n) = True"
| "json_data (JStr s) = True"
| "json_data (JDate d) = False"
| "json_data (JArr xs) = json_data_elems xs"
| "json_data (JObj kvs) = json_data_props kvs"
| "json_data_elems [] = True"
| "json_data_elems (x # xs) = (json_data x \<and> json_data_elems xs)"
| "json_data_props [] = True"
| "json_data_props (kv # kvs) = (json_data (snd kv) \<and> json_data_props kvs)"

subsection \<open>An available store\<close>

text \<open>
  The store passes the probe of \<open>isLocalStorageAvailable\<close> when access is not denied
  and the write of the test key succeeds; \<open>probed st\<close> is the store after the probe.
\<close>

definition available :: "storage \<Rightarrow> bool" where
  "available st = (denied st = None \<and>
     write_error st (items st) ''__localStorage_test__'' (Malformed ''test'') = None)"

definition probed :: "storage \<Rightarrow> storage" where
  "probed st = st\<lparr>items := (items st)(''__localStorage_test__'' := None),
                  calls := calls st @ [SetItem ''__localStorage_test__'' (Malformed ''test''),
                                       RemoveItem ''__localStorage_test__'']\<rparr>"

section \<open>Example values\<close>

text \<open>
  Two conversations and three messages, a state that holds both conversations and shows
  the first, the same state while the assistant is typing, and the state with no
  conversation.
\<close>

definition conv_one :: jsval where
  "conv_one = JObj [(''id'', JStr ''1''), (''title'', JStr ''T''), (''messages'', JArr []),
     (''pinned'', JBool False)]"

definition conv_two :: jsval where
  "conv_two = JObj [(''id'', JStr ''2''), (''title'', JStr ''U''), (''messages'', JArr []),
     (''pinned'', JBool False)]"

definition demo_message :: jsval where
  "demo_message = JObj [(''id'', JStr ''m1''), (''role'', JStr ''user''), (''content'', JStr ''hi'')]"

definition demo_reply :: jsval where
  "demo_reply = JObj [(''id'', JStr ''m2''), (''role'', JStr ''assistant''), (''content'', JStr ''hello'')]"

definition two_convs_state :: jsval where
  "two_convs_state = JObj [(''currentUser'', JNull), (''conversations'', JArr [conv_one, conv_two]),
     (''activeConversation'', conv_one), (''isTyping'', JBool False),
     (''theme'', JStr ''light''), (''sidebarOpen'', JBool True)]"

definition typing_state :: jsval where
  "typing_state = JObj [(''currentUser'', JNull), (''conversations'', JArr [conv_one, conv_two]),
     (''activeConversation'', conv_one), (''isTyping'', JBool True),
     (''theme'', JStr ''light''), (''sidebarOpen'', JBool True)]"

definition cleared_state :: jsval where
  "cleared_state = JObj [(''currentUser'', JNull), (''conversations'', JArr []),
     (''activeConversation'', JNull), (''isTyping'', JBool False),
     (''theme'', JStr ''light''), (''sidebarOpen'', JBool True)]"

text \<open>
  A state whose active conversation is not an entry of the collection, as
  \<open>SET_ACTIVE_CONVERSATION\<close> with a conversation that was never added leaves it.
\<close>

definition stale_state :: jsval where
  "stale_state = JObj [(''currentUser'', JNull), (''conversations'', JArr []),
     (''activeConversation'', conv_one), (''isTyping'', JBool False),
     (''theme'', JStr ''light''), (''sidebarOpen'', JBool True)]"

text \<open>
  The conversation that the sidebar creates for a new chat, with \<open>Date\<close> objects;
  what \<open>JSON.parse\<close> reads back for it; the initial state after adding it; and that
  state after saving and loading.
\<close>

definition dated_conv :: jsval where
  "dated_conv = JObj [(''id'', JStr ''1756029600000''), (''title'', JStr ''New Conversation''),
     (''messages'', JArr []), (''createdAt'', JDate ''2025-08-24T10:00:00.000Z''),
     (''updatedAt'', JDate ''2025-08-24T10:00:00.000Z''), (''pinned'', JBool False)]"

definition dated_conv_json :: jsval where
  "dated_conv_json = JObj [(''id'', JStr ''1756029600000''), (''title'', JStr ''New Conversation''),
     (''messages'', JArr []), (''createdAt'', JStr ''2025-08-24T10:00:00.000Z''),
     (''updatedAt'', JStr ''2025-08-24T10:00:00.000Z''), (''pinned'', JBool False)]"

definition dated_state :: jsval where
  "dated_state = JObj [
     (''currentUser'', JNull),
     (''conversations'', JArr [dated_conv]),
     (''activeConversation'', dated_conv),
     (''isTyping'', JBool False),
     (''theme'', JStr ''light''),
     (''sidebarOpen'', JBool True),
     (''userRoles'', userRoles),
     (''quickPrompts'', quickPrompts)]"

definition reloaded_state :: jsval where
  "reloaded_state = JObj [
     (''currentUser'', JNull),
     (''conversations'', JArr [dated_conv_json]),
     (''activeConversation'', dated_conv_json),
     (''isTyping'', JBool False),
     (''theme'', JStr ''light''),
     (''sidebarOpen'', JBool True),
     (''userRoles'', userRoles),
     (''quickPrompts'', quickPrompts)]"

text \<open>A parsed state that was tampered with: it overrides a catalog.\<close>

definition tampered_blob :: jsval where
  "tampered_blob = JObj [(''theme'', JStr ''dark''), (''userRoles'', JStr ''tampered''),
     (''extra'', JNum 1)]"

text \<open>
  The states reached from \<open>two_convs_state\<close> when the first conversation is deleted
  while a request is awaited, and after the typing indicator is cleared.
\<close>

definition deleted_typing_state :: jsval where
  "deleted_typing_state = JObj [(''currentUser'', JNull), (''conversations'', JArr [conv_two]),
     (''activeConversation'', JNull), (''isTyping'', JBool True),
     (''theme'', JStr ''light''), (''sidebarOpen'', JBool True)]"

definition deleted_state :: jsval where
  "deleted_state = JObj [(''currentUser'', JNull), (''conversations'', JArr [conv_two]),
     (''activeConversation'', JNull), (''isTyping'', JBool False),
     (''theme'', JStr ''light''), (''sidebarOpen'', JBool True)]"

text \<open>
  Stores: one that accepts every write, one that is full, and one that holds the legacy
  theme key and has no room for the state as long as that key is there.
\<close>

definition working_store :: "(string \<times> store_string) list \<Rightarrow> storage" where
  "working_store kvs = \<lparr>items = map_of kvs, denied = None,
     write_error = (\<lambda>content k v. None), calls = []\<rparr>"

definition full_store :: "(string \<times> store_string) list \<Rightarrow> storage" where
  "full_store kvs = \<lparr>items = map_of kvs, denied = None,
     write_error = (\<lambda>content k v. Some (JsError ''QuotaExceededError'' ''The quota has been exceeded'')),
     calls = []\<rparr>"

definition legacy_store :: storage where
  "legacy_store = \<lparr>items = [''ireno-theme'' \<mapsto> Malformed ''dark''], denied = None,
     write_error = (\<lambda>content k v.
        if k = STORAGE_KEY \<and> content ''ireno-theme'' \<noteq> None
        then Some (JsError ''QuotaExceededError'' ''The quota has been exceeded'')
        else None),
     calls = []\<rparr>"

section \<open>Basic facts\<close>

subsection \<open>Exceptions, property lists and object literals\<close>

lemma bnd_Inr [simp]: "bnd (Inr v) f = f v"
  by (simp add: bnd_def)

lemma bnd_Inl [simp]: "bnd (Inl e) f = Inl e"
  by (simp add: bnd_def)

lemma bnd_eq_Inr:
  "bnd m f = Inr y \<longleftrightarrow> (\<exists>v. m = Inr v \<and> f v = Inr y)"
  by (cases m) auto

lemma update_append_fresh:
  "k \<notin> fst ` set al \<Longrightarrow> AList.update k v al = al @ [(k, v)]"
  by (induction al) auto

lemma foldl_update_fresh:
  "distinct (map fst (base @ kvs)) \<Longrightarrow>
   foldl (\<lambda>ps kv. AList.update (fst kv) (snd kv) ps) base kvs = base @ kvs"
proof (induction kvs arbitrary: base)
  case Nil
  then show ?case by simp
next
  case (Cons kv kvs)
  have fresh: "fst kv \<notin> fst ` set base" using Cons.prems by auto
  have "AList.update (fst kv) (snd kv) base = base @ [kv]"
    using update_append_fresh [OF fresh, of "snd kv"] by simp
  moreover have "distinct (map fst ((base @ [kv]) @ kvs))" using Cons.prems by simp
  ultimately show ?case using Cons.IH [of "base @ [kv]"] by simp
qed

lemma map_of_foldl_update:
  "distinct (map fst kvs) \<Longrightarrow>
   map_of (foldl (\<lambda>ps kv. AList.update (fst kv) (snd kv) ps) base kvs) = map_of base ++ map_of kvs"
proof (induction kvs arbitrary: base)
  case Nil
  then show ?case by simp
next
  case (Cons kv kvs)
  obtain k v where kv: "kv = (k, v)" by (cases kv)
  have notin: "k \<notin> fst ` set kvs" using Cons.prems kv by auto
  then have none: "map_of kvs k = None" by (simp add: map_of_eq_None_iff)
  have "map_of (foldl (\<lambda>ps kv. AList.update (fst kv) (snd kv) ps) base (kv # kvs))
        = map_of (AList.update k v base) ++ map_of kvs"
    using Cons.IH [of "AList.update k v base"] Cons.prems kv by simp
  also have "\<dots> = (map_of base)(k \<mapsto> v) ++ map_of kvs" by (simp add: update_conv')
  also have "\<dots> = map_of base ++ map_of (kv # kvs)"
    using none kv by (auto simp: map_add_def fun_eq_iff split: option.splits)
  finally show ?case .
qed

lemma distinct_foldl_update:
  "distinct (map fst base) \<Longrightarrow>
   distinct (map fst (foldl (\<lambda>ps kv. AList.update (fst kv) (snd kv) ps) base kvs))"
  by (induction kvs arbitrary: base) (auto simp: distinct_update)

lemma keys_foldl_update:
  "fst ` set (foldl (\<lambda>ps kv. AList.update (fst kv) (snd kv) ps) base kvs) = fst ` set base \<union> fst ` set kvs"
  by (induction kvs arbitrary: base) (auto simp: dom_update)

lemma is_objE: "is_obj v \<Longrightarrow> (\<And>kvs. v = JObj kvs \<Longrightarrow> distinct (map fst kvs) \<Longrightarrow> P) \<Longrightarrow> P"
  by (cases v) auto

lemma is_arrE: "is_arr v \<Longrightarrow> (\<And>xs. v = JArr xs \<Longrightarrow> P) \<Longrightarrow> P"
  by (cases v) auto

lemma is_strE: "is_str v \<Longrightarrow> (\<And>s. v = JStr s \<Longrightarrow> P) \<Longrightarrow> P"
  by (cases v) auto

lemma obj_literal_spread:
  "is_obj s \<Longrightarrow> obj_literal (Spread s # ps) = JObj (foldl define_part (own_props s) ps)"
  by (erule is_objE) (simp add: obj_literal_def foldl_update_fresh [of "[]", simplified])

lemma own_prop_update [simp]:
  "own_prop (JObj (AList.update k v kvs)) k' = (if k' = k then v else own_prop (JObj kvs) k')"
  by (simp add: update_conv')

lemma own_prop_Nil [simp]: "own_prop (JObj []) k = JUndefined"
  by simp

lemma own_prop_Cons [simp]:
  "own_prop (JObj ((k, v) # kvs)) k' = (if k = k' then v else own_prop (JObj kvs) k')"
  by simp

lemma own_prop_map_of: "own_prop (JObj kvs) k = (case map_of kvs k of None \<Rightarrow> JUndefined | Some v \<Rightarrow> v)"
  by simp

declare own_prop.simps(1) [simp del]

lemma is_obj_update: "distinct (map fst kvs) \<Longrightarrow> is_obj (JObj (AList.update k v kvs))"
  by (simp add: distinct_update)

lemma mapM_pure:
  "(\<And>x. x \<in> set xs \<Longrightarrow> f x = Inr (g x)) \<Longrightarrow> mapM f xs = Inr (map g xs)"
  by (induction xs) auto

lemma get_prop_obj [simp]: "get_prop (JObj kvs) k = Inr (own_prop (JObj kvs) k)"
  by (simp add: get_prop_def)

lemma get_prop_arr [simp]: "get_prop (JArr xs) k = Inr JUndefined"
  by (simp add: get_prop_def)

lemma opt_get_obj [simp]: "opt_get (JObj kvs) k = own_prop (JObj kvs) k"
  by (simp add: opt_get_def)

lemma opt_get_nullish: "nullish v \<Longrightarrow> opt_get v k = JUndefined"
  by (auto simp: opt_get_def nullish_def)

lemma strict_eq_str [simp]: "strict_eq v (JStr t) = (v = JStr t)"
  by (cases v) (auto simp: strict_eq_def)

lemmas action_type_defs = SET_USER_def LOGOUT_USER_def SET_THEME_def TOGGLE_SIDEBAR_def
  ADD_CONVERSATION_def SET_ACTIVE_CONVERSATION_def ADD_MESSAGE_def SET_TYPING_def
  DELETE_CONVERSATION_def UPDATE_CONVERSATION_def CLEAR_ALL_CONVERSATIONS_def

lemma literal_field1:
  "is_obj s \<Longrightarrow> obj_literal [Spread s, Field k v] = JObj (AList.update k v (own_props s))"
  by (simp add: obj_literal_spread)

lemma literal_field2:
  "is_obj s \<Longrightarrow> obj_literal [Spread s, Field k v, Field k' v']
     = JObj (AList.update k' v' (AList.update k v (own_props s)))"
  by (simp add: obj_literal_spread)

lemma literal_field3:
  "is_obj s \<Longrightarrow> obj_literal [Spread s, Field k v, Field k' v', Field k'' v'']
     = JObj (AList.update k'' v'' (AList.update k' v' (AList.update k v (own_props s))))"
  by (simp add: obj_literal_spread)

lemma literal_spread2:
  "is_obj c \<Longrightarrow> obj_literal [Spread c, Spread u]
     = JObj (foldl (\<lambda>ps kv. AList.update (fst kv) (snd kv) ps) (own_props c) (own_props u))"
  by (simp add: obj_literal_spread)

lemma own_prop_own_props: "is_obj s \<Longrightarrow> own_prop (JObj (own_props s)) k = own_prop s k"
  by (erule is_objE) simp

lemma is_obj_own_props: "is_obj s \<Longrightarrow> distinct (map fst (own_props s))"
  by (erule is_objE) simp

lemma JObj_own_props: "is_obj s \<Longrightarrow> JObj (own_props s) = s"
  by (auto elim: is_objE)

lemma update_same:
  assumes "is_obj s" "own_prop s k \<noteq> JUndefined"
  shows "AList.update k (own_prop s k) (own_props s) = own_props s"
proof -
  obtain kvs where s: "s = JObj kvs" using assms(1) by (auto elim: is_objE)
  have "map_of kvs k = Some (own_prop s k)"
    using assms(2) unfolding s by (auto simp: own_prop_map_of split: option.splits)
  then show ?thesis unfolding s by (simp add: update_triv)
qed

lemma own_prop_merged:
  assumes "distinct (map fst us)"
  shows "own_prop (JObj (foldl (\<lambda>ps kv. AList.update (fst kv) (snd kv) ps) kvs us)) k
         = (if k \<in> fst ` set us then own_prop (JObj us) k else own_prop (JObj kvs) k)"
proof (cases "map_of us k")
  case None
  then have "k \<notin> fst ` set us" by (simp add: map_of_eq_None_iff)
  then show ?thesis
    using None by (simp add: own_prop_map_of map_of_foldl_update [OF assms] map_add_def)
next
  case (Some v)
  then have "k \<in> fst ` set us" by (metis map_of_eq_None_iff option.distinct(1))
  then show ?thesis
    using Some by (simp add: own_prop_map_of map_of_foldl_update [OF assms] map_add_def)
qed

lemma filter_zip_map: "map fst (filter snd (zip xs (map f xs))) = filter f xs"
  by (induction xs) auto

lemma distinct_define_part:
  "distinct (map fst ps) \<Longrightarrow> distinct (map fst (define_part ps part))"
  by (cases part) (simp_all add: distinct_update distinct_foldl_update)

lemma distinct_foldl_define_part:
  "distinct (map fst ps) \<Longrightarrow> distinct (map fst (foldl define_part ps parts))"
  by (induction parts arbitrary: ps) (simp_all add: distinct_define_part del: define_part.simps)

lemma is_obj_obj_literal: "is_obj (obj_literal parts)"
  by (simp add: obj_literal_def distinct_foldl_define_part)

subsection \<open>Well-shaped conversations and states\<close>

lemma wf_conv_append:
  "wf_conv c \<Longrightarrow> wf_conv (JObj (AList.update ''messages'' (JArr ms) (own_props c)))"
  by (auto simp: wf_conv_def update_conv' distinct_update elim!: is_objE)

lemma wf_conv_merged:
  assumes "wf_conv c" "wf_updates u"
  shows "wf_conv (JObj (foldl (\<lambda>ps kv. AList.update (fst kv) (snd kv) ps) (own_props c) (own_props u)))"
proof -
  obtain kvs where c: "c = JObj kvs" and d: "distinct (map fst kvs)"
    using assms(1) by (auto simp: wf_conv_def elim: is_objE)
  obtain us where u: "u = JObj us" and du: "distinct (map fst us)"
    using assms(2) by (auto simp: wf_updates_def elim: is_objE)
  have "is_arr (own_prop (JObj (foldl (\<lambda>ps kv. AList.update (fst kv) (snd kv) ps) kvs us)) ''messages'')"
    using assms unfolding c u by (auto simp: own_prop_merged [OF du] wf_conv_def wf_updates_def)
  then show ?thesis
    unfolding c u wf_conv_def by (simp add: distinct_foldl_update d)
qed

lemma wf_conv_messages: "wf_conv c \<Longrightarrow> own_prop c ''messages'' = JArr (elems_of (own_prop c ''messages''))"
  by (auto simp: wf_conv_def elim: is_arrE)

lemma wf_conv_not_undefined: "wf_conv c \<Longrightarrow> c \<noteq> JUndefined"
  by (auto simp: wf_conv_def)

lemma opt_get_wf_conv: "wf_conv c \<Longrightarrow> opt_get c k = own_prop c k"
  by (auto simp: wf_conv_def elim!: is_objE)

lemma opt_get_JNull [simp]: "opt_get JNull k = JUndefined"
  by (simp add: opt_get_def)

lemma get_prop_wf_conv: "wf_conv c \<Longrightarrow> get_prop c k = Inr (own_prop c k)"
  by (auto simp: wf_conv_def elim!: is_objE)

lemma appended_props:
  "is_obj c \<Longrightarrow>
   own_prop (JObj (AList.update ''messages'' (JArr X) (own_props c))) k
     = (if k = ''messages'' then JArr X else own_prop c k)"
  using own_prop_own_props [of c k] by simp

lemma wf_state_fields:
  assumes "is_obj s" "list_all wf_conv xs" "A = JNull \<or> wf_conv A"
  shows "wf_state (JObj (AList.update ''activeConversation'' A
                    (AList.update ''conversations'' (JArr xs) (own_props s))))"
  using assms by (auto simp: wf_state_def distinct_update elim!: is_objE)

lemma wf_state_other_field:
  assumes "wf_state s" "k \<noteq> ''conversations''" "k \<noteq> ''activeConversation''"
  shows "wf_state (JObj (AList.update k v (own_props s)))"
  using assms by (auto simp: wf_state_def distinct_update elim!: is_objE)

lemma wf_state_conversations:
  assumes "wf_state s" "list_all wf_conv xs"
  shows "wf_state (JObj (AList.update ''conversations'' (JArr xs) (own_props s)))"
  using assms by (auto simp: wf_state_def distinct_update elim!: is_objE)

lemma wf_state_active:
  assumes "wf_state s" "A = JNull \<or> wf_conv A"
  shows "wf_state (JObj (AList.update ''activeConversation'' A (own_props s)))"
  using assms by (auto simp: wf_state_def distinct_update elim!: is_objE)

lemma wf_state_obj: "wf_state s \<Longrightarrow> is_obj s"
  by (simp add: wf_state_def)

lemma wf_state_convs:
  "wf_state s \<Longrightarrow> own_prop s ''conversations'' = JArr (elems_of (own_prop s ''conversations''))"
  by (auto simp: wf_state_def elim: is_arrE)

lemma wf_state_conv: "wf_state s \<Longrightarrow> c \<in> set (elems_of (own_prop s ''conversations'')) \<Longrightarrow> wf_conv c"
  by (auto simp: wf_state_def list_all_iff)

lemma wf_state_act:
  "wf_state s \<Longrightarrow> own_prop s ''activeConversation'' = JNull \<or> wf_conv (own_prop s ''activeConversation'')"
  by (simp add: wf_state_def)

lemma get_prop_wf_state: "wf_state s \<Longrightarrow> get_prop s k = Inr (own_prop s k)"
  by (auto simp: wf_state_def elim!: is_objE)

lemma wf_initialState: "wf_state initialState"
  by (simp add: wf_state_def initialState_def)

lemma is_obj_initialState: "is_obj initialState"
  by (simp add: initialState_def)

lemma wf_two_convs_state: "wf_state two_convs_state"
  by (simp add: two_convs_state_def conv_one_def conv_two_def wf_state_def wf_conv_def)

lemma wf_stale_state: "wf_state stale_state"
  by (simp add: stale_state_def conv_one_def wf_state_def wf_conv_def)

section \<open>The transitions of the conversation store\<close>

subsection \<open>The transitions on a well-shaped state\<close>

lemma appReducer_unknown: "type a \<notin> set ActionTypes \<Longrightarrow> appReducer s a = Inr s"
  by (simp add: appReducer_def ActionTypes_def)

lemma add_message_to_conv:
  assumes "is_obj pl" "own_prop pl ''conversationId'' = JStr t" "wf_conv c"
  shows "add_message_to pl c =
           Inr (if own_prop c ''id'' = JStr t
                then JObj (AList.update ''messages''
                       (JArr (elems_of (own_prop c ''messages'') @ [own_prop pl ''message'']))
                       (own_props c))
                else c)"
proof -
  obtain ps where pl: "pl = JObj ps" using assms(1) by (auto elim: is_objE)
  obtain kvs where c: "c = JObj kvs" and d: "distinct (map fst kvs)"
    using assms(3) by (auto simp: wf_conv_def elim: is_objE)
  obtain ms where ms: "own_prop c ''messages'' = JArr ms"
    using assms(3) by (auto simp: wf_conv_def elim: is_arrE)
  have lit: "\<And>v. obj_literal [Spread c, Field ''messages'' v] = JObj (AList.update ''messages'' v kvs)"
    using literal_field1 [of c] c d by simp
  show ?thesis
    using assms(2) ms lit unfolding add_message_to_def pl c by simp
qed

lemma add_message_to_active_conv:
  assumes "is_obj pl" "own_prop pl ''conversationId'' = JStr t" "nullish a \<or> wf_conv a"
  shows "add_message_to_active pl a =
           Inr (if opt_get a ''id'' = JStr t
                then JObj (AList.update ''messages''
                       (JArr (elems_of (own_prop a ''messages'') @ [own_prop pl ''message'']))
                       (own_props a))
                else a)"
proof -
  obtain ps where pl: "pl = JObj ps" using assms(1) by (auto elim: is_objE)
  show ?thesis
  proof (cases "nullish a")
    case True
    then show ?thesis
      using assms(2) unfolding add_message_to_active_def pl
      by (simp add: opt_get_nullish)
  next
    case False
    then have wf: "wf_conv a" using assms(3) by simp
    obtain kvs where c: "a = JObj kvs" and d: "distinct (map fst kvs)"
      using wf by (auto simp: wf_conv_def elim: is_objE)
    obtain ms where ms: "own_prop a ''messages'' = JArr ms"
      using wf by (auto simp: wf_conv_def elim: is_arrE)
    have lit: "\<And>v. obj_literal [Spread a, Field ''messages'' v] = JObj (AList.update ''messages'' v kvs)"
      using literal_field1 [of a] c d by simp
    show ?thesis
      using assms(2) ms lit unfolding add_message_to_active_def pl c by simp
  qed
qed

lemma appReducer_ADD_MESSAGE:
  assumes wf: "wf_state s" and ty: "type a = ADD_MESSAGE"
    and pl: "is_obj (payload a)" and t: "own_prop (payload a) ''conversationId'' = JStr t"
  shows "appReducer s a =
     Inr (JObj (AList.update ''activeConversation''
            (let active = own_prop s ''activeConversation'' in
             if opt_get active ''id'' = JStr t
             then JObj (AList.update ''messages''
                    (JArr (elems_of (own_prop active ''messages'') @ [own_prop (payload a) ''message'']))
                    (own_props active))
             else active)
          (AList.update ''conversations''
            (JArr (map (\<lambda>c. if own_prop c ''id'' = JStr t
                  then JObj (AList.update ''messages''
                         (JArr (elems_of (own_prop c ''messages'') @ [own_prop (payload a) ''message'']))
                         (own_props c))
                  else c) (elems_of (own_prop s ''conversations''))))
            (own_props s))))"
proof -
  obtain kvs where s: "s = JObj kvs" and d: "distinct (map fst kvs)"
    using wf by (auto simp: wf_state_def elim: is_objE)
  obtain cs where cs: "own_prop s ''conversations'' = JArr cs"
    using wf by (auto simp: wf_state_def elim: is_arrE)
  have all: "\<And>c. c \<in> set cs \<Longrightarrow> wf_conv c"
    using wf cs by (auto simp: wf_state_def list_all_iff)
  have act: "nullish (own_prop s ''activeConversation'') \<or> wf_conv (own_prop s ''activeConversation'')"
    using wf by (auto simp: wf_state_def nullish_def)
  have m: "mapM (add_message_to (payload a)) cs = Inr (map (\<lambda>c. if own_prop c ''id'' = JStr t
                  then JObj (AList.update ''messages''
                         (JArr (elems_of (own_prop c ''messages'') @ [own_prop (payload a) ''message'']))
                         (own_props c))
                  else c) cs)"
    by (rule mapM_pure) (simp add: add_message_to_conv [OF pl t all])
  have lit: "\<And>v w. obj_literal [Spread s, Field ''conversations'' v, Field ''activeConversation'' w]
       = JObj (AList.update ''activeConversation'' w (AList.update ''conversations'' v kvs))"
    using literal_field2 [of s] s d by simp
  show ?thesis
    using ty cs m add_message_to_active_conv [OF pl t act] lit
    unfolding appReducer_def s
    by (simp add: action_type_defs Let_def)
qed

lemma array_filter_keeps:
  assumes "\<And>c. c \<in> set cs \<Longrightarrow> wf_conv c"
  shows "array_filter (keeps p) (JArr cs) = Inr (JArr (filter (\<lambda>c. \<not> strict_eq (own_prop c ''id'') p) cs))"
proof -
  have "mapM (keeps p) cs = Inr (map (\<lambda>c. \<not> strict_eq (own_prop c ''id'') p) cs)"
    by (rule mapM_pure) (simp add: keeps_def get_prop_wf_conv assms)
  then show ?thesis by (simp add: filter_zip_map)
qed

lemma update_conv_conv:
  assumes "is_obj pl" "own_prop pl ''id'' = JStr t" "wf_conv c"
  shows "update_conv pl c =
           Inr (if own_prop c ''id'' = JStr t
                then JObj (foldl (\<lambda>ps kv. AList.update (fst kv) (snd kv) ps) (own_props c)
                             (own_props (own_prop pl ''updates'')))
                else c)"
proof -
  obtain ps where pl: "pl = JObj ps" using assms(1) by (auto elim: is_objE)
  have obj: "is_obj c" using assms(3) by (simp add: wf_conv_def)
  show ?thesis
    using assms(2) literal_spread2 [OF obj] get_prop_wf_conv [OF assms(3)]
    unfolding update_conv_def pl by simp
qed

lemma appReducer_DELETE_CONVERSATION:
  assumes wf: "wf_state s" and ty: "type a = DELETE_CONVERSATION"
  shows "appReducer s a =
     Inr (JObj (AList.update ''activeConversation''
            (if strict_eq (opt_get (own_prop s ''activeConversation'') ''id'') (payload a)
             then JNull else own_prop s ''activeConversation'')
          (AList.update ''conversations''
            (JArr (filter (\<lambda>c. \<not> strict_eq (own_prop c ''id'') (payload a))
                     (elems_of (own_prop s ''conversations''))))
            (own_props s))))"
proof -
  have obj: "is_obj s" using wf by (rule wf_state_obj)
  obtain cs where cs: "own_prop s ''conversations'' = JArr cs"
    using wf by (auto simp: wf_state_def elim: is_arrE)
  have flt: "array_filter (keeps (payload a)) (JArr (elems_of (own_prop s ''conversations'')))
      = Inr (JArr (filter (\<lambda>c. \<not> strict_eq (own_prop c ''id'') (payload a))
                     (elems_of (own_prop s ''conversations''))))"
    by (rule array_filter_keeps) (rule wf_state_conv [OF wf])
  note flt' = flt [unfolded cs, simplified]
  show ?thesis
    using ty unfolding appReducer_def
    by (simp add: action_type_defs cs flt' get_prop_wf_state [OF wf] literal_field2 [OF obj])
qed

lemma appReducer_UPDATE_CONVERSATION:
  assumes wf: "wf_state s" and ty: "type a = UPDATE_CONVERSATION"
    and pl: "is_obj (payload a)" and t: "own_prop (payload a) ''id'' = JStr t"
  shows "appReducer s a =
     Inr (JObj (AList.update ''conversations''
            (JArr (map (\<lambda>c. if own_prop c ''id'' = JStr t
                  then JObj (foldl (\<lambda>ps kv. AList.update (fst kv) (snd kv) ps) (own_props c)
                               (own_props (own_prop (payload a) ''updates'')))
                  else c) (elems_of (own_prop s ''conversations''))))
            (own_props s)))"
proof -
  have obj: "is_obj s" using wf by (rule wf_state_obj)
  obtain cs where cs: "own_prop s ''conversations'' = JArr cs"
    using wf by (auto simp: wf_state_def elim: is_arrE)
  have m: "mapM (update_conv (payload a)) (elems_of (own_prop s ''conversations''))
     = Inr (map (\<lambda>c. if own_prop c ''id'' = JStr t
                  then JObj (foldl (\<lambda>ps kv. AList.update (fst kv) (snd kv) ps) (own_props c)
                               (own_props (own_prop (payload a) ''updates'')))
                  else c) (elems_of (own_prop s ''conversations'')))"
    by (rule mapM_pure) (simp add: update_conv_conv [OF pl t wf_state_conv [OF wf]])
  note m' = m [unfolded cs, simplified]
  show ?thesis
    using ty unfolding appReducer_def
    by (simp add: action_type_defs cs m' get_prop_wf_state [OF wf] literal_field1 [OF obj])
qed

lemma appReducer_ADD_CONVERSATION:
  assumes wf: "wf_state s" and ty: "type a = ADD_CONVERSATION"
  shows "appReducer s a =
     Inr (JObj (AList.update ''activeConversation'' (payload a)
          (AList.update ''conversations''
            (JArr (payload a # elems_of (own_prop s ''conversations''))) (own_props s))))"
proof -
  have obj: "is_obj s" using wf by (rule wf_state_obj)
  obtain cs where cs: "own_prop s ''conversations'' = JArr cs"
    using wf by (auto simp: wf_state_def elim: is_arrE)
  show ?thesis
    using ty unfolding appReducer_def
    by (simp add: action_type_defs cs get_prop_wf_state [OF wf] literal_field2 [OF obj])
qed

lemma appReducer_SET_TYPING:
  assumes "wf_state s"
  shows "appReducer s (setTyping b) = Inr (JObj (AList.update ''isTyping'' (JBool b) (own_props s)))"
  using literal_field1 [OF wf_state_obj [OF assms]]
  unfolding appReducer_def by (simp add: setTyping_def action_type_defs)

lemma appReducer_wf:
  assumes wf: "wf_state s" and wa: "wf_action a"
  shows "\<exists>s'. appReducer s a = Inr s' \<and> wf_state s'"
proof -
  have obj: "is_obj s" using wf by (rule wf_state_obj)
  have arr: "is_arr (own_prop s ''conversations'')" using wf by (simp add: wf_state_def)
  have convs: "list_all wf_conv (elems_of (own_prop s ''conversations''))"
    using wf by (simp add: wf_state_def)
  note act = wf_state_act [OF wf]
  consider
      (SET_USER) "type a = SET_USER"
    | (LOGOUT_USER) "type a = LOGOUT_USER"
    | (SET_THEME) "type a = SET_THEME"
    | (TOGGLE_SIDEBAR) "type a = TOGGLE_SIDEBAR"
    | (ADD_CONVERSATION) "type a = ADD_CONVERSATION"
    | (SET_ACTIVE_CONVERSATION) "type a = SET_ACTIVE_CONVERSATION"
    | (ADD_MESSAGE) "type a = ADD_MESSAGE"
    | (SET_TYPING) "type a = SET_TYPING"
    | (DELETE_CONVERSATION) "type a = DELETE_CONVERSATION"
    | (UPDATE_CONVERSATION) "type a = UPDATE_CONVERSATION"
    | (CLEAR_ALL_CONVERSATIONS) "type a = CLEAR_ALL_CONVERSATIONS"
    | (other) "type a \<notin> set ActionTypes"
    by (auto simp: ActionTypes_def)
  then show ?thesis
  proof cases
    case SET_USER
    then have "appReducer s a = Inr (JObj (AList.update ''currentUser'' (payload a) (own_props s)))"
      unfolding appReducer_def by (simp add: literal_field1 [OF obj])
    then show ?thesis using wf_state_other_field [OF wf, of "''currentUser''"] by simp
  next
    case LOGOUT_USER
    then have "appReducer s a = Inr (JObj (AList.update ''activeConversation'' JNull
         (AList.update ''conversations'' (JArr []) (AList.update ''currentUser'' JNull (own_props s)))))"
      unfolding appReducer_def by (simp add: action_type_defs literal_field3 [OF obj])
    moreover have "wf_state (JObj (AList.update ''activeConversation'' JNull
         (AList.update ''conversations'' (JArr []) (AList.update ''currentUser'' JNull (own_props s)))))"
      using obj by (auto simp: wf_state_def distinct_update elim!: is_objE)
    ultimately show ?thesis by simp
  next
    case SET_THEME
    then have "appReducer s a = Inr (JObj (AList.update ''theme'' (payload a) (own_props s)))"
      unfolding appReducer_def by (simp add: action_type_defs literal_field1 [OF obj])
    then show ?thesis using wf_state_other_field [OF wf, of "''theme''"] by simp
  next
    case TOGGLE_SIDEBAR
    then have "appReducer s a = Inr (JObj (AList.update ''sidebarOpen''
         (JBool (\<not> truthy (own_prop s ''sidebarOpen''))) (own_props s)))"
      unfolding appReducer_def
      by (simp add: action_type_defs literal_field1 [OF obj] get_prop_wf_state [OF wf])
    then show ?thesis using wf_state_other_field [OF wf, of "''sidebarOpen''"] by simp
  next
    case ADD_CONVERSATION
    have "wf_conv (payload a)" using wa ADD_CONVERSATION by (simp add: wf_action_def)
    then have "wf_state (JObj (AList.update ''activeConversation'' (payload a)
          (AList.update ''conversations''
            (JArr (payload a # elems_of (own_prop s ''conversations''))) (own_props s))))"
      using convs by (intro wf_state_fields [OF obj]) simp_all
    then show ?thesis using appReducer_ADD_CONVERSATION [OF wf ADD_CONVERSATION] by simp
  next
    case SET_ACTIVE_CONVERSATION
    then have "appReducer s a = Inr (JObj (AList.update ''activeConversation'' (payload a) (own_props s)))"
      unfolding appReducer_def by (simp add: action_type_defs literal_field1 [OF obj])
    moreover have "payload a = JNull \<or> wf_conv (payload a)"
      using wa SET_ACTIVE_CONVERSATION by (auto simp: wf_action_def action_type_defs)
    ultimately show ?thesis using wf_state_active [OF wf] by simp
  next
    case ADD_MESSAGE
    have pl: "is_obj (payload a)" and "is_str (own_prop (payload a) ''conversationId'')"
      using wa ADD_MESSAGE by (auto simp: wf_action_def action_type_defs)
    then obtain t where t: "own_prop (payload a) ''conversationId'' = JStr t"
      by (auto elim: is_strE)
    let ?m = "own_prop (payload a) ''message''"
    let ?add = "\<lambda>c. JObj (AList.update ''messages'' (JArr (elems_of (own_prop c ''messages'') @ [?m])) (own_props c))"
    have 1: "list_all wf_conv (map (\<lambda>c. if own_prop c ''id'' = JStr t then ?add c else c)
               (elems_of (own_prop s ''conversations'')))"
      using convs by (auto simp: list_all_iff wf_conv_append)
    have 2: "(let active = own_prop s ''activeConversation'' in
               if opt_get active ''id'' = JStr t then ?add active else active) = JNull
             \<or> wf_conv (let active = own_prop s ''activeConversation'' in
               if opt_get active ''id'' = JStr t then ?add active else active)"
      using act by (auto simp: Let_def wf_conv_append opt_get_def)
    show ?thesis
      using appReducer_ADD_MESSAGE [OF wf ADD_MESSAGE pl t] wf_state_fields [OF obj 1 2]
      by simp
  next
    case SET_TYPING
    then have "appReducer s a = Inr (JObj (AList.update ''isTyping'' (payload a) (own_props s)))"
      unfolding appReducer_def by (simp add: action_type_defs literal_field1 [OF obj])
    then show ?thesis using wf_state_other_field [OF wf, of "''isTyping''"] by simp
  next
    case DELETE_CONVERSATION
    have 1: "list_all wf_conv (filter (\<lambda>c. \<not> strict_eq (own_prop c ''id'') (payload a))
                     (elems_of (own_prop s ''conversations'')))"
      using convs by (auto simp: list_all_iff)
    have 2: "(if strict_eq (opt_get (own_prop s ''activeConversation'') ''id'') (payload a)
             then JNull else own_prop s ''activeConversation'') = JNull
          \<or> wf_conv (if strict_eq (opt_get (own_prop s ''activeConversation'') ''id'') (payload a)
             then JNull else own_prop s ''activeConversation'')"
      using act by auto
    show ?thesis
      using appReducer_DELETE_CONVERSATION [OF wf DELETE_CONVERSATION] wf_state_fields [OF obj 1 2]
      by simp
  next
    case UPDATE_CONVERSATION
    have pl: "is_obj (payload a)" and "is_str (own_prop (payload a) ''id'')"
      and up: "wf_updates (own_prop (payload a) ''updates'')"
      using wa UPDATE_CONVERSATION by (auto simp: wf_action_def action_type_defs)
    then obtain t where t: "own_prop (payload a) ''id'' = JStr t"
      by (auto elim: is_strE)
    have 1: "list_all wf_conv (map (\<lambda>c. if own_prop c ''id'' = JStr t
                  then JObj (foldl (\<lambda>ps kv. AList.update (fst kv) (snd kv) ps) (own_props c)
                               (own_props (own_prop (payload a) ''updates'')))
                  else c) (elems_of (own_prop s ''conversations'')))"
      using convs up by (auto simp: list_all_iff wf_conv_merged)
    show ?thesis
      using appReducer_UPDATE_CONVERSATION [OF wf UPDATE_CONVERSATION pl t]
        wf_state_conversations [OF wf 1]
      by simp
  next
    case CLEAR_ALL_CONVERSATIONS
    then have "appReducer s a = Inr (JObj (AList.update ''activeConversation'' JNull
         (AList.update ''conversations'' (JArr []) (own_props s))))"
      unfolding appReducer_def by (simp add: action_type_defs literal_field2 [OF obj])
    moreover have "wf_state (JObj (AList.update ''activeConversation'' JNull
         (AList.update ''conversations'' (JArr []) (own_props s))))"
      by (intro wf_state_fields [OF obj]) simp_all
    ultimately show ?thesis by simp
  next
    case other
    then show ?thesis using wf by (simp add: appReducer_unknown)
  qed
qed

lemma appReducer_is_obj:
  assumes "is_obj s" "appReducer s a = Inr s'"
  shows "is_obj s'"
  using assms unfolding appReducer_def
  by (auto simp: bnd_eq_Inr is_obj_obj_literal split: if_splits)

lemma dispatch_all_is_obj:
  "is_obj s \<Longrightarrow> dispatch_all s as = Inr s' \<Longrightarrow> is_obj s'"
proof (induction as arbitrary: s)
  case Nil
  then show ?case by simp
next
  case (Cons a as)
  then obtain s1 where 1: "appReducer s a = Inr s1" and 2: "dispatch_all s1 as = Inr s'"
    by (auto simp: bnd_eq_Inr)
  show ?case using Cons.IH [OF appReducer_is_obj [OF Cons.prems(1) 1] 2] .
qed

subsection \<open>Totality\<close>

text \<open>
  C9. The reducer returns the input state itself for every state and every action whose
  type is none of the eleven action types; and on a well-shaped state an action with a
  well-formed payload never throws: the transition returns a state, which is again
  well-shaped.
\<close>

theorem appReducer_total:
  "(type a \<notin> set ActionTypes \<longrightarrow> appReducer s a = Inr s) \<and>
   (wf_state s \<and> wf_action a \<longrightarrow> (\<exists>s'. appReducer s a = Inr s' \<and> wf_state s'))"
  using appReducer_unknown [of a s] appReducer_wf [of s a] by blast

theorem appReducer_total_witness:
  "type \<lparr>type = ''RESET'', payload = JUndefined\<rparr> \<notin> set ActionTypes \<and>
   appReducer two_convs_state \<lparr>type = ''RESET'', payload = JUndefined\<rparr> = Inr two_convs_state \<and>
   wf_state two_convs_state \<and>
   wf_action (addMessage (JStr ''2'') demo_message) \<and>
   (\<exists>s'. appReducer two_convs_state (addMessage (JStr ''2'') demo_message) = Inr s' \<and> wf_state s')"
proof -
  have 1: "type \<lparr>type = ''RESET'', payload = JUndefined\<rparr> \<notin> set ActionTypes"
    by (simp add: ActionTypes_def action_type_defs)
  have 2: "wf_action (addMessage (JStr ''2'') demo_message)"
    by (simp add: wf_action_def addMessage_def action_type_defs)
  show ?thesis
    using 1 2 wf_two_convs_state
      appReducer_total [of "\<lparr>type = ''RESET'', payload = JUndefined\<rparr>" two_convs_state]
      appReducer_total [of "addMessage (JStr ''2'') demo_message" two_convs_state]
    by blast
qed

subsection \<open>Adding messages\<close>

lemma add_messages_general:
  assumes "wf_state s"
  shows "\<exists>s' cs'. dispatch_all s (map (addMessage (JStr t)) ms) = Inr s' \<and> wf_state s' \<and>
           own_prop s' ''conversations'' = JArr cs' \<and>
           length cs' = length (elems_of (own_prop s ''conversations'')) \<and>
           (\<forall>i < length cs'.
              if own_prop (elems_of (own_prop s ''conversations'') ! i) ''id'' = JStr t
              then own_prop (cs' ! i) ''messages''
                     = JArr (elems_of (own_prop (elems_of (own_prop s ''conversations'') ! i) ''messages'') @ ms) \<and>
                   (\<forall>k. k \<noteq> ''messages'' \<longrightarrow>
                      own_prop (cs' ! i) k = own_prop (elems_of (own_prop s ''conversations'') ! i) k)
              else cs' ! i = elems_of (own_prop s ''conversations'') ! i) \<and>
           (if opt_get (own_prop s ''activeConversation'') ''id'' = JStr t
            then own_prop (own_prop s' ''activeConversation'') ''messages''
                   = JArr (elems_of (own_prop (own_prop s ''activeConversation'') ''messages'') @ ms) \<and>
                 (\<forall>k. k \<noteq> ''messages'' \<longrightarrow>
                    own_prop (own_prop s' ''activeConversation'') k
                      = own_prop (own_prop s ''activeConversation'') k)
            else own_prop s' ''activeConversation'' = own_prop s ''activeConversation'')"
  using assms
proof (induction ms arbitrary: s)
  case Nil
  let ?cs = "elems_of (own_prop s ''conversations'')"
  let ?A = "own_prop s ''activeConversation''"
  have 1: "own_prop s ''conversations'' = JArr ?cs" by (rule wf_state_convs [OF Nil])
  have 2: "own_prop (?cs ! i) ''messages'' = JArr (elems_of (own_prop (?cs ! i) ''messages'') @ [])"
    if "i < length ?cs" for i
    using wf_conv_messages [OF wf_state_conv [OF Nil]] that by simp
  have 3: "own_prop ?A ''messages'' = JArr (elems_of (own_prop ?A ''messages'') @ [])"
    if "opt_get ?A ''id'' = JStr t"
  proof -
    have "?A \<noteq> JNull" using that by auto
    then have "wf_conv ?A" using wf_state_act [OF Nil] by simp
    then show ?thesis using wf_conv_messages by simp
  qed
  show ?case
  proof (intro exI [of _ s] exI [of _ ?cs] conjI)
    show "dispatch_all s (map (addMessage (JStr t)) []) = Inr s" by simp
    show "wf_state s" by (rule Nil)
    show "own_prop s ''conversations'' = JArr ?cs" by (rule 1)
    show "length ?cs = length ?cs" by simp
    show "\<forall>i < length ?cs.
              if own_prop (?cs ! i) ''id'' = JStr t
              then own_prop (?cs ! i) ''messages''
                     = JArr (elems_of (own_prop (?cs ! i) ''messages'') @ []) \<and>
                   (\<forall>k. k \<noteq> ''messages'' \<longrightarrow> own_prop (?cs ! i) k = own_prop (?cs ! i) k)
              else ?cs ! i = ?cs ! i"
      using 2 by simp
    show "if opt_get ?A ''id'' = JStr t
            then own_prop ?A ''messages'' = JArr (elems_of (own_prop ?A ''messages'') @ []) \<and>
                 (\<forall>k. k \<noteq> ''messages'' \<longrightarrow> own_prop ?A k = own_prop ?A k)
            else ?A = ?A"
      using 3 by simp
  qed
next
  case (Cons m ms)
  let ?cs = "elems_of (own_prop s ''conversations'')"
  let ?A = "own_prop s ''activeConversation''"
  let ?a = "addMessage (JStr t) m"
  let ?add = "\<lambda>c. JObj (AList.update ''messages'' (JArr (elems_of (own_prop c ''messages'') @ [m])) (own_props c))"
  let ?cs1 = "map (\<lambda>c. if own_prop c ''id'' = JStr t then ?add c else c) ?cs"
  let ?A1 = "if opt_get ?A ''id'' = JStr t then ?add ?A else ?A"
  let ?s1 = "JObj (AList.update ''activeConversation'' ?A1
                (AList.update ''conversations'' (JArr ?cs1) (own_props s)))"
  have wf: "wf_state s" by (rule Cons.prems)
  have obj: "is_obj s" by (rule wf_state_obj [OF wf])
  have ty: "type ?a = ADD_MESSAGE" by (simp add: addMessage_def)
  have pl: "is_obj (payload ?a)" by (simp add: addMessage_def)
  have tg: "own_prop (payload ?a) ''conversationId'' = JStr t" by (simp add: addMessage_def)
  have msg: "own_prop (payload ?a) ''message'' = m" by (simp add: addMessage_def)
  have wa: "wf_action ?a" by (simp add: wf_action_def addMessage_def action_type_defs)
  have step: "appReducer s ?a = Inr ?s1"
    using appReducer_ADD_MESSAGE [OF wf ty pl tg, unfolded msg] by (simp add: Let_def)
  have wf1: "wf_state ?s1" using appReducer_wf [OF wf wa] step by simp
  have cs1: "elems_of (own_prop ?s1 ''conversations'') = ?cs1" by simp
  have A1: "own_prop ?s1 ''activeConversation'' = ?A1" by simp
  from Cons.IH [OF wf1, unfolded cs1 A1]
  obtain s' cs' where ih:
    "dispatch_all ?s1 (map (addMessage (JStr t)) ms) = Inr s'"
    "wf_state s'"
    "own_prop s' ''conversations'' = JArr cs'"
    "length cs' = length ?cs1"
    "\<forall>i < length cs'.
              if own_prop (?cs1 ! i) ''id'' = JStr t
              then own_prop (cs' ! i) ''messages''
                     = JArr (elems_of (own_prop (?cs1 ! i) ''messages'') @ ms) \<and>
                   (\<forall>k. k \<noteq> ''messages'' \<longrightarrow> own_prop (cs' ! i) k = own_prop (?cs1 ! i) k)
              else cs' ! i = ?cs1 ! i"
    "if opt_get ?A1 ''id'' = JStr t
            then own_prop (own_prop s' ''activeConversation'') ''messages''
                   = JArr (elems_of (own_prop ?A1 ''messages'') @ ms) \<and>
                 (\<forall>k. k \<noteq> ''messages'' \<longrightarrow>
                    own_prop (own_prop s' ''activeConversation'') k = own_prop ?A1 k)
            else own_prop s' ''activeConversation'' = ?A1"
    by blast
  have len: "length cs' = length ?cs" using ih(4) by simp
  have entries: "if own_prop (?cs ! i) ''id'' = JStr t
              then own_prop (cs' ! i) ''messages''
                     = JArr (elems_of (own_prop (?cs ! i) ''messages'') @ m # ms) \<and>
                   (\<forall>k. k \<noteq> ''messages'' \<longrightarrow> own_prop (cs' ! i) k = own_prop (?cs ! i) k)
              else cs' ! i = ?cs ! i" if i: "i < length cs'" for i
  proof -
    have i': "i < length ?cs" using i len by simp
    have wc: "wf_conv (?cs ! i)" using wf_state_conv [OF wf] i' by simp
    then have oc: "is_obj (?cs ! i)" by (simp add: wf_conv_def)
    note p = appended_props [OF oc] own_prop_own_props [OF oc]
    show ?thesis
    proof (cases "own_prop (?cs ! i) ''id'' = JStr t")
      case True
      then have e: "?cs1 ! i = ?add (?cs ! i)" using i' by simp
      have id1: "own_prop (?add (?cs ! i)) ''id'' = JStr t" using True by (simp add: p)
      note X = ih(5) [rule_format, OF i, unfolded e id1 if_P [OF refl]]
      show ?thesis using True X by (simp add: p)
    next
      case False
      then have e: "?cs1 ! i = ?cs ! i" using i' by simp
      note Y = ih(5) [rule_format, OF i, unfolded e if_not_P [OF False]]
      show ?thesis using False Y by simp
    qed
  qed
  have active: "if opt_get ?A ''id'' = JStr t
            then own_prop (own_prop s' ''activeConversation'') ''messages''
                   = JArr (elems_of (own_prop ?A ''messages'') @ m # ms) \<and>
                 (\<forall>k. k \<noteq> ''messages'' \<longrightarrow>
                    own_prop (own_prop s' ''activeConversation'') k = own_prop ?A k)
            else own_prop s' ''activeConversation'' = ?A"
  proof (cases "opt_get ?A ''id'' = JStr t")
    case True
    then have "?A \<noteq> JNull" by auto
    then have wA: "wf_conv ?A" using wf_state_act [OF wf] by simp
    then have oA: "is_obj ?A" by (simp add: wf_conv_def)
    note p = appended_props [OF oA] own_prop_own_props [OF oA]
    have e: "?A1 = ?add ?A" using True by simp
    have idA: "own_prop ?A ''id'' = JStr t" using True opt_get_wf_conv [OF wA] by simp
    have "wf_conv (?add ?A)" by (rule wf_conv_append [OF wA])
    then have id1: "opt_get (?add ?A) ''id'' = JStr t"
      using opt_get_wf_conv [of "?add ?A" "''id''"] idA by (simp add: p)
    note X = ih(6) [unfolded e id1 if_P [OF refl]]
    show ?thesis using True X by (simp add: p)
  next
    case False
    then have e: "?A1 = ?A" by simp
    note Y = ih(6) [unfolded e if_not_P [OF False]]
    show ?thesis using False Y by simp
  qed
  have run: "dispatch_all s (map (addMessage (JStr t)) (m # ms)) = Inr s'"
    using step ih(1) by simp
  show ?case
    using run ih(2) ih(3) len entries active by blast
qed

text \<open>
  C2. \<open>ADD_MESSAGE\<close> is append-only. After the transitions for the messages \<open>ms\<close>, all
  targeting the identifier \<open>t\<close>, every entry of the collection that has this identifier
  holds its former messages followed by \<open>ms\<close> in the order of the calls, its other
  properties and all other entries being unchanged; and if the active conversation has
  the identifier, its copy holds its former messages followed by the same \<open>ms\<close>. For
  a single message this is one transition, which updates both copies.
\<close>

theorem add_message_append_only:
  assumes "wf_state s"
  shows "\<exists>s' cs'. dispatch_all s (map (addMessage (JStr t)) ms) = Inr s' \<and> wf_state s' \<and>
           own_prop s' ''conversations'' = JArr cs' \<and>
           length cs' = length (elems_of (own_prop s ''conversations'')) \<and>
           (\<forall>i < length cs'.
              if own_prop (elems_of (own_prop s ''conversations'') ! i) ''id'' = JStr t
              then own_prop (cs' ! i) ''messages''
                     = JArr (elems_of (own_prop (elems_of (own_prop s ''conversations'') ! i) ''messages'') @ ms) \<and>
                   (\<forall>k. k \<noteq> ''messages'' \<longrightarrow>
                      own_prop (cs' ! i) k = own_prop (elems_of (own_prop s ''conversations'') ! i) k)
              else cs' ! i = elems_of (own_prop s ''conversations'') ! i) \<and>
           (if opt_get (own_prop s ''activeConversation'') ''id'' = JStr t
            then own_prop (own_prop s' ''activeConversation'') ''messages''
                   = JArr (elems_of (own_prop (own_prop s ''activeConversation'') ''messages'') @ ms) \<and>
                 (\<forall>k. k \<noteq> ''messages'' \<longrightarrow>
                    own_prop (own_prop s' ''activeConversation'') k
                      = own_prop (own_prop s ''activeConversation'') k)
            else own_prop s' ''activeConversation'' = own_prop s ''activeConversation'')"
  using assms by (rule add_messages_general)

theorem add_message_append_only_witness:
  "wf_state two_convs_state \<and>
   (\<exists>s' cs'. dispatch_all two_convs_state
                [addMessage (JStr ''1'') demo_message, addMessage (JStr ''1'') demo_reply] = Inr s' \<and>
      own_prop s' ''conversations'' = JArr cs' \<and>
      length cs' = 2 \<and>
      own_prop (cs' ! 0) ''messages'' = JArr [demo_message, demo_reply] \<and>
      own_prop (cs' ! 0) ''id'' = JStr ''1'' \<and>
      cs' ! 1 = conv_two \<and>
      own_prop (own_prop s' ''activeConversation'') ''messages'' = JArr [demo_message, demo_reply]) \<and>
   (\<exists>s' cs'. appReducer two_convs_state (addMessage (JStr ''1'') demo_message) = Inr s' \<and>
      own_prop s' ''conversations'' = JArr cs' \<and>
      own_prop (cs' ! 0) ''messages'' = JArr [demo_message] \<and>
      own_prop (own_prop s' ''activeConversation'') ''messages'' = JArr [demo_message])"
proof -
  have c: "elems_of (own_prop two_convs_state ''conversations'') = [conv_one, conv_two]"
    by (simp add: two_convs_state_def)
  have a: "own_prop two_convs_state ''activeConversation'' = conv_one"
    by (simp add: two_convs_state_def)
  have i1: "own_prop conv_one ''id'' = JStr ''1''" by (simp add: conv_one_def)
  have i2: "own_prop conv_two ''id'' = JStr ''2''" by (simp add: conv_two_def)
  have og: "opt_get conv_one ''id'' = JStr ''1''" by (simp add: conv_one_def)
  have m1: "elems_of (own_prop conv_one ''messages'') = []" by (simp add: conv_one_def)
  have n0: "[conv_one, conv_two] ! 0 = conv_one" and n1: "[conv_one, conv_two] ! 1 = conv_two"
    by simp_all
  have ne: "JStr ''2'' \<noteq> JStr ''1''" by simp
  have part: "\<exists>s' cs'. dispatch_all two_convs_state (map (addMessage (JStr ''1'')) ms) = Inr s' \<and>
      own_prop s' ''conversations'' = JArr cs' \<and>
      length cs' = 2 \<and>
      own_prop (cs' ! 0) ''messages'' = JArr ms \<and>
      own_prop (cs' ! 0) ''id'' = JStr ''1'' \<and>
      cs' ! 1 = conv_two \<and>
      own_prop (own_prop s' ''activeConversation'') ''messages'' = JArr ms" for ms
  proof -
    from add_message_append_only [OF wf_two_convs_state, of "''1''" ms, unfolded c a og if_P [OF refl]]
    obtain s' cs' where r:
      "dispatch_all two_convs_state (map (addMessage (JStr ''1'')) ms) = Inr s'"
      "own_prop s' ''conversations'' = JArr cs'"
      "length cs' = length [conv_one, conv_two]"
      "\<forall>i < length cs'.
              if own_prop ([conv_one, conv_two] ! i) ''id'' = JStr ''1''
              then own_prop (cs' ! i) ''messages''
                     = JArr (elems_of (own_prop ([conv_one, conv_two] ! i) ''messages'') @ ms) \<and>
                   (\<forall>k. k \<noteq> ''messages'' \<longrightarrow>
                      own_prop (cs' ! i) k = own_prop ([conv_one, conv_two] ! i) k)
              else cs' ! i = [conv_one, conv_two] ! i"
      "own_prop (own_prop s' ''activeConversation'') ''messages''
                   = JArr (elems_of (own_prop conv_one ''messages'') @ ms)"
      by blast
    have len: "length cs' = 2" using r(3) by simp
    have l0: "0 < length cs'" and l1: "1 < length cs'" using len by simp_all
    note e0 = r(4) [rule_format, OF l0, unfolded n0 i1 if_P [OF refl]]
    note e1 = r(4) [rule_format, OF l1, unfolded n1 i2 if_not_P [OF ne]]
    have "own_prop (cs' ! 0) ''messages'' = JArr ms" using e0 m1 by simp
    moreover have "own_prop (cs' ! 0) ''id'' = JStr ''1''" using e0 i1 by simp
    moreover have "own_prop (own_prop s' ''activeConversation'') ''messages'' = JArr ms"
      using r(5) m1 by simp
    ultimately show ?thesis using r(1,2) len e1 by blast
  qed
  have two: "\<exists>s' cs'. dispatch_all two_convs_state
                [addMessage (JStr ''1'') demo_message, addMessage (JStr ''1'') demo_reply] = Inr s' \<and>
      own_prop s' ''conversations'' = JArr cs' \<and>
      length cs' = 2 \<and>
      own_prop (cs' ! 0) ''messages'' = JArr [demo_message, demo_reply] \<and>
      own_prop (cs' ! 0) ''id'' = JStr ''1'' \<and>
      cs' ! 1 = conv_two \<and>
      own_prop (own_prop s' ''activeConversation'') ''messages'' = JArr [demo_message, demo_reply]"
    using part [of "[demo_message, demo_reply]"] by simp
  have one: "\<exists>s' cs'. appReducer two_convs_state (addMessage (JStr ''1'') demo_message) = Inr s' \<and>
      own_prop s' ''conversations'' = JArr cs' \<and>
      own_prop (cs' ! 0) ''messages'' = JArr [demo_message] \<and>
      own_prop (own_prop s' ''activeConversation'') ''messages'' = JArr [demo_message]"
  proof -
    from part [of "[demo_message]"]
    obtain s' cs' where r: "dispatch_all two_convs_state [addMessage (JStr ''1'') demo_message] = Inr s'"
      "own_prop s' ''conversations'' = JArr cs'"
      "own_prop (cs' ! 0) ''messages'' = JArr [demo_message]"
      "own_prop (own_prop s' ''activeConversation'') ''messages'' = JArr [demo_message]"
      by auto
    have "appReducer two_convs_state (addMessage (JStr ''1'') demo_message) = Inr s'"
      using r(1) by (cases "appReducer two_convs_state (addMessage (JStr ''1'') demo_message)") simp_all
    then show ?thesis using r(2,3,4) by blast
  qed
  show ?thesis using wf_two_convs_state two one by blast
qed

text \<open>
  C10. In a state whose active conversation is not null and has the identifier that an
  \<open>ADD_MESSAGE\<close> action targets, while no entry of the conversation collection has
  it, the transition appends the message to the active copy and leaves the collection
  as it is: the two copies are updated by independent tests of the identifier.
\<close>

theorem add_message_active_only:
  assumes "wf_state s"
    and "\<not> nullish (own_prop s ''activeConversation'')"
    and "own_prop (own_prop s ''activeConversation'') ''id'' = JStr t"
    and "\<forall>c \<in> set (elems_of (own_prop s ''conversations'')). own_prop c ''id'' \<noteq> JStr t"
  shows "\<exists>s'. appReducer s (addMessage (JStr t) m) = Inr s' \<and>
           own_prop s' ''conversations'' = own_prop s ''conversations'' \<and>
           own_prop (own_prop s' ''activeConversation'') ''messages''
             = JArr (elems_of (own_prop (own_prop s ''activeConversation'') ''messages'') @ [m]) \<and>
           (\<forall>k. k \<noteq> ''messages'' \<longrightarrow>
              own_prop (own_prop s' ''activeConversation'') k
                = own_prop (own_prop s ''activeConversation'') k)"
proof -
  let ?a = "addMessage (JStr t) m"
  let ?active = "own_prop s ''activeConversation''"
  have ty: "type ?a = ADD_MESSAGE" by (simp add: addMessage_def)
  have pl: "is_obj (payload ?a)" by (simp add: addMessage_def)
  have tg: "own_prop (payload ?a) ''conversationId'' = JStr t" by (simp add: addMessage_def)
  have msg: "own_prop (payload ?a) ''message'' = m" by (simp add: addMessage_def)
  have wfa: "wf_conv ?active" using assms(1,2) by (auto simp: wf_state_def nullish_def)
  then have obj: "is_obj ?active" by (simp add: wf_conv_def)
  have og: "opt_get ?active ''id'' = JStr t"
    using assms(2,3) by (simp add: opt_get_def nullish_def)
  obtain cs where cs: "own_prop s ''conversations'' = JArr cs"
    using assms(1) by (auto simp: wf_state_def elim: is_arrE)
  have same: "map (\<lambda>c. if own_prop c ''id'' = JStr t
                  then JObj (AList.update ''messages''
                         (JArr (elems_of (own_prop c ''messages'') @ [m])) (own_props c))
                  else c) cs = cs"
    using assms(4) cs by (intro map_idI) simp
  note eq = appReducer_ADD_MESSAGE [OF assms(1) ty pl tg, unfolded msg]
  show ?thesis
    using eq og cs same own_prop_own_props [OF obj]
    by (simp add: Let_def)
qed

theorem add_message_active_only_witness:
  "wf_state stale_state \<and>
   \<not> nullish (own_prop stale_state ''activeConversation'') \<and>
   own_prop (own_prop stale_state ''activeConversation'') ''id'' = JStr ''1'' \<and>
   elems_of (own_prop stale_state ''conversations'') = [] \<and>
   (\<exists>s'. appReducer stale_state (addMessage (JStr ''1'') demo_message) = Inr s' \<and>
      own_prop s' ''conversations'' = JArr [] \<and>
      own_prop (own_prop s' ''activeConversation'') ''messages'' = JArr [demo_message] \<and>
      own_prop (own_prop s' ''activeConversation'') ''title'' = JStr ''T'')"
proof -
  have h1: "wf_state stale_state"
    by (simp add: stale_state_def conv_one_def wf_state_def wf_conv_def nullish_def)
  have h2: "\<not> nullish (own_prop stale_state ''activeConversation'')"
    by (simp add: stale_state_def conv_one_def nullish_def)
  have h3: "own_prop (own_prop stale_state ''activeConversation'') ''id'' = JStr ''1''"
    by (simp add: stale_state_def conv_one_def)
  have h4: "\<forall>c \<in> set (elems_of (own_prop stale_state ''conversations'')). own_prop c ''id'' \<noteq> JStr ''1''"
    by (simp add: stale_state_def)
  have c: "own_prop stale_state ''conversations'' = JArr []" by (simp add: stale_state_def)
  have ms: "own_prop (own_prop stale_state ''activeConversation'') ''messages'' = JArr []"
    by (simp add: stale_state_def conv_one_def)
  have ti: "own_prop (own_prop stale_state ''activeConversation'') ''title'' = JStr ''T''"
    by (simp add: stale_state_def conv_one_def)
  from add_message_active_only [OF h1 h2 h3 h4, of demo_message]
  obtain s' where r: "appReducer stale_state (addMessage (JStr ''1'') demo_message) = Inr s'"
    "own_prop s' ''conversations'' = own_prop stale_state ''conversations''"
    "own_prop (own_prop s' ''activeConversation'') ''messages''
             = JArr (elems_of (own_prop (own_prop stale_state ''activeConversation'') ''messages'') @ [demo_message])"
    "\<forall>k. k \<noteq> ''messages'' \<longrightarrow>
              own_prop (own_prop s' ''activeConversation'') k
                = own_prop (own_prop stale_state ''activeConversation'') k"
    by blast
  have "own_prop (own_prop s' ''activeConversation'') ''title'' = JStr ''T''"
    using r(4) ti by simp
  then show ?thesis using h1 h2 h3 r c ms by auto
qed

subsection \<open>Deleting a conversation\<close>

lemma delete_noop:
  assumes wf: "wf_state s"
    and none: "\<forall>c \<in> set (elems_of (own_prop s ''conversations'')). own_prop c ''id'' \<noteq> JStr t"
    and act: "opt_get (own_prop s ''activeConversation'') ''id'' \<noteq> JStr t"
  shows "appReducer s (deleteConversation (JStr t)) = Inr s"
proof -
  have obj: "is_obj s" using wf by (rule wf_state_obj)
  have ty: "type (deleteConversation (JStr t)) = DELETE_CONVERSATION"
    by (simp add: deleteConversation_def)
  have keep: "filter (\<lambda>c. own_prop c ''id'' \<noteq> JStr t) (elems_of (own_prop s ''conversations''))
              = elems_of (own_prop s ''conversations'')"
    using none by (simp add: filter_id_conv)
  have c: "own_prop s ''conversations'' \<noteq> JUndefined"
    using wf by (auto simp: wf_state_def)
  have a: "own_prop s ''activeConversation'' \<noteq> JUndefined"
    using wf_state_act [OF wf] by (auto simp: wf_conv_not_undefined)
  have 1: "AList.update ''conversations'' (JArr (elems_of (own_prop s ''conversations''))) (own_props s)
           = own_props s"
    using update_same [OF obj c] wf_state_convs [OF wf] by simp
  have 2: "AList.update ''activeConversation'' (own_prop s ''activeConversation'') (own_props s)
           = own_props s"
    by (rule update_same [OF obj a])
  show ?thesis
    using appReducer_DELETE_CONVERSATION [OF wf ty] act
    by (simp add: deleteConversation_def keep 1 2 JObj_own_props [OF obj])
qed

text \<open>
  C5, as amended. On a well-shaped state, \<open>DELETE_CONVERSATION\<close> leaves in the
  collection exactly the entries whose identifier is not the deleted one, in their order,
  so that no entry has the identifier afterwards; the active conversation becomes
  \<open>null\<close> if it had the deleted identifier and is unchanged otherwise (a pointer that
  was \<open>null\<close> stays \<open>null\<close>); no other field changes; deleting an identifier that
  neither an entry of the collection nor the active conversation has leaves the state
  unchanged; and deleting the same identifier a second time changes nothing.
\<close>

theorem delete_conversation_effect:
  assumes wf: "wf_state s"
  shows "\<exists>s'. appReducer s (deleteConversation (JStr t)) = Inr s' \<and>
           own_prop s' ''conversations''
             = JArr (filter (\<lambda>c. own_prop c ''id'' \<noteq> JStr t) (elems_of (own_prop s ''conversations''))) \<and>
           (\<forall>c \<in> set (elems_of (own_prop s' ''conversations'')). own_prop c ''id'' \<noteq> JStr t) \<and>
           own_prop s' ''activeConversation''
             = (if opt_get (own_prop s ''activeConversation'') ''id'' = JStr t
                then JNull else own_prop s ''activeConversation'') \<and>
           (\<forall>k. k \<noteq> ''conversations'' \<and> k \<noteq> ''activeConversation'' \<longrightarrow> own_prop s' k = own_prop s k) \<and>
           ((\<forall>c \<in> set (elems_of (own_prop s ''conversations'')). own_prop c ''id'' \<noteq> JStr t) \<and>
            opt_get (own_prop s ''activeConversation'') ''id'' \<noteq> JStr t \<longrightarrow> s' = s) \<and>
           appReducer s' (deleteConversation (JStr t)) = Inr s'"
proof -
  let ?a = "deleteConversation (JStr t)"
  have obj: "is_obj s" using wf by (rule wf_state_obj)
  have ty: "type ?a = DELETE_CONVERSATION" by (simp add: deleteConversation_def)
  have wa: "wf_action ?a" by (simp add: wf_action_def deleteConversation_def action_type_defs)
  obtain s' where s': "appReducer s ?a = Inr s'" and wf': "wf_state s'"
    using appReducer_wf [OF wf wa] by blast
  note eq = appReducer_DELETE_CONVERSATION [OF wf ty, unfolded s', simplified]
  have pl: "payload ?a = JStr t" by (simp add: deleteConversation_def)
  have convs: "own_prop s' ''conversations''
             = JArr (filter (\<lambda>c. own_prop c ''id'' \<noteq> JStr t) (elems_of (own_prop s ''conversations'')))"
    unfolding eq pl by simp
  have active: "own_prop s' ''activeConversation''
             = (if opt_get (own_prop s ''activeConversation'') ''id'' = JStr t
                then JNull else own_prop s ''activeConversation'')"
    unfolding eq pl by simp
  have others: "\<forall>k. k \<noteq> ''conversations'' \<and> k \<noteq> ''activeConversation'' \<longrightarrow> own_prop s' k = own_prop s k"
    unfolding eq pl using own_prop_own_props [OF obj] by simp
  have gone: "\<forall>c \<in> set (elems_of (own_prop s' ''conversations'')). own_prop c ''id'' \<noteq> JStr t"
    unfolding convs by simp
  have act': "opt_get (own_prop s' ''activeConversation'') ''id'' \<noteq> JStr t"
    unfolding active by (simp add: opt_get_def)
  have idem: "appReducer s' ?a = Inr s'"
    by (rule delete_noop [OF wf' gone act'])
  have noop: "(\<forall>c \<in> set (elems_of (own_prop s ''conversations'')). own_prop c ''id'' \<noteq> JStr t) \<and>
            opt_get (own_prop s ''activeConversation'') ''id'' \<noteq> JStr t \<longrightarrow> s' = s"
    using delete_noop [OF wf, of t] s' by auto
  show ?thesis using s' convs gone active others noop idem by blast
qed

theorem delete_conversation_effect_witness:
  "wf_state two_convs_state \<and>
   (\<exists>s'. appReducer two_convs_state (deleteConversation (JStr ''2'')) = Inr s' \<and>
      own_prop s' ''conversations'' = JArr [conv_one] \<and>
      own_prop s' ''activeConversation'' = conv_one \<and>
      own_prop s' ''theme'' = JStr ''light'' \<and>
      appReducer s' (deleteConversation (JStr ''2'')) = Inr s') \<and>
   appReducer two_convs_state (deleteConversation (JStr ''3'')) = Inr two_convs_state"
proof -
  have c: "elems_of (own_prop two_convs_state ''conversations'') = [conv_one, conv_two]"
    by (simp add: two_convs_state_def)
  have a: "own_prop two_convs_state ''activeConversation'' = conv_one"
    by (simp add: two_convs_state_def)
  have th: "own_prop two_convs_state ''theme'' = JStr ''light''"
    by (simp add: two_convs_state_def)
  have i1: "own_prop conv_one ''id'' = JStr ''1''" by (simp add: conv_one_def)
  have i2: "own_prop conv_two ''id'' = JStr ''2''" by (simp add: conv_two_def)
  have og: "opt_get conv_one ''id'' = JStr ''1''" by (simp add: conv_one_def)
  from delete_conversation_effect [OF wf_two_convs_state, of "''2''"]
  obtain s' where 1: "appReducer two_convs_state (deleteConversation (JStr ''2'')) = Inr s'"
      "own_prop s' ''conversations'' = JArr [conv_one]"
      "own_prop s' ''activeConversation'' = conv_one"
      "own_prop s' ''theme'' = JStr ''light''"
      "appReducer s' (deleteConversation (JStr ''2'')) = Inr s'"
    unfolding c a using i1 i2 og th by auto
  from delete_conversation_effect [OF wf_two_convs_state, of "''3''"]
  have 2: "appReducer two_convs_state (deleteConversation (JStr ''3'')) = Inr two_convs_state"
    unfolding c a using i1 i2 og by auto
  show ?thesis using wf_two_convs_state 1 2 by blast
qed

text \<open>
  The claim C5 as stated fails where the active conversation is not an entry of the
  collection: no entry matches the deleted identifier, yet the transition changes the
  state, because it clears the active conversation.
\<close>

theorem delete_unmatched_changes_state:
  "elems_of (own_prop stale_state ''conversations'') = [] \<and>
   appReducer stale_state (deleteConversation (JStr ''1'')) = Inr cleared_state \<and>
   cleared_state \<noteq> stale_state"
proof -
  have ty: "type (deleteConversation (JStr ''1'')) = DELETE_CONVERSATION"
    by (simp add: deleteConversation_def)
  have "appReducer stale_state (deleteConversation (JStr ''1'')) = Inr cleared_state"
    unfolding appReducer_DELETE_CONVERSATION [OF wf_stale_state ty]
    by (simp add: stale_state_def conv_one_def cleared_state_def deleteConversation_def)
  moreover have "cleared_state \<noteq> stale_state"
    by (simp add: stale_state_def conv_one_def cleared_state_def)
  moreover have "elems_of (own_prop stale_state ''conversations'') = []"
    by (simp add: stale_state_def)
  ultimately show ?thesis by simp
qed

subsection \<open>Updating a conversation\<close>

text \<open>
  C6. \<open>UPDATE_CONVERSATION\<close> replaces each entry of the collection that has the given
  identifier by the shallow merge \<open>{...conv, ...updates}\<close>, whose properties are those of
  the partial fields where they define one and those of the entry elsewhere; every other
  entry, the active conversation (also when it has the updated identifier) and all other
  fields of the state are unchanged.
\<close>

theorem update_conversation_frame:
  assumes wf: "wf_state s"
  shows "\<exists>s' cs'. appReducer s (updateConversation (JStr t) u) = Inr s' \<and>
           own_prop s' ''conversations'' = JArr cs' \<and>
           length cs' = length (elems_of (own_prop s ''conversations'')) \<and>
           (\<forall>i < length cs'.
              if own_prop (elems_of (own_prop s ''conversations'') ! i) ''id'' = JStr t
              then cs' ! i = obj_literal [Spread (elems_of (own_prop s ''conversations'') ! i), Spread u] \<and>
                   (distinct (map fst (own_props u)) \<longrightarrow>
                      (\<forall>k. own_prop (cs' ! i) k =
                         (if k \<in> fst ` set (own_props u) then own_prop (JObj (own_props u)) k
                          else own_prop (elems_of (own_prop s ''conversations'') ! i) k)))
              else cs' ! i = elems_of (own_prop s ''conversations'') ! i) \<and>
           own_prop s' ''activeConversation'' = own_prop s ''activeConversation'' \<and>
           (\<forall>k. k \<noteq> ''conversations'' \<longrightarrow> own_prop s' k = own_prop s k)"
proof -
  let ?a = "updateConversation (JStr t) u"
  let ?cs = "elems_of (own_prop s ''conversations'')"
  let ?merge = "\<lambda>c. JObj (foldl (\<lambda>ps kv. AList.update (fst kv) (snd kv) ps) (own_props c) (own_props u))"
  let ?cs' = "map (\<lambda>c. if own_prop c ''id'' = JStr t then ?merge c else c) ?cs"
  have obj: "is_obj s" using wf by (rule wf_state_obj)
  have ty: "type ?a = UPDATE_CONVERSATION" by (simp add: updateConversation_def)
  have pl: "is_obj (payload ?a)" by (simp add: updateConversation_def)
  have tg: "own_prop (payload ?a) ''id'' = JStr t" by (simp add: updateConversation_def)
  have up: "own_prop (payload ?a) ''updates'' = u" by (simp add: updateConversation_def)
  note eq = appReducer_UPDATE_CONVERSATION [OF wf ty pl tg, unfolded up]
  have entry: "if own_prop (?cs ! i) ''id'' = JStr t
              then ?cs' ! i = obj_literal [Spread (?cs ! i), Spread u] \<and>
                   (distinct (map fst (own_props u)) \<longrightarrow>
                      (\<forall>k. own_prop (?cs' ! i) k =
                         (if k \<in> fst ` set (own_props u) then own_prop (JObj (own_props u)) k
                          else own_prop (?cs ! i) k)))
              else ?cs' ! i = ?cs ! i" if i: "i < length ?cs" for i
  proof -
    have wc: "wf_conv (?cs ! i)" using wf_state_conv [OF wf] i by simp
    then have oc: "is_obj (?cs ! i)" by (simp add: wf_conv_def)
    show ?thesis
      using i literal_spread2 [OF oc, of u] own_prop_merged [of "own_props u" "own_props (?cs ! i)"]
        own_prop_own_props [OF oc]
      by simp
  qed
  let ?s' = "JObj (AList.update ''conversations'' (JArr ?cs') (own_props s))"
  show ?thesis
  proof (intro exI [of _ ?s'] exI [of _ ?cs'] conjI)
    show "appReducer s ?a = Inr ?s'" by (rule eq)
    show "own_prop ?s' ''conversations'' = JArr ?cs'" by simp
    show "length ?cs' = length ?cs" by simp
    show "own_prop ?s' ''activeConversation'' = own_prop s ''activeConversation''"
      using own_prop_own_props [OF obj] by simp
    show "\<forall>k. k \<noteq> ''conversations'' \<longrightarrow> own_prop ?s' k = own_prop s k"
      using own_prop_own_props [OF obj] by simp
    show "\<forall>i < length ?cs'.
            if own_prop (?cs ! i) ''id'' = JStr t
            then ?cs' ! i = obj_literal [Spread (?cs ! i), Spread u] \<and>
                 (distinct (map fst (own_props u)) \<longrightarrow>
                    (\<forall>k. own_prop (?cs' ! i) k =
                       (if k \<in> fst ` set (own_props u) then own_prop (JObj (own_props u)) k
                        else own_prop (?cs ! i) k)))
            else ?cs' ! i = ?cs ! i"
    proof (intro allI impI)
      fix i assume "i < length ?cs'"
      then have "i < length ?cs" by simp
      then show "if own_prop (?cs ! i) ''id'' = JStr t
            then ?cs' ! i = obj_literal [Spread (?cs ! i), Spread u] \<and>
                 (distinct (map fst (own_props u)) \<longrightarrow>
                    (\<forall>k. own_prop (?cs' ! i) k =
                       (if k \<in> fst ` set (own_props u) then own_prop (JObj (own_props u)) k
                        else own_prop (?cs ! i) k)))
            else ?cs' ! i = ?cs ! i"
        by (rule entry)
    qed
  qed
qed

theorem update_conversation_frame_witness:
  "wf_state two_convs_state \<and>
   distinct (map fst (own_props (JObj [(''title'', JStr ''Renamed'')]))) \<and>
   (\<exists>s' cs'. appReducer two_convs_state
                (updateConversation (JStr ''1'') (JObj [(''title'', JStr ''Renamed'')])) = Inr s' \<and>
      own_prop s' ''conversations'' = JArr cs' \<and>
      length cs' = 2 \<and>
      own_prop (cs' ! 0) ''title'' = JStr ''Renamed'' \<and>
      own_prop (cs' ! 0) ''id'' = JStr ''1'' \<and>
      cs' ! 1 = conv_two \<and>
      own_prop s' ''activeConversation'' = conv_one \<and>
      own_prop conv_one ''title'' = JStr ''T'')"
proof -
  let ?u = "JObj [(''title'', JStr ''Renamed'')]"
  have du: "distinct (map fst (own_props ?u))" by simp
  have c: "elems_of (own_prop two_convs_state ''conversations'') = [conv_one, conv_two]"
    by (simp add: two_convs_state_def)
  have a: "own_prop two_convs_state ''activeConversation'' = conv_one"
    by (simp add: two_convs_state_def)
  have i1: "own_prop conv_one ''id'' = JStr ''1''" by (simp add: conv_one_def)
  have i2: "own_prop conv_two ''id'' = JStr ''2''" by (simp add: conv_two_def)
  have t1: "own_prop conv_one ''title'' = JStr ''T''" by (simp add: conv_one_def)
  from update_conversation_frame [OF wf_two_convs_state, of "''1''" ?u, unfolded c a]
  obtain s' cs' where r:
      "appReducer two_convs_state (updateConversation (JStr ''1'') ?u) = Inr s'"
      "own_prop s' ''conversations'' = JArr cs'"
      "length cs' = length [conv_one, conv_two]"
      "\<forall>i < length cs'.
         if own_prop ([conv_one, conv_two] ! i) ''id'' = JStr ''1''
         then cs' ! i = obj_literal [Spread ([conv_one, conv_two] ! i), Spread ?u] \<and>
              (distinct (map fst (own_props ?u)) \<longrightarrow>
                 (\<forall>k. own_prop (cs' ! i) k =
                    (if k \<in> fst ` set (own_props ?u) then own_prop (JObj (own_props ?u)) k
                     else own_prop ([conv_one, conv_two] ! i) k)))
         else cs' ! i = [conv_one, conv_two] ! i"
      "own_prop s' ''activeConversation'' = conv_one"
    by blast
  have len: "length cs' = 2" using r(3) by simp
  have n0: "[conv_one, conv_two] ! 0 = conv_one" and n1: "[conv_one, conv_two] ! 1 = conv_two"
    by simp_all
  have l0: "0 < length cs'" and l1: "1 < length cs'" using len by simp_all
  note e0 = r(4) [rule_format, OF l0, unfolded n0 i1 if_P [OF refl], THEN conjunct2, rule_format, OF du]
  have e1: "cs' ! 1 = conv_two"
    using r(4) [rule_format, OF l1] unfolding n1 i2 by simp
  have "own_prop (cs' ! 0) ''title'' = JStr ''Renamed''"
    using e0 [of "''title''"] by simp
  moreover have "own_prop (cs' ! 0) ''id'' = JStr ''1''"
    using e0 [of "''id''"] i1 by simp
  ultimately show ?thesis
    using wf_two_convs_state du r(1,2,5) len e1 t1 by blast
qed

section \<open>Persistence of the state\<close>

subsection \<open>The merge of the loaded state\<close>

lemma hydrate_obj:
  assumes "is_obj d"
  shows "hydrate d p =
     Inr (JObj (AList.update ''quickPrompts'' (own_prop d ''quickPrompts'')
            (AList.update ''userRoles'' (own_prop d ''userRoles'')
              (foldl (\<lambda>ps kv. AList.update (fst kv) (snd kv) ps) (own_props d) (own_props p)))))"
proof -
  obtain kvs where d: "d = JObj kvs" using assms by (auto elim: is_objE)
  show ?thesis
    using obj_literal_spread [OF assms] unfolding hydrate_def d by simp
qed

lemma hydrate_overlay:
  assumes "is_obj defaultState"
  shows "\<exists>merged. hydrate defaultState persistedState = Inr merged \<and>
           own_prop merged ''userRoles'' = own_prop defaultState ''userRoles'' \<and>
           own_prop merged ''quickPrompts'' = own_prop defaultState ''quickPrompts'' \<and>
           (distinct (map fst (own_props persistedState)) \<longrightarrow>
              (\<forall>k. k \<noteq> ''userRoles'' \<and> k \<noteq> ''quickPrompts'' \<longrightarrow>
                 own_prop merged k =
                   (if k \<in> fst ` set (own_props persistedState)
                    then own_prop (JObj (own_props persistedState)) k
                    else own_prop defaultState k)))"
proof -
  let ?m = "JObj (AList.update ''quickPrompts'' (own_prop defaultState ''quickPrompts'')
            (AList.update ''userRoles'' (own_prop defaultState ''userRoles'')
              (foldl (\<lambda>ps kv. AList.update (fst kv) (snd kv) ps) (own_props defaultState)
                 (own_props persistedState))))"
  show ?thesis
  proof (intro exI [of _ ?m] conjI impI allI)
    show "hydrate defaultState persistedState = Inr ?m" by (rule hydrate_obj [OF assms])
    show "own_prop ?m ''userRoles'' = own_prop defaultState ''userRoles''" by simp
    show "own_prop ?m ''quickPrompts'' = own_prop defaultState ''quickPrompts''" by simp
    fix k
    assume d: "distinct (map fst (own_props persistedState))"
      and k: "k \<noteq> ''userRoles'' \<and> k \<noteq> ''quickPrompts''"
    show "own_prop ?m k =
            (if k \<in> fst ` set (own_props persistedState)
             then own_prop (JObj (own_props persistedState)) k
             else own_prop defaultState k)"
      using k own_prop_merged [OF d, of "own_props defaultState" k] own_prop_own_props [OF assms, of k]
      by simp
  qed
qed

text \<open>
  C3. The merge of the loaded state into the default state succeeds for every default
  state that is an object and every parsed value; in the merged state \<open>userRoles\<close> and
  \<open>quickPrompts\<close> are those of the default state whatever the parsed value held; and
  every other property is that of the parsed value where it defines one and that of the
  default state elsewhere.
\<close>

theorem hydrate_merge:
  assumes "is_obj defaultState"
  shows "\<exists>merged. hydrate defaultState persistedState = Inr merged \<and>
           own_prop merged ''userRoles'' = own_prop defaultState ''userRoles'' \<and>
           own_prop merged ''quickPrompts'' = own_prop defaultState ''quickPrompts'' \<and>
           (distinct (map fst (own_props persistedState)) \<longrightarrow>
              (\<forall>k. k \<noteq> ''userRoles'' \<and> k \<noteq> ''quickPrompts'' \<longrightarrow>
                 own_prop merged k =
                   (if k \<in> fst ` set (own_props persistedState)
                    then own_prop (JObj (own_props persistedState)) k
                    else own_prop defaultState k)))"
  using assms by (rule hydrate_overlay)

theorem hydrate_merge_witness:
  "is_obj initialState \<and> distinct (map fst (own_props tampered_blob)) \<and>
   (\<exists>merged. hydrate initialState tampered_blob = Inr merged \<and>
      own_prop merged ''userRoles'' = userRoles \<and>
      own_prop merged ''quickPrompts'' = quickPrompts \<and>
      own_prop merged ''theme'' = JStr ''dark'' \<and>
      own_prop merged ''extra'' = JNum 1 \<and>
      own_prop merged ''sidebarOpen'' = JBool True)"
proof -
  have d: "distinct (map fst (own_props tampered_blob))" by (simp add: tampered_blob_def)
  have keys: "fst ` set (own_props tampered_blob) = {''theme'', ''userRoles'', ''extra''}"
    by (auto simp: tampered_blob_def)
  have p: "own_prop (JObj (own_props tampered_blob)) ''theme'' = JStr ''dark''"
    "own_prop (JObj (own_props tampered_blob)) ''extra'' = JNum 1"
    by (simp_all add: tampered_blob_def)
  have i: "own_prop initialState ''userRoles'' = userRoles"
    "own_prop initialState ''quickPrompts'' = quickPrompts"
    "own_prop initialState ''sidebarOpen'' = JBool True"
    by (simp_all add: initialState_def)
  from hydrate_merge [OF is_obj_initialState, of tampered_blob]
  obtain merged where r: "hydrate initialState tampered_blob = Inr merged"
    "own_prop merged ''userRoles'' = own_prop initialState ''userRoles''"
    "own_prop merged ''quickPrompts'' = own_prop initialState ''quickPrompts''"
    "\<forall>k. k \<noteq> ''userRoles'' \<and> k \<noteq> ''quickPrompts'' \<longrightarrow>
                 own_prop merged k =
                   (if k \<in> fst ` set (own_props tampered_blob)
                    then own_prop (JObj (own_props tampered_blob)) k
                    else own_prop initialState k)"
    using d by blast
  have "own_prop merged ''theme'' = JStr ''dark''"
    using r(4) [rule_format, of "''theme''"] keys p by simp
  moreover have "own_prop merged ''extra'' = JNum 1"
    using r(4) [rule_format, of "''extra''"] keys p by simp
  moreover have "own_prop merged ''sidebarOpen'' = JBool True"
    using r(4) [rule_format, of "''sidebarOpen''"] keys i by simp
  ultimately show ?thesis using is_obj_initialState d r(1,2,3) i by auto
qed

subsection \<open>Loading from the store\<close>

lemma isLocalStorageAvailable_ok:
  "available st \<Longrightarrow> isLocalStorageAvailable st = (True, probed st)"
  by (simp add: available_def isLocalStorageAvailable_def setItem_def removeItem_def probed_def Let_def)

lemma isLocalStorageAvailable_fst:
  "fst (isLocalStorageAvailable st) = available st"
  by (auto simp: available_def isLocalStorageAvailable_def setItem_def removeItem_def Let_def
      split: option.splits)

lemma probed_items: "k \<noteq> ''__localStorage_test__'' \<Longrightarrow> items (probed st) k = items st k"
  by (simp add: probed_def)

lemma probed_denied [simp]: "denied (probed st) = denied st"
  by (simp add: probed_def)

lemma probed_write_error [simp]: "write_error (probed st) = write_error st"
  by (simp add: probed_def)

lemma STORAGE_KEY_not_test: "STORAGE_KEY \<noteq> ''__localStorage_test__''"
  by (simp add: STORAGE_KEY_def)

lemma load_stored_bad:
  assumes "(\<exists>e. JSON_parse t = Inl e) \<or>
           (\<exists>v. JSON_parse t = Inr v \<and> (typeof v \<noteq> ''object'' \<or> v = JNull))"
  shows "\<exists>e. load_stored d t = Inl e"
  using assms by (auto simp: load_stored_def)

lemma isLocalStorageAvailable_failed:
  "\<not> available st \<Longrightarrow> fst (isLocalStorageAvailable st) = False \<and>
     items (snd (isLocalStorageAvailable st)) = items st"
  by (auto simp: available_def isLocalStorageAvailable_def setItem_def removeItem_def Let_def
      split: option.splits)

lemma getItem_probed:
  assumes "available st"
  shows "getItem STORAGE_KEY (probed st)
           = (Inr (items st STORAGE_KEY),
              (probed st)\<lparr>calls := calls (probed st) @ [GetItem STORAGE_KEY]\<rparr>)"
  using assms probed_items [OF STORAGE_KEY_not_test, of st]
  by (simp add: getItem_def available_def Let_def)

lemma initialize_removes:
  assumes "available st" and "items st STORAGE_KEY = Some t" and "text_truthy t"
    and "load_stored defaultState t = Inl e"
  shows "fst (initializeStateFromStorage defaultState st) = defaultState \<and>
         items (snd (initializeStateFromStorage defaultState st)) STORAGE_KEY = None"
proof -
  have "initializeStateFromStorage defaultState st
        = (defaultState, snd (removeItem STORAGE_KEY
             ((probed st)\<lparr>calls := calls (probed st) @ [GetItem STORAGE_KEY]\<rparr>)))"
    unfolding initializeStateFromStorage_def isLocalStorageAvailable_ok [OF assms(1)]
    using getItem_probed [OF assms(1)] assms(2,3,4) by simp
  then show ?thesis
    using assms(1) by (simp add: removeItem_def available_def Let_def)
qed

lemma initialize_skips_empty:
  assumes "available st" and "items st STORAGE_KEY = Some t" and "\<not> text_truthy t"
  shows "fst (initializeStateFromStorage defaultState st) = defaultState \<and>
         items (snd (initializeStateFromStorage defaultState st)) STORAGE_KEY = Some t"
proof -
  have "initializeStateFromStorage defaultState st
        = (defaultState, (probed st)\<lparr>calls := calls (probed st) @ [GetItem STORAGE_KEY]\<rparr>)"
    unfolding initializeStateFromStorage_def isLocalStorageAvailable_ok [OF assms(1)]
    using getItem_probed [OF assms(1)] assms(2,3) by simp
  then show ?thesis
    using assms(2) probed_items [OF STORAGE_KEY_not_test, of st] by simp
qed

lemma initialize_loads:
  assumes "available st" and "items st STORAGE_KEY = Some t" and "text_truthy t"
    and "load_stored defaultState t = Inr h"
  shows "fst (initializeStateFromStorage defaultState st) = h \<and>
         items (snd (initializeStateFromStorage defaultState st)) STORAGE_KEY = Some t"
proof -
  have "initializeStateFromStorage defaultState st
        = (h, (probed st)\<lparr>calls := calls (probed st) @ [GetItem STORAGE_KEY]\<rparr>)"
    unfolding initializeStateFromStorage_def isLocalStorageAvailable_ok [OF assms(1)]
    using getItem_probed [OF assms(1)] assms(2,3,4) by simp
  then show ?thesis
    using assms(2) probed_items [OF STORAGE_KEY_not_test, of st] by simp
qed

lemma initialize_unavailable:
  assumes "\<not> available st"
  shows "fst (initializeStateFromStorage defaultState st) = defaultState \<and>
         items (snd (initializeStateFromStorage defaultState st)) = items st"
  using isLocalStorageAvailable_failed [OF assms]
  by (cases "isLocalStorageAvailable st") (simp add: initializeStateFromStorage_def)

lemma load_stored_object:
  assumes "JSON_parse t = Inr v" and "typeof v = ''object''" and "v \<noteq> JNull"
  shows "load_stored d t = hydrate d v"
  using assms by (simp add: load_stored_def)

lemma hydrate_literal:
  assumes "is_obj d"
  shows "hydrate d v =
     Inr (obj_literal [Spread d, Spread v,
            Field ''userRoles'' (own_prop d ''userRoles''),
            Field ''quickPrompts'' (own_prop d ''quickPrompts'')])"
proof -
  obtain kvs where d: "d = JObj kvs" using assms by (auto elim: is_objE)
  show ?thesis unfolding d hydrate_def by simp
qed

lemma number_toString_0: "number_toString 0 = ''0''"
  by code_simp

lemma hydrate_singleton:
  "own_prop (obj_literal [Spread initialState, Spread (JArr [x]),
               Field ''userRoles'' (own_prop initialState ''userRoles''),
               Field ''quickPrompts'' (own_prop initialState ''quickPrompts'')]) ''0'' = x"
  using obj_literal_spread [OF is_obj_initialState]
  by (simp add: number_toString_0)

lemma initialState_no_index: "own_prop initialState ''0'' = JUndefined"
  by (simp add: initialState_def)

lemma available_working_store: "available (working_store kvs)"
  by (simp add: available_def working_store_def)

lemma not_available_full_store: "\<not> available (full_store kvs)"
  by (simp add: available_def full_store_def)

lemma items_working_store: "items (working_store [(k, t)]) k = Some t"
  by (simp add: working_store_def)

lemma items_full_store: "items (full_store [(k, t)]) k = Some t"
  by (simp add: full_store_def)

text \<open>
  C4, as amended. When the store is available and the fixed key holds a string that is
  not empty and that \<open>JSON.parse\<close> rejects, or that parses to a scalar or to
  \<open>null\<close>, \<open>initializeStateFromStorage\<close> returns exactly the default state it was
  given and the key is no longer in the store afterwards. The empty string, the only
  string that is falsy, gives the default state as well and stays under the key. A
  string that parses to an array or to an object passes the validation: for a default
  state that is an object, the function returns the merge
  \<open>{...defaultState, ...parsedState, userRoles, quickPrompts}\<close> and the key keeps the
  string. When the probe of the store fails, the default state is returned and the
  content of the store is what it was. The function returns a state for every store: no
  exception leaves it.
\<close>

theorem initialize_recovers_from_bad_string:
  "(available st \<and> items st STORAGE_KEY = Some t \<and> text_truthy t \<and>
      ((\<exists>e. JSON_parse t = Inl e) \<or>
       (\<exists>v. JSON_parse t = Inr v \<and> (typeof v \<noteq> ''object'' \<or> v = JNull))) \<longrightarrow>
      fst (initializeStateFromStorage defaultState st) = defaultState \<and>
      items (snd (initializeStateFromStorage defaultState st)) STORAGE_KEY = None) \<and>
   (available st \<and> items st STORAGE_KEY = Some t \<and> \<not> text_truthy t \<longrightarrow>
      t = Malformed [] \<and>
      fst (initializeStateFromStorage defaultState st) = defaultState \<and>
      items (snd (initializeStateFromStorage defaultState st)) STORAGE_KEY = Some t) \<and>
   (available st \<and> items st STORAGE_KEY = Some t \<and> text_truthy t \<and>
      JSON_parse t = Inr v \<and> typeof v = ''object'' \<and> v \<noteq> JNull \<and> is_obj defaultState \<longrightarrow>
      hydrate defaultState v =
        Inr (obj_literal [Spread defaultState, Spread v,
               Field ''userRoles'' (own_prop defaultState ''userRoles''),
               Field ''quickPrompts'' (own_prop defaultState ''quickPrompts'')]) \<and>
      fst (initializeStateFromStorage defaultState st) =
        obj_literal [Spread defaultState, Spread v,
          Field ''userRoles'' (own_prop defaultState ''userRoles''),
          Field ''quickPrompts'' (own_prop defaultState ''quickPrompts'')] \<and>
      items (snd (initializeStateFromStorage defaultState st)) STORAGE_KEY = Some t) \<and>
   (\<not> available st \<longrightarrow>
      fst (initializeStateFromStorage defaultState st) = defaultState \<and>
      items (snd (initializeStateFromStorage defaultState st)) = items st)"
proof (intro conjI impI)
  assume a: "available st \<and> items st STORAGE_KEY = Some t \<and> text_truthy t \<and>
      ((\<exists>e. JSON_parse t = Inl e) \<or>
       (\<exists>v. JSON_parse t = Inr v \<and> (typeof v \<noteq> ''object'' \<or> v = JNull)))"
  then obtain e where e: "load_stored defaultState t = Inl e"
    using load_stored_bad [of t defaultState] by blast
  from a e initialize_removes [of st t defaultState e]
  show "fst (initializeStateFromStorage defaultState st) = defaultState"
    and "items (snd (initializeStateFromStorage defaultState st)) STORAGE_KEY = None"
    by simp_all
next
  assume a: "available st \<and> items st STORAGE_KEY = Some t \<and> \<not> text_truthy t"
  then show "t = Malformed []" by (cases t) simp_all
  from a initialize_skips_empty [of st t defaultState]
  show "fst (initializeStateFromStorage defaultState st) = defaultState"
    and "items (snd (initializeStateFromStorage defaultState st)) STORAGE_KEY = Some t"
    by simp_all
next
  assume a: "available st \<and> items st STORAGE_KEY = Some t \<and> text_truthy t \<and>
      JSON_parse t = Inr v \<and> typeof v = ''object'' \<and> v \<noteq> JNull \<and> is_obj defaultState"
  let ?h = "obj_literal [Spread defaultState, Spread v,
               Field ''userRoles'' (own_prop defaultState ''userRoles''),
               Field ''quickPrompts'' (own_prop defaultState ''quickPrompts'')]"
  from a show h: "hydrate defaultState v = Inr ?h"
    by (simp add: hydrate_literal)
  from a have l: "load_stored defaultState t = Inr ?h"
    using load_stored_object [of t v defaultState] h by simp
  from a l initialize_loads [of st t defaultState ?h]
  show "fst (initializeStateFromStorage defaultState st) = ?h"
    and "items (snd (initializeStateFromStorage defaultState st)) STORAGE_KEY = Some t"
    by simp_all
next
  assume a: "\<not> available st"
  from initialize_unavailable [OF a, of defaultState]
  show "fst (initializeStateFromStorage defaultState st) = defaultState"
    and "items (snd (initializeStateFromStorage defaultState st)) = items st"
    by simp_all
qed

theorem initialize_recovers_from_bad_string_witness:
  "available (working_store [(STORAGE_KEY, Malformed ''not json'')]) \<and>
   items (working_store [(STORAGE_KEY, Malformed ''not json'')]) STORAGE_KEY = Some (Malformed ''not json'') \<and>
   text_truthy (Malformed ''not json'') \<and>
   JSON_parse (Malformed ''not json'') = Inl (SyntaxError ''Unexpected token in JSON: not json'') \<and>
   fst (initializeStateFromStorage initialState (working_store [(STORAGE_KEY, Malformed ''not json'')]))
     = initialState \<and>
   items (snd (initializeStateFromStorage initialState
                 (working_store [(STORAGE_KEY, Malformed ''not json'')]))) STORAGE_KEY = None \<and>
   available (working_store [(STORAGE_KEY, JsonText (JNum 42))]) \<and>
   JSON_parse (JsonText (JNum 42)) = Inr (JNum 42) \<and>
   typeof (JNum 42) = ''number'' \<and>
   fst (initializeStateFromStorage initialState (working_store [(STORAGE_KEY, JsonText (JNum 42))]))
     = initialState \<and>
   items (snd (initializeStateFromStorage initialState
                 (working_store [(STORAGE_KEY, JsonText (JNum 42))]))) STORAGE_KEY = None \<and>
   available (working_store [(STORAGE_KEY, Malformed [])]) \<and>
   \<not> text_truthy (Malformed []) \<and>
   fst (initializeStateFromStorage initialState (working_store [(STORAGE_KEY, Malformed [])]))
     = initialState \<and>
   items (snd (initializeStateFromStorage initialState
                 (working_store [(STORAGE_KEY, Malformed [])]))) STORAGE_KEY = Some (Malformed []) \<and>
   available (working_store [(STORAGE_KEY, JsonText (JArr [JNum 1]))]) \<and>
   text_truthy (JsonText (JArr [JNum 1])) \<and>
   JSON_parse (JsonText (JArr [JNum 1])) = Inr (JArr [JNum 1]) \<and>
   typeof (JArr [JNum 1]) = ''object'' \<and>
   is_obj initialState \<and>
   fst (initializeStateFromStorage initialState (working_store [(STORAGE_KEY, JsonText (JArr [JNum 1]))]))
     = obj_literal [Spread initialState, Spread (JArr [JNum 1]),
         Field ''userRoles'' (own_prop initialState ''userRoles''),
         Field ''quickPrompts'' (own_prop initialState ''quickPrompts'')] \<and>
   items (snd (initializeStateFromStorage initialState
                 (working_store [(STORAGE_KEY, JsonText (JArr [JNum 1]))]))) STORAGE_KEY
     = Some (JsonText (JArr [JNum 1])) \<and>
   \<not> available (full_store [(STORAGE_KEY, Malformed ''not json'')]) \<and>
   fst (initializeStateFromStorage initialState (full_store [(STORAGE_KEY, Malformed ''not json'')]))
     = initialState \<and>
   items (snd (initializeStateFromStorage initialState (full_store [(STORAGE_KEY, Malformed ''not json'')])))
     = items (full_store [(STORAGE_KEY, Malformed ''not json'')])"
proof -
  let ?st = "working_store [(STORAGE_KEY, Malformed ''not json'')]"
  let ?st2 = "working_store [(STORAGE_KEY, JsonText (JNum 42))]"
  let ?st3 = "working_store [(STORAGE_KEY, Malformed [])]"
  let ?st4 = "working_store [(STORAGE_KEY, JsonText (JArr [JNum 1]))]"
  let ?st5 = "full_store [(STORAGE_KEY, Malformed ''not json'')]"
  have a: "available ?st \<and> items ?st STORAGE_KEY = Some (Malformed ''not json'') \<and>
      text_truthy (Malformed ''not json'') \<and>
      ((\<exists>e. JSON_parse (Malformed ''not json'') = Inl e) \<or>
       (\<exists>v. JSON_parse (Malformed ''not json'') = Inr v \<and> (typeof v \<noteq> ''object'' \<or> v = JNull)))"
    by (simp add: available_working_store items_working_store)
  have b: "available ?st2 \<and> items ?st2 STORAGE_KEY = Some (JsonText (JNum 42)) \<and>
      text_truthy (JsonText (JNum 42)) \<and>
      ((\<exists>e. JSON_parse (JsonText (JNum 42)) = Inl e) \<or>
       (\<exists>v. JSON_parse (JsonText (JNum 42)) = Inr v \<and> (typeof v \<noteq> ''object'' \<or> v = JNull)))"
    by (simp add: available_working_store items_working_store)
  have c: "available ?st3 \<and> items ?st3 STORAGE_KEY = Some (Malformed []) \<and>
      \<not> text_truthy (Malformed [])"
    by (simp add: available_working_store items_working_store)
  have d: "available ?st4 \<and> items ?st4 STORAGE_KEY = Some (JsonText (JArr [JNum 1])) \<and>
      text_truthy (JsonText (JArr [JNum 1])) \<and>
      JSON_parse (JsonText (JArr [JNum 1])) = Inr (JArr [JNum 1]) \<and>
      typeof (JArr [JNum 1]) = ''object'' \<and> JArr [JNum 1] \<noteq> JNull \<and> is_obj initialState"
    by (simp add: available_working_store items_working_store is_obj_initialState)
  have e: "\<not> available ?st5"
    by (rule not_available_full_store)
  note t1 = initialize_recovers_from_bad_string
      [of ?st "Malformed ''not json''" initialState, THEN conjunct1, rule_format, OF a]
  note t2 = initialize_recovers_from_bad_string
      [of ?st2 "JsonText (JNum 42)" initialState, THEN conjunct1, rule_format, OF b]
  note t3 = initialize_recovers_from_bad_string
      [of ?st3 "Malformed []" initialState, THEN conjunct2, THEN conjunct1, rule_format, OF c]
  note t4 = initialize_recovers_from_bad_string
      [of ?st4 "JsonText (JArr [JNum 1])" initialState "JArr [JNum 1]",
        THEN conjunct2, THEN conjunct2, THEN conjunct1, rule_format, OF d]
  note t5 = initialize_recovers_from_bad_string
      [of ?st5 _ initialState, THEN conjunct2, THEN conjunct2, THEN conjunct2, rule_format, OF e]
  show ?thesis
    using a b c d e t1 t2 t3 t4 t5 by simp
qed

text \<open>
  The claim C4 as stated fails for the empty string, which is not valid JSON: the test
  \<open>if (storedState)\<close> takes it for an absent entry, the default state is returned and
  the key keeps the empty string. It fails when the probe of the store fails, as it does
  on a store that is full: the default state is returned, but the bad string is never
  read and stays in place. And it fails for a stored array, which \<open>typeof\<close> calls an
  object: the array \<open>[1]\<close> is merged into the default state, which gains the property
  \<open>0\<close>, and the key keeps the string.
\<close>

theorem initialize_keeps_empty_string:
  "JSON_parse (Malformed '''') = Inl (SyntaxError ''Unexpected token in JSON: '') \<and>
   available (working_store [(STORAGE_KEY, Malformed '''')]) \<and>
   fst (initializeStateFromStorage initialState (working_store [(STORAGE_KEY, Malformed '''')]))
     = initialState \<and>
   items (snd (initializeStateFromStorage initialState (working_store [(STORAGE_KEY, Malformed '''')])))
     STORAGE_KEY = Some (Malformed '''') \<and>
   JSON_parse (Malformed ''not json'') = Inl (SyntaxError ''Unexpected token in JSON: not json'') \<and>
   fst (initializeStateFromStorage initialState (full_store [(STORAGE_KEY, Malformed ''not json'')]))
     = initialState \<and>
   items (snd (initializeStateFromStorage initialState (full_store [(STORAGE_KEY, Malformed ''not json'')])))
     STORAGE_KEY = Some (Malformed ''not json'') \<and>
   JSON_parse (JsonText (JArr [JNum 1])) = Inr (JArr [JNum 1]) \<and>
   is_arr (JArr [JNum 1]) \<and>
   available (working_store [(STORAGE_KEY, JsonText (JArr [JNum 1]))]) \<and>
   own_prop (fst (initializeStateFromStorage initialState
                    (working_store [(STORAGE_KEY, JsonText (JArr [JNum 1]))]))) ''0'' = JNum 1 \<and>
   own_prop initialState ''0'' = JUndefined \<and>
   fst (initializeStateFromStorage initialState
          (working_store [(STORAGE_KEY, JsonText (JArr [JNum 1]))])) \<noteq> initialState \<and>
   items (snd (initializeStateFromStorage initialState
                 (working_store [(STORAGE_KEY, JsonText (JArr [JNum 1]))]))) STORAGE_KEY
     = Some (JsonText (JArr [JNum 1]))"
proof -
  let ?st = "working_store [(STORAGE_KEY, Malformed '''')]"
  let ?st4 = "working_store [(STORAGE_KEY, JsonText (JArr [JNum 1]))]"
  let ?st5 = "full_store [(STORAGE_KEY, Malformed ''not json'')]"
  let ?h = "obj_literal [Spread initialState, Spread (JArr [JNum 1]),
               Field ''userRoles'' (own_prop initialState ''userRoles''),
               Field ''quickPrompts'' (own_prop initialState ''quickPrompts'')]"
  have 1: "fst (initializeStateFromStorage initialState ?st) = initialState \<and>
           items (snd (initializeStateFromStorage initialState ?st)) STORAGE_KEY = Some (Malformed '''')"
    by (rule initialize_skips_empty [OF available_working_store items_working_store]) simp
  have 2: "fst (initializeStateFromStorage initialState ?st5) = initialState \<and>
           items (snd (initializeStateFromStorage initialState ?st5)) = items ?st5"
    by (rule initialize_unavailable [OF not_available_full_store])
  have h: "hydrate initialState (JArr [JNum 1]) = Inr ?h"
    by (rule hydrate_literal [OF is_obj_initialState])
  have l: "load_stored initialState (JsonText (JArr [JNum 1])) = Inr ?h"
    using h by (simp add: load_stored_def)
  have 3: "fst (initializeStateFromStorage initialState ?st4) = ?h \<and>
           items (snd (initializeStateFromStorage initialState ?st4)) STORAGE_KEY
             = Some (JsonText (JArr [JNum 1]))"
    by (rule initialize_loads [OF available_working_store items_working_store _ l]) simp
  have 4: "own_prop ?h ''0'' = JNum 1"
    by (rule hydrate_singleton)
  have 5: "?h \<noteq> initialState"
    using 4 initialState_no_index by auto
  show ?thesis
    using 1 2 3 4 5 initialState_no_index
    by (simp add: available_working_store items_full_store)
qed

subsection \<open>Saving to the store\<close>

lemma read_stateToStore_in_retry:
  "read_var retry_scope ''stateToStore'' v = Inl (ReferenceError ''stateToStore is not defined'')"
  by (simp add: read_var_def retry_scope_def)

lemma save_after_quota_error:
  assumes "available st"
    and "write_error st (items (probed st)) STORAGE_KEY (to_stored (JSON_stringify state)) = Some e"
    and "err_name e = ''QuotaExceededError''"
  shows "calls (saveStateToStorage state st)
           = calls st @ [SetItem ''__localStorage_test__'' (Malformed ''test''),
                         RemoveItem ''__localStorage_test__'',
                         SetItem STORAGE_KEY (to_stored (JSON_stringify state)),
                         RemoveItem ''ireno-theme'']"
    and "items (saveStateToStorage state st)
           = (items st)(''__localStorage_test__'' := None, ''ireno-theme'' := None)"
proof -
  have s: "setItem STORAGE_KEY (to_stored (JSON_stringify state)) (probed st)
     = (Inl e, (probed st)\<lparr>calls := calls (probed st) @ [SetItem STORAGE_KEY (to_stored (JSON_stringify state))]\<rparr>)"
    using assms(1,2) by (simp add: setItem_def available_def Let_def)
  have r: "removeItem ''ireno-theme'' ((probed st)\<lparr>calls := calls (probed st) @ [SetItem STORAGE_KEY (to_stored (JSON_stringify state))]\<rparr>)
     = (Inr (), (probed st)\<lparr>calls := calls (probed st) @ [SetItem STORAGE_KEY (to_stored (JSON_stringify state))] @ [RemoveItem ''ireno-theme''],
                   items := (items (probed st))(''ireno-theme'' := None)\<rparr>)"
    using assms(1) by (simp add: removeItem_def available_def Let_def)
  have e: "saveStateToStorage state st
     = (probed st)\<lparr>calls := calls (probed st) @ [SetItem STORAGE_KEY (to_stored (JSON_stringify state))] @ [RemoveItem ''ireno-theme''],
                   items := (items (probed st))(''ireno-theme'' := None)\<rparr>"
    unfolding saveStateToStorage_def isLocalStorageAvailable_ok [OF assms(1)]
    using s r assms(3) by (simp add: Let_def read_stateToStore_in_retry)
  show "calls (saveStateToStorage state st)
           = calls st @ [SetItem ''__localStorage_test__'' (Malformed ''test''),
                         RemoveItem ''__localStorage_test__'',
                         SetItem STORAGE_KEY (to_stored (JSON_stringify state)),
                         RemoveItem ''ireno-theme'']"
    unfolding e by (simp add: probed_def)
  show "items (saveStateToStorage state st)
           = (items st)(''__localStorage_test__'' := None, ''ireno-theme'' := None)"
    unfolding e by (simp add: probed_def)
qed

lemma stringify_cleared_state: "to_stored (JSON_stringify cleared_state) = JsonText cleared_state"
  by (simp add: JSON_stringify_def cleared_state_def)

text \<open>
  C7. The write of the state fails with a \<open>QuotaExceededError\<close> as long as the legacy
  key \<open>ireno-theme\<close> is in the store. \<open>saveStateToStorage\<close> removes the legacy key,
  after which the write would succeed, but it makes no second call of \<open>setItem\<close>: the
  state is not stored. Reading \<open>stateToStore\<close> in the \<open>catch\<close> block throws a
  ReferenceError before the call, and the inner \<open>catch\<close> swallows it.
\<close>

theorem save_retry_makes_no_second_write:
  "write_error legacy_store (items (probed legacy_store)) STORAGE_KEY (JsonText cleared_state)
     = Some (JsError ''QuotaExceededError'' ''The quota has been exceeded'') \<and>
   calls (saveStateToStorage cleared_state legacy_store)
     = [SetItem ''__localStorage_test__'' (Malformed ''test''),
        RemoveItem ''__localStorage_test__'',
        SetItem STORAGE_KEY (JsonText cleared_state),
        RemoveItem ''ireno-theme''] \<and>
   items (saveStateToStorage cleared_state legacy_store) ''ireno-theme'' = None \<and>
   items (saveStateToStorage cleared_state legacy_store) STORAGE_KEY = None \<and>
   write_error legacy_store (items (saveStateToStorage cleared_state legacy_store)) STORAGE_KEY
     (JsonText cleared_state) = None"
proof -
  have a: "available legacy_store" by (simp add: available_def legacy_store_def STORAGE_KEY_def)
  have w: "write_error legacy_store (items (probed legacy_store)) STORAGE_KEY
             (to_stored (JSON_stringify cleared_state))
           = Some (JsError ''QuotaExceededError'' ''The quota has been exceeded'')"
    by (simp add: legacy_store_def probed_def STORAGE_KEY_def)
  have n: "err_name (JsError ''QuotaExceededError'' ''The quota has been exceeded'') = ''QuotaExceededError''"
    by simp
  note r = save_after_quota_error [OF a w n]
  have i: "items (saveStateToStorage cleared_state legacy_store) = Map.empty"
    unfolding r(2) by (simp add: legacy_store_def)
  show ?thesis
    using w r(1) unfolding i stringify_cleared_state
    by (simp add: legacy_store_def STORAGE_KEY_def)
qed

subsection \<open>Saving and loading again\<close>

lemma to_json_plain:
  "json_data v \<longrightarrow> to_json v = Some v"
  "json_data_elems xs \<longrightarrow> to_json_elems xs = xs"
  "json_data_props kvs \<longrightarrow> to_json_props kvs = kvs"
  by (induction v and xs and kvs rule: to_json_to_json_elems_to_json_props.induct) auto

lemma keys_to_json_props: "fst ` set (to_json_props kvs) \<subseteq> fst ` set kvs"
  by (induction kvs) (auto split: option.splits)

lemma distinct_to_json_props:
  "distinct (map fst kvs) \<Longrightarrow> distinct (map fst (to_json_props kvs))"
proof (induction kvs)
  case Nil
  then show ?case by simp
next
  case (Cons kv kvs)
  have "fst kv \<notin> fst ` set (to_json_props kvs)"
    using Cons.prems keys_to_json_props [of kvs] by auto
  then show ?case using Cons by (auto split: option.splits)
qed

lemma map_of_to_json_props:
  "distinct (map fst kvs) \<Longrightarrow>
   map_of (to_json_props kvs) k = (case map_of kvs k of None \<Rightarrow> None | Some v \<Rightarrow> to_json v)"
proof (induction kvs)
  case Nil
  then show ?case by simp
next
  case (Cons kv kvs)
  obtain k' v where kv: "kv = (k', v)" by (cases kv)
  have d: "distinct (map fst kvs)" and fresh: "k' \<notin> fst ` set kvs"
    using Cons.prems kv by auto
  have none: "map_of (to_json_props kvs) k' = None"
    using fresh keys_to_json_props [of kvs] by (auto simp: map_of_eq_None_iff)
  show ?case
    using Cons.IH [OF d] none kv by (auto split: option.splits)
qed

lemma own_prop_to_json_props:
  assumes "distinct (map fst kvs)"
  shows "(if k \<in> fst ` set (to_json_props kvs) then own_prop (JObj (to_json_props kvs)) k else dflt)
         = (case to_json (own_prop (JObj kvs) k) of Some j \<Rightarrow> j | None \<Rightarrow> dflt)"
proof (cases "map_of kvs k")
  case None
  then have "k \<notin> fst ` set kvs" by (simp add: map_of_eq_None_iff)
  then have "k \<notin> fst ` set (to_json_props kvs)" using keys_to_json_props [of kvs] by auto
  then show ?thesis using None by (simp add: own_prop_map_of)
next
  case (Some v)
  note m = map_of_to_json_props [OF assms, of k, unfolded Some, simplified]
  show ?thesis
  proof (cases "to_json v")
    case None
    then have "map_of (to_json_props kvs) k = None" using m by simp
    then have "k \<notin> fst ` set (to_json_props kvs)" by (simp add: map_of_eq_None_iff)
    then show ?thesis using Some None by (simp add: own_prop_map_of)
  next
    case (Some j)
    then have mj: "map_of (to_json_props kvs) k = Some j" using m by simp
    then have "k \<in> fst ` set (to_json_props kvs)"
      by (metis map_of_eq_None_iff option.distinct(1))
    then show ?thesis using \<open>map_of kvs k = Some v\<close> Some mj by (simp add: own_prop_map_of)
  qed
qed

lemma reload_obj:
  assumes d: "is_obj defaultState" and s: "is_obj S"
  shows "\<exists>R. load_stored defaultState (to_stored (JSON_stringify S)) = Inr R \<and>
           own_prop R ''userRoles'' = own_prop defaultState ''userRoles'' \<and>
           own_prop R ''quickPrompts'' = own_prop defaultState ''quickPrompts'' \<and>
           (\<forall>k. k \<noteq> ''userRoles'' \<and> k \<noteq> ''quickPrompts'' \<longrightarrow>
              own_prop R k = (case to_json (own_prop S k) of
                                Some j \<Rightarrow> j | None \<Rightarrow> own_prop defaultState k))"
proof -
  obtain kvs where S: "S = JObj kvs" and dk: "distinct (map fst kvs)"
    using s by (auto elim: is_objE)
  let ?p = "JObj (to_json_props kvs)"
  have dp: "distinct (map fst (own_props ?p))" using distinct_to_json_props [OF dk] by simp
  have l: "load_stored defaultState (to_stored (JSON_stringify S)) = hydrate defaultState ?p"
    unfolding S by (simp add: load_stored_def JSON_stringify_def)
  from hydrate_overlay [OF d, of ?p]
  obtain R where r: "hydrate defaultState ?p = Inr R"
    "own_prop R ''userRoles'' = own_prop defaultState ''userRoles''"
    "own_prop R ''quickPrompts'' = own_prop defaultState ''quickPrompts''"
    "\<forall>k. k \<noteq> ''userRoles'' \<and> k \<noteq> ''quickPrompts'' \<longrightarrow>
                 own_prop R k =
                   (if k \<in> fst ` set (own_props ?p)
                    then own_prop (JObj (own_props ?p)) k
                    else own_prop defaultState k)"
    using dp by blast
  have "own_prop R k = (case to_json (own_prop S k) of
                                Some j \<Rightarrow> j | None \<Rightarrow> own_prop defaultState k)"
    if "k \<noteq> ''userRoles'' \<and> k \<noteq> ''quickPrompts''" for k
  proof -
    have "own_prop R k = (if k \<in> fst ` set (to_json_props kvs)
                          then own_prop (JObj (to_json_props kvs)) k
                          else own_prop defaultState k)"
      using r(4) [rule_format, OF that] by simp
    also have "\<dots> = (case to_json (own_prop (JObj kvs) k) of
                                Some j \<Rightarrow> j | None \<Rightarrow> own_prop defaultState k)"
      by (rule own_prop_to_json_props [OF dk])
    finally show ?thesis unfolding S .
  qed
  then show ?thesis using l r(1,2,3) by auto
qed

lemma json_data_catalogs: "json_data userRoles" "json_data quickPrompts"
  by (simp_all add: userRoles_def quickPrompts_def)

lemma to_json_catalogs: "to_json userRoles = Some userRoles" "to_json quickPrompts = Some quickPrompts"
  using json_data_catalogs to_json_plain(1) by blast+

text \<open>
  C1, as amended. Let \<open>S'\<close> be the state reached from an object state by a sequence
  of transitions without \<open>DELETE_CONVERSATION\<close>, \<open>CLEAR_ALL_CONVERSATIONS\<close> and
  \<open>LOGOUT_USER\<close>. Encoding \<open>S'\<close>, decoding the string and merging the result with a
  default state that is an object succeeds; in the merged state \<open>userRoles\<close> and
  \<open>quickPrompts\<close> are those of the default state, and every other field is the JSON
  image of the field of \<open>S'\<close> (its dates written as ISO strings, its \<open>undefined\<close>
  properties left out), or the field of the default state where that of \<open>S'\<close> is
  \<open>undefined\<close>. A field of \<open>S'\<close> that is plain JSON data comes back equal.
\<close>

theorem reload_after_transitions:
  assumes "is_obj defaultState" and "is_obj S"
    and "\<forall>a \<in> set as. type a \<noteq> DELETE_CONVERSATION \<and> type a \<noteq> CLEAR_ALL_CONVERSATIONS \<and>
                          type a \<noteq> LOGOUT_USER"
    and "dispatch_all S as = Inr S'"
  shows "\<exists>R. load_stored defaultState (to_stored (JSON_stringify S')) = Inr R \<and>
           own_prop R ''userRoles'' = own_prop defaultState ''userRoles'' \<and>
           own_prop R ''quickPrompts'' = own_prop defaultState ''quickPrompts'' \<and>
           (\<forall>k. k \<noteq> ''userRoles'' \<and> k \<noteq> ''quickPrompts'' \<longrightarrow>
              own_prop R k = (case to_json (own_prop S' k) of
                                Some j \<Rightarrow> j | None \<Rightarrow> own_prop defaultState k)) \<and>
           (\<forall>k. k \<noteq> ''userRoles'' \<and> k \<noteq> ''quickPrompts'' \<and> json_data (own_prop S' k) \<longrightarrow>
              own_prop R k = own_prop S' k)"
proof -
  have obj: "is_obj S'" by (rule dispatch_all_is_obj [OF assms(2,4)])
  from reload_obj [OF assms(1) obj]
  obtain R where r: "load_stored defaultState (to_stored (JSON_stringify S')) = Inr R"
    "own_prop R ''userRoles'' = own_prop defaultState ''userRoles''"
    "own_prop R ''quickPrompts'' = own_prop defaultState ''quickPrompts''"
    "\<forall>k. k \<noteq> ''userRoles'' \<and> k \<noteq> ''quickPrompts'' \<longrightarrow>
              own_prop R k = (case to_json (own_prop S' k) of
                                Some j \<Rightarrow> j | None \<Rightarrow> own_prop defaultState k)"
    by blast
  have "own_prop R k = own_prop S' k"
    if "k \<noteq> ''userRoles'' \<and> k \<noteq> ''quickPrompts'' \<and> json_data (own_prop S' k)" for k
    using r(4) [rule_format, of k] that to_json_plain(1) [of "own_prop S' k"] by simp
  then show ?thesis using r by blast
qed

theorem reload_after_transitions_witness:
  "is_obj initialState \<and> is_obj two_convs_state \<and>
   type (setTyping True) \<noteq> DELETE_CONVERSATION \<and>
   type (setTyping True) \<noteq> CLEAR_ALL_CONVERSATIONS \<and>
   type (setTyping True) \<noteq> LOGOUT_USER \<and>
   dispatch_all two_convs_state [setTyping True] = Inr typing_state \<and>
   (\<exists>R. load_stored initialState (to_stored (JSON_stringify typing_state)) = Inr R \<and>
      own_prop R ''userRoles'' = userRoles \<and>
      own_prop R ''quickPrompts'' = quickPrompts \<and>
      own_prop R ''isTyping'' = JBool True \<and>
      own_prop R ''conversations'' = JArr [conv_one, conv_two] \<and>
      own_prop R ''activeConversation'' = conv_one \<and>
      own_prop R ''theme'' = JStr ''light'')"
proof -
  have o2: "is_obj two_convs_state" by (rule wf_state_obj [OF wf_two_convs_state])
  have ty: "type (setTyping True) \<noteq> DELETE_CONVERSATION \<and>
            type (setTyping True) \<noteq> CLEAR_ALL_CONVERSATIONS \<and>
            type (setTyping True) \<noteq> LOGOUT_USER"
    by (simp add: setTyping_def action_type_defs)
  then have tys: "\<forall>a \<in> set [setTyping True]. type a \<noteq> DELETE_CONVERSATION \<and>
      type a \<noteq> CLEAR_ALL_CONVERSATIONS \<and> type a \<noteq> LOGOUT_USER"
    by simp
  have run: "dispatch_all two_convs_state [setTyping True] = Inr typing_state"
    using appReducer_SET_TYPING [OF wf_two_convs_state, of True]
    by (simp add: two_convs_state_def typing_state_def)
  have p: "own_prop typing_state ''isTyping'' = JBool True"
    "own_prop typing_state ''conversations'' = JArr [conv_one, conv_two]"
    "own_prop typing_state ''activeConversation'' = conv_one"
    "own_prop typing_state ''theme'' = JStr ''light''"
    by (simp_all add: typing_state_def)
  have j: "json_data (JBool True)" "json_data (JArr [conv_one, conv_two])" "json_data conv_one"
    "json_data (JStr ''light'')"
    by (simp_all add: conv_one_def conv_two_def)
  have i: "own_prop initialState ''userRoles'' = userRoles"
    "own_prop initialState ''quickPrompts'' = quickPrompts"
    by (simp_all add: initialState_def)
  from reload_after_transitions [OF is_obj_initialState o2 tys run]
  obtain R where r: "load_stored initialState (to_stored (JSON_stringify typing_state)) = Inr R"
    "own_prop R ''userRoles'' = own_prop initialState ''userRoles''"
    "own_prop R ''quickPrompts'' = own_prop initialState ''quickPrompts''"
    "\<forall>k. k \<noteq> ''userRoles'' \<and> k \<noteq> ''quickPrompts'' \<and> json_data (own_prop typing_state k) \<longrightarrow>
              own_prop R k = own_prop typing_state k"
    by blast
  have "own_prop R ''isTyping'' = JBool True"
    using r(4) [rule_format, of "''isTyping''"] p j by simp
  moreover have "own_prop R ''conversations'' = JArr [conv_one, conv_two]"
    using r(4) [rule_format, of "''conversations''"] p j by simp
  moreover have "own_prop R ''activeConversation'' = conv_one"
    using r(4) [rule_format, of "''activeConversation''"] p j by simp
  moreover have "own_prop R ''theme'' = JStr ''light''"
    using r(4) [rule_format, of "''theme''"] p j by simp
  ultimately show ?thesis
    using is_obj_initialState o2 ty run r(1,2,3) i by auto
qed

text \<open>
  The claim C1 as stated fails on the conversations the sidebar creates, whose
  \<open>createdAt\<close> and \<open>updatedAt\<close> are \<open>Date\<close> objects: after \<open>ADD_CONVERSATION\<close>
  on the initial state, the state that is encoded, decoded and merged holds strings in
  their place, and its \<open>conversations\<close> differ from those of the state that was saved.
\<close>

theorem reload_changes_dates:
  "type (addConversation dated_conv) \<noteq> DELETE_CONVERSATION \<and>
   type (addConversation dated_conv) \<noteq> CLEAR_ALL_CONVERSATIONS \<and>
   type (addConversation dated_conv) \<noteq> LOGOUT_USER \<and>
   dispatch_all initialState [addConversation dated_conv] = Inr dated_state \<and>
   load_stored initialState (to_stored (JSON_stringify dated_state)) = Inr reloaded_state \<and>
   own_prop dated_state ''conversations'' = JArr [dated_conv] \<and>
   own_prop reloaded_state ''conversations'' = JArr [dated_conv_json] \<and>
   own_prop dated_conv ''createdAt'' = JDate ''2025-08-24T10:00:00.000Z'' \<and>
   own_prop dated_conv_json ''createdAt'' = JStr ''2025-08-24T10:00:00.000Z'' \<and>
   own_prop reloaded_state ''conversations'' \<noteq> own_prop dated_state ''conversations''"
proof -
  have ty: "type (addConversation dated_conv) = ADD_CONVERSATION"
    by (simp add: addConversation_def)
  have 1: "dispatch_all initialState [addConversation dated_conv] = Inr dated_state"
    using appReducer_ADD_CONVERSATION [OF wf_initialState ty]
    by (simp add: initialState_def dated_state_def addConversation_def)
  have tj: "to_json dated_conv = Some dated_conv_json"
    by (simp add: dated_conv_def dated_conv_json_def)
  have s: "to_stored (JSON_stringify dated_state) = JsonText reloaded_state"
    by (simp add: JSON_stringify_def dated_state_def reloaded_state_def tj to_json_catalogs)
  have 2: "load_stored initialState (JsonText reloaded_state) = Inr reloaded_state"
    unfolding load_stored_def using hydrate_obj [OF is_obj_initialState, of reloaded_state]
    by (simp add: initialState_def reloaded_state_def)
  have 3: "dated_conv_json \<noteq> dated_conv"
    by (simp add: dated_conv_def dated_conv_json_def)
  show ?thesis
    using ty 1 2 3 unfolding s
    by (simp add: action_type_defs dated_state_def reloaded_state_def dated_conv_def dated_conv_json_def)
qed

section \<open>The failure of a chat request\<close>

lemma send_on_failure:
  assumes active: "wf_conv (own_prop s ''activeConversation'')" and obj: "is_obj s"
    and cid: "own_prop (own_prop s ''activeConversation'') ''id'' = cid"
  shows "sendMessageToBackend s (Rejected e) now stamp
           = ([setTyping True,
               addMessage cid (assistant_message now stamp (JStr (connection_trouble @ err_message e))),
               setTyping False], None)"
    and "\<not> response_ok status \<Longrightarrow>
         sendMessageToBackend s (Responded status body) now stamp
           = ([setTyping True,
               addMessage cid (assistant_message now stamp
                 (JStr (connection_trouble @ ''HTTP error! status: '' @ number_toString status))),
               setTyping False], None)"
proof -
  obtain kvs where s: "s = JObj kvs" using obj by (auto elim: is_objE)
  have g: "get_prop (own_prop (JObj kvs) ''activeConversation'') ''id'' = Inr cid"
    using get_prop_wf_conv [OF active] cid unfolding s by simp
  show "sendMessageToBackend s (Rejected e) now stamp
           = ([setTyping True,
               addMessage cid (assistant_message now stamp (JStr (connection_trouble @ err_message e))),
               setTyping False], None)"
    unfolding sendMessageToBackend_def s using g by (simp add: Let_def)
  show "\<not> response_ok status \<Longrightarrow>
         sendMessageToBackend s (Responded status body) now stamp
           = ([setTyping True,
               addMessage cid (assistant_message now stamp
                 (JStr (connection_trouble @ ''HTTP error! status: '' @ number_toString status))),
               setTyping False], None)"
    unfolding sendMessageToBackend_def s using g by (simp add: Let_def Error_def)
qed

lemma dispatch_all_append:
  "dispatch_all s (xs @ ys) = bnd (dispatch_all s xs) (\<lambda>s1. dispatch_all s1 ys)"
proof (induction xs arbitrary: s)
  case Nil
  then show ?case by simp
next
  case (Cons a xs)
  then show ?case by (cases "appReducer s a") (simp_all add: bnd_def)
qed

lemma dispatch_all_wf:
  assumes "wf_state s" and "list_all wf_action as"
  shows "\<exists>s'. dispatch_all s as = Inr s' \<and> wf_state s'"
  using assms
proof (induction as arbitrary: s)
  case Nil
  then show ?case by simp
next
  case (Cons a as)
  from Cons.prems obtain s1 where 1: "appReducer s a = Inr s1" "wf_state s1"
    using appReducer_wf [of s a] by auto
  from Cons.IH [OF 1(2)] Cons.prems(2) obtain s' where "dispatch_all s1 as = Inr s'" "wf_state s'"
    by auto
  then show ?case using 1(1) by simp
qed

lemma message_then_idle:
  assumes wf: "wf_state s"
  shows "\<exists>s' cs'. dispatch_all s [addMessage (JStr t) m, setTyping False] = Inr s' \<and>
           own_prop s' ''isTyping'' = JBool False \<and>
           own_prop s' ''conversations'' = JArr cs' \<and>
           length cs' = length (elems_of (own_prop s ''conversations'')) \<and>
           (\<forall>i < length cs'.
              if own_prop (elems_of (own_prop s ''conversations'') ! i) ''id'' = JStr t
              then own_prop (cs' ! i) ''messages''
                     = JArr (elems_of (own_prop (elems_of (own_prop s ''conversations'') ! i) ''messages'') @ [m]) \<and>
                   (\<forall>k. k \<noteq> ''messages'' \<longrightarrow>
                      own_prop (cs' ! i) k = own_prop (elems_of (own_prop s ''conversations'') ! i) k)
              else cs' ! i = elems_of (own_prop s ''conversations'') ! i) \<and>
           (if opt_get (own_prop s ''activeConversation'') ''id'' = JStr t
            then own_prop (own_prop s' ''activeConversation'') ''messages''
                   = JArr (elems_of (own_prop (own_prop s ''activeConversation'') ''messages'') @ [m]) \<and>
                 (\<forall>k. k \<noteq> ''messages'' \<longrightarrow>
                    own_prop (own_prop s' ''activeConversation'') k
                      = own_prop (own_prop s ''activeConversation'') k)
            else own_prop s' ''activeConversation'' = own_prop s ''activeConversation'')"
proof -
  from add_messages_general [OF wf, of t "[m]"]
  obtain s2 cs' where r:
    "dispatch_all s (map (addMessage (JStr t)) [m]) = Inr s2" "wf_state s2"
    "own_prop s2 ''conversations'' = JArr cs'"
    "length cs' = length (elems_of (own_prop s ''conversations''))"
    "\<forall>i < length cs'.
              if own_prop (elems_of (own_prop s ''conversations'') ! i) ''id'' = JStr t
              then own_prop (cs' ! i) ''messages''
                     = JArr (elems_of (own_prop (elems_of (own_prop s ''conversations'') ! i) ''messages'') @ [m]) \<and>
                   (\<forall>k. k \<noteq> ''messages'' \<longrightarrow>
                      own_prop (cs' ! i) k = own_prop (elems_of (own_prop s ''conversations'') ! i) k)
              else cs' ! i = elems_of (own_prop s ''conversations'') ! i"
    "if opt_get (own_prop s ''activeConversation'') ''id'' = JStr t
            then own_prop (own_prop s2 ''activeConversation'') ''messages''
                   = JArr (elems_of (own_prop (own_prop s ''activeConversation'') ''messages'') @ [m]) \<and>
                 (\<forall>k. k \<noteq> ''messages'' \<longrightarrow>
                    own_prop (own_prop s2 ''activeConversation'') k
                      = own_prop (own_prop s ''activeConversation'') k)
            else own_prop s2 ''activeConversation'' = own_prop s ''activeConversation''"
    by blast
  let ?s3 = "JObj (AList.update ''isTyping'' (JBool False) (own_props s2))"
  have obj2: "is_obj s2" by (rule wf_state_obj [OF r(2)])
  have 2: "appReducer s (addMessage (JStr t) m) = Inr s2"
    using r(1) by (cases "appReducer s (addMessage (JStr t) m)") simp_all
  have 3: "appReducer s2 (setTyping False) = Inr ?s3" by (rule appReducer_SET_TYPING [OF r(2)])
  have c3: "own_prop ?s3 ''conversations'' = own_prop s2 ''conversations''"
    and a3: "own_prop ?s3 ''activeConversation'' = own_prop s2 ''activeConversation''"
    using own_prop_own_props [OF obj2] by simp_all
  show ?thesis
  proof (intro exI [of _ ?s3] exI [of _ cs'] conjI)
    show "dispatch_all s [addMessage (JStr t) m, setTyping False] = Inr ?s3"
      using 2 3 by simp
    show "own_prop ?s3 ''isTyping'' = JBool False" by simp
    show "own_prop ?s3 ''conversations'' = JArr cs'" unfolding c3 by (rule r(3))
    show "length cs' = length (elems_of (own_prop s ''conversations''))" by (rule r(4))
    show "\<forall>i < length cs'.
              if own_prop (elems_of (own_prop s ''conversations'') ! i) ''id'' = JStr t
              then own_prop (cs' ! i) ''messages''
                     = JArr (elems_of (own_prop (elems_of (own_prop s ''conversations'') ! i) ''messages'') @ [m]) \<and>
                   (\<forall>k. k \<noteq> ''messages'' \<longrightarrow>
                      own_prop (cs' ! i) k = own_prop (elems_of (own_prop s ''conversations'') ! i) k)
              else cs' ! i = elems_of (own_prop s ''conversations'') ! i"
      by (rule r(5))
    show "if opt_get (own_prop s ''activeConversation'') ''id'' = JStr t
            then own_prop (own_prop ?s3 ''activeConversation'') ''messages''
                   = JArr (elems_of (own_prop (own_prop s ''activeConversation'') ''messages'') @ [m]) \<and>
                 (\<forall>k. k \<noteq> ''messages'' \<longrightarrow>
                    own_prop (own_prop ?s3 ''activeConversation'') k
                      = own_prop (own_prop s ''activeConversation'') k)
            else own_prop ?s3 ''activeConversation'' = own_prop s ''activeConversation''"
      unfolding a3 by (rule r(6))
  qed
qed

lemma typing_then_between:
  assumes wf: "wf_state s" and btw: "list_all wf_action between"
  shows "\<exists>s2. dispatch_all s (setTyping True # between) = Inr s2 \<and> wf_state s2 \<and>
           (between = [] \<longrightarrow>
              own_prop s2 ''conversations'' = own_prop s ''conversations'' \<and>
              own_prop s2 ''activeConversation'' = own_prop s ''activeConversation'')"
proof -
  let ?s1 = "JObj (AList.update ''isTyping'' (JBool True) (own_props s))"
  have obj: "is_obj s" by (rule wf_state_obj [OF wf])
  have 1: "appReducer s (setTyping True) = Inr ?s1" by (rule appReducer_SET_TYPING [OF wf])
  have wf1: "wf_state ?s1" by (rule wf_state_other_field [OF wf]) simp_all
  have c1: "own_prop ?s1 ''conversations'' = own_prop s ''conversations''"
    and a1: "own_prop ?s1 ''activeConversation'' = own_prop s ''activeConversation''"
    using own_prop_own_props [OF obj] by simp_all
  from dispatch_all_wf [OF wf1 btw]
  obtain s2 where 2: "dispatch_all ?s1 between = Inr s2" "wf_state s2" by blast
  have 3: "between = [] \<Longrightarrow> s2 = ?s1" using 2(1) by simp
  show ?thesis
  proof (intro exI [of _ s2] conjI impI)
    show "dispatch_all s (setTyping True # between) = Inr s2" using 1 2(1) by simp
    show "wf_state s2" by (rule 2(2))
    show "own_prop s2 ''conversations'' = own_prop s ''conversations''" if "between = []"
      using 3 [OF that] c1 by simp
    show "own_prop s2 ''activeConversation'' = own_prop s ''activeConversation''" if "between = []"
      using 3 [OF that] a1 by simp
  qed
qed

lemma unmatched_entries_kept:
  assumes "length cs' = length cs"
    and "\<forall>i < length cs'. if own_prop (cs ! i) ''id'' = JStr t then P i else cs' ! i = cs ! i"
    and "\<forall>c \<in> set cs. own_prop c ''id'' \<noteq> JStr t"
  shows "cs' = cs"
  using assms by (intro nth_equalityI) auto

lemma wf_typing_state: "wf_state typing_state"
  by (simp add: typing_state_def conv_one_def conv_two_def wf_state_def wf_conv_def)

lemma wf_deleted_typing_state: "wf_state deleted_typing_state"
  by (simp add: deleted_typing_state_def conv_two_def wf_state_def wf_conv_def)

lemma typing_then_delete:
  "dispatch_all two_convs_state [setTyping True, deleteConversation (JStr ''1'')]
     = Inr deleted_typing_state"
proof -
  have ty: "type (deleteConversation (JStr ''1'')) = DELETE_CONVERSATION"
    by (simp add: deleteConversation_def)
  have 1: "appReducer two_convs_state (setTyping True) = Inr typing_state"
    unfolding appReducer_SET_TYPING [OF wf_two_convs_state]
    by (simp add: two_convs_state_def typing_state_def)
  have 2: "appReducer typing_state (deleteConversation (JStr ''1'')) = Inr deleted_typing_state"
    unfolding appReducer_DELETE_CONVERSATION [OF wf_typing_state ty]
    by (simp add: typing_state_def conv_one_def conv_two_def deleted_typing_state_def
        deleteConversation_def)
  show ?thesis using 1 2 by simp
qed

lemma message_after_delete:
  "dispatch_all deleted_typing_state [addMessage (JStr ''1'') m, setTyping False] = Inr deleted_state"
proof -
  have ty: "type (addMessage (JStr ''1'') m) = ADD_MESSAGE"
    and pl: "is_obj (payload (addMessage (JStr ''1'') m))"
    and t: "own_prop (payload (addMessage (JStr ''1'') m)) ''conversationId'' = JStr ''1''"
    by (simp_all add: addMessage_def)
  have 1: "appReducer deleted_typing_state (addMessage (JStr ''1'') m) = Inr deleted_typing_state"
    unfolding appReducer_ADD_MESSAGE [OF wf_deleted_typing_state ty pl t]
    by (simp add: deleted_typing_state_def conv_two_def)
  have 2: "appReducer deleted_typing_state (setTyping False) = Inr deleted_state"
    unfolding appReducer_SET_TYPING [OF wf_deleted_typing_state]
    by (simp add: deleted_typing_state_def deleted_state_def)
  show ?thesis using 1 2 by simp
qed

lemma wf_action_deleteConversation: "wf_action (deleteConversation (JStr t))"
  by (simp add: wf_action_def deleteConversation_def action_type_defs)

lemma number_toString_500: "number_toString 500 = ''500''"
  by code_simp

lemma number_toString_1: "number_toString (Suc 0) = ''1''"
  by code_simp

text \<open>
  C8, as amended. \<open>view\<close> is the state that the submitting component rendered, whose
  active conversation has the string identifier \<open>cid\<close>; \<open>s\<close> is the state of the store
  when the request starts and \<open>between\<close> are the actions dispatched while the request is
  awaited. When the request fails, by a rejected \<open>fetch\<close> or by a response whose status
  is not 2xx, \<open>sendMessageToBackend\<close> dispatches \<open>setTyping(true)\<close>, one assistant
  message for \<open>cid\<close> and \<open>setTyping(false)\<close>, and no exception leaves it. The content of
  the message is the sentence of the source about the connection trouble followed by the
  message of the error, which for a response that is not 2xx is
  \<open>HTTP error! status: \<close> and the status. The reducer applies all the actions without
  an exception and leaves \<open>isTyping\<close> false. In the state \<open>s2\<close> reached when the failure
  is handled, the message is appended to every entry of the collection that has the
  identifier \<open>cid\<close> and to the active conversation if it has that identifier; every
  other entry is unchanged. When nothing was dispatched in between, the collection and the
  active conversation of \<open>s2\<close> are those of \<open>s\<close>. When no entry and not the active
  conversation of \<open>s2\<close> has the identifier, the message is appended nowhere.
\<close>

theorem failed_request_becomes_message:
  assumes "is_obj view"
    and "wf_conv (own_prop view ''activeConversation'')"
    and "own_prop (own_prop view ''activeConversation'') ''id'' = JStr cid"
    and "(\<exists>e. outcome = Rejected e) \<or>
         (\<exists>status body. outcome = Responded status body \<and> \<not> response_ok status)"
    and "wf_state s"
    and "list_all wf_action between"
  shows "(let m = JObj [(''id'', JStr (number_toString (now + 1))), (''role'', JStr ''assistant''),
                   (''content'', JStr (''Sorry, I'' @ [CHR 0x27] @
                      ''m having trouble connecting to the server right now. '' @
                      ''Please make sure the backend is running at http://127.0.0.1:5000. Error: '' @
                      (case outcome of
                         Rejected e \<Rightarrow> err_message e
                       | Responded status body \<Rightarrow> ''HTTP error! status: '' @ number_toString status))),
                   (''timestamp'', JDate stamp)]
          in
          sendMessageToBackend view outcome now stamp
            = ([setTyping True, addMessage (JStr cid) m, setTyping False], None) \<and>
          (\<exists>s2 s' cs'.
             dispatch_all s (setTyping True # between) = Inr s2 \<and>
             wf_state s2 \<and>
             (between = [] \<longrightarrow>
                own_prop s2 ''conversations'' = own_prop s ''conversations'' \<and>
                own_prop s2 ''activeConversation'' = own_prop s ''activeConversation'') \<and>
             dispatch_all s (setTyping True # between @ [addMessage (JStr cid) m, setTyping False])
               = Inr s' \<and>
             own_prop s' ''isTyping'' = JBool False \<and>
             own_prop s' ''conversations'' = JArr cs' \<and>
             length cs' = length (elems_of (own_prop s2 ''conversations'')) \<and>
             (\<forall>i < length cs'.
                if own_prop (elems_of (own_prop s2 ''conversations'') ! i) ''id'' = JStr cid
                then own_prop (cs' ! i) ''messages''
                       = JArr (elems_of (own_prop (elems_of (own_prop s2 ''conversations'') ! i) ''messages'')
                               @ [m]) \<and>
                     (\<forall>k. k \<noteq> ''messages'' \<longrightarrow>
                        own_prop (cs' ! i) k = own_prop (elems_of (own_prop s2 ''conversations'') ! i) k)
                else cs' ! i = elems_of (own_prop s2 ''conversations'') ! i) \<and>
             (if opt_get (own_prop s2 ''activeConversation'') ''id'' = JStr cid
              then own_prop (own_prop s' ''activeConversation'') ''messages''
                     = JArr (elems_of (own_prop (own_prop s2 ''activeConversation'') ''messages'') @ [m]) \<and>
                   (\<forall>k. k \<noteq> ''messages'' \<longrightarrow>
                      own_prop (own_prop s' ''activeConversation'') k
                        = own_prop (own_prop s2 ''activeConversation'') k)
              else own_prop s' ''activeConversation'' = own_prop s2 ''activeConversation'') \<and>
             ((\<forall>c \<in> set (elems_of (own_prop s2 ''conversations'')). own_prop c ''id'' \<noteq> JStr cid) \<and>
              opt_get (own_prop s2 ''activeConversation'') ''id'' \<noteq> JStr cid \<longrightarrow>
                own_prop s' ''conversations'' = own_prop s2 ''conversations'' \<and>
                own_prop s' ''activeConversation'' = own_prop s2 ''activeConversation'')))"
proof -
  define m where "m = JObj [(''id'', JStr (number_toString (now + 1))), (''role'', JStr ''assistant''),
                   (''content'', JStr (''Sorry, I'' @ [CHR 0x27] @
                      ''m having trouble connecting to the server right now. '' @
                      ''Please make sure the backend is running at http://127.0.0.1:5000. Error: '' @
                      (case outcome of
                         Rejected e \<Rightarrow> err_message e
                       | Responded status body \<Rightarrow> ''HTTP error! status: '' @ number_toString status))),
                   (''timestamp'', JDate stamp)]"
  have send: "sendMessageToBackend view outcome now stamp
            = ([setTyping True, addMessage (JStr cid) m, setTyping False], None)"
  proof -
    consider (rejected) e where "outcome = Rejected e"
      | (status) status body where "outcome = Responded status body" "\<not> response_ok status"
      using assms(4) by blast
    then show ?thesis
    proof cases
      case rejected
      show ?thesis
        unfolding rejected send_on_failure(1) [OF assms(2) assms(1) assms(3)] m_def
        by (simp add: assistant_message_def connection_trouble_def)
    next
      case status
      show ?thesis
        unfolding status(1) send_on_failure(2) [OF assms(2) assms(1) assms(3) status(2)] m_def
        by (simp add: assistant_message_def connection_trouble_def)
    qed
  qed
  from typing_then_between [OF assms(5) assms(6)]
  obtain s2 where s2: "dispatch_all s (setTyping True # between) = Inr s2" "wf_state s2"
    "between = [] \<longrightarrow>
       own_prop s2 ''conversations'' = own_prop s ''conversations'' \<and>
       own_prop s2 ''activeConversation'' = own_prop s ''activeConversation''"
    by blast
  from message_then_idle [OF s2(2), of cid m]
  obtain s' cs' where r:
    "dispatch_all s2 [addMessage (JStr cid) m, setTyping False] = Inr s'"
    "own_prop s' ''isTyping'' = JBool False"
    "own_prop s' ''conversations'' = JArr cs'"
    "length cs' = length (elems_of (own_prop s2 ''conversations''))"
    "\<forall>i < length cs'.
        if own_prop (elems_of (own_prop s2 ''conversations'') ! i) ''id'' = JStr cid
        then own_prop (cs' ! i) ''messages''
               = JArr (elems_of (own_prop (elems_of (own_prop s2 ''conversations'') ! i) ''messages'')
                       @ [m]) \<and>
             (\<forall>k. k \<noteq> ''messages'' \<longrightarrow>
                own_prop (cs' ! i) k = own_prop (elems_of (own_prop s2 ''conversations'') ! i) k)
        else cs' ! i = elems_of (own_prop s2 ''conversations'') ! i"
    "if opt_get (own_prop s2 ''activeConversation'') ''id'' = JStr cid
     then own_prop (own_prop s' ''activeConversation'') ''messages''
            = JArr (elems_of (own_prop (own_prop s2 ''activeConversation'') ''messages'') @ [m]) \<and>
          (\<forall>k. k \<noteq> ''messages'' \<longrightarrow>
             own_prop (own_prop s' ''activeConversation'') k
               = own_prop (own_prop s2 ''activeConversation'') k)
     else own_prop s' ''activeConversation'' = own_prop s2 ''activeConversation''"
    by blast
  have all: "dispatch_all s (setTyping True # between @ [addMessage (JStr cid) m, setTyping False])
               = Inr s'"
    using dispatch_all_append [of s "setTyping True # between"
        "[addMessage (JStr cid) m, setTyping False]"] s2(1) r(1)
    by simp
  have nowhere: "own_prop s' ''conversations'' = own_prop s2 ''conversations'' \<and>
                 own_prop s' ''activeConversation'' = own_prop s2 ''activeConversation''"
    if "(\<forall>c \<in> set (elems_of (own_prop s2 ''conversations'')). own_prop c ''id'' \<noteq> JStr cid) \<and>
        opt_get (own_prop s2 ''activeConversation'') ''id'' \<noteq> JStr cid"
  proof
    have "cs' = elems_of (own_prop s2 ''conversations'')"
      using unmatched_entries_kept [OF r(4) r(5)] that by blast
    then show "own_prop s' ''conversations'' = own_prop s2 ''conversations''"
      using r(3) wf_state_convs [OF s2(2)] by simp
    show "own_prop s' ''activeConversation'' = own_prop s2 ''activeConversation''"
      using r(6) that by simp
  qed
  have "sendMessageToBackend view outcome now stamp
            = ([setTyping True, addMessage (JStr cid) m, setTyping False], None) \<and>
          (\<exists>s2 s' cs'.
             dispatch_all s (setTyping True # between) = Inr s2 \<and>
             wf_state s2 \<and>
             (between = [] \<longrightarrow>
                own_prop s2 ''conversations'' = own_prop s ''conversations'' \<and>
                own_prop s2 ''activeConversation'' = own_prop s ''activeConversation'') \<and>
             dispatch_all s (setTyping True # between @ [addMessage (JStr cid) m, setTyping False])
               = Inr s' \<and>
             own_prop s' ''isTyping'' = JBool False \<and>
             own_prop s' ''conversations'' = JArr cs' \<and>
             length cs' = length (elems_of (own_prop s2 ''conversations'')) \<and>
             (\<forall>i < length cs'.
                if own_prop (elems_of (own_prop s2 ''conversations'') ! i) ''id'' = JStr cid
                then own_prop (cs' ! i) ''messages''
                       = JArr (elems_of (own_prop (elems_of (own_prop s2 ''conversations'') ! i) ''messages'')
                               @ [m]) \<and>
                     (\<forall>k. k \<noteq> ''messages'' \<longrightarrow>
                        own_prop (cs' ! i) k = own_prop (elems_of (own_prop s2 ''conversations'') ! i) k)
                else cs' ! i = elems_of (own_prop s2 ''conversations'') ! i) \<and>
             (if opt_get (own_prop s2 ''activeConversation'') ''id'' = JStr cid
              then own_prop (own_prop s' ''activeConversation'') ''messages''
                     = JArr (elems_of (own_prop (own_prop s2 ''activeConversation'') ''messages'') @ [m]) \<and>
                   (\<forall>k. k \<noteq> ''messages'' \<longrightarrow>
                      own_prop (own_prop s' ''activeConversation'') k
                        = own_prop (own_prop s2 ''activeConversation'') k)
              else own_prop s' ''activeConversation'' = own_prop s2 ''activeConversation'') \<and>
             ((\<forall>c \<in> set (elems_of (own_prop s2 ''conversations'')). own_prop c ''id'' \<noteq> JStr cid) \<and>
              opt_get (own_prop s2 ''activeConversation'') ''id'' \<noteq> JStr cid \<longrightarrow>
                own_prop s' ''conversations'' = own_prop s2 ''conversations'' \<and>
                own_prop s' ''activeConversation'' = own_prop s2 ''activeConversation''))"
  proof (rule conjI [OF send], rule exI [of _ s2], rule exI [of _ s'], rule exI [of _ cs'],
      intro conjI)
    show "(\<forall>c \<in> set (elems_of (own_prop s2 ''conversations'')). own_prop c ''id'' \<noteq> JStr cid) \<and>
              opt_get (own_prop s2 ''activeConversation'') ''id'' \<noteq> JStr cid \<longrightarrow>
                own_prop s' ''conversations'' = own_prop s2 ''conversations'' \<and>
                own_prop s' ''activeConversation'' = own_prop s2 ''activeConversation''"
      using nowhere by blast
  qed (rule s2 all r)+
  then show ?thesis unfolding Let_def m_def .
qed

theorem failed_request_becomes_message_witness:
  "is_obj two_convs_state \<and>
   wf_state two_convs_state \<and>
   wf_conv (own_prop two_convs_state ''activeConversation'') \<and>
   own_prop (own_prop two_convs_state ''activeConversation'') ''id'' = JStr ''1'' \<and>
   \<not> response_ok 500 \<and>
   sendMessageToBackend two_convs_state (Responded 500 (Inr JNull)) 0 ''2025-08-24T10:00:00.000Z''
     = ([setTyping True,
         addMessage (JStr ''1'')
           (JObj [(''id'', JStr ''1''), (''role'', JStr ''assistant''),
                  (''content'', JStr (''Sorry, I'' @ [CHR 0x27] @
                     ''m having trouble connecting to the server right now. '' @
                     ''Please make sure the backend is running at http://127.0.0.1:5000. '' @
                     ''Error: HTTP error! status: 500'')),
                  (''timestamp'', JDate ''2025-08-24T10:00:00.000Z'')]),
         setTyping False], None) \<and>
   (\<exists>s' cs'. dispatch_all two_convs_state
        [setTyping True,
         addMessage (JStr ''1'')
           (JObj [(''id'', JStr ''1''), (''role'', JStr ''assistant''),
                  (''content'', JStr (''Sorry, I'' @ [CHR 0x27] @
                     ''m having trouble connecting to the server right now. '' @
                     ''Please make sure the backend is running at http://127.0.0.1:5000. '' @
                     ''Error: HTTP error! status: 500'')),
                  (''timestamp'', JDate ''2025-08-24T10:00:00.000Z'')]),
         setTyping False] = Inr s' \<and>
      own_prop s' ''isTyping'' = JBool False \<and>
      own_prop (own_prop s' ''activeConversation'') ''messages''
        = JArr [JObj [(''id'', JStr ''1''), (''role'', JStr ''assistant''),
                  (''content'', JStr (''Sorry, I'' @ [CHR 0x27] @
                     ''m having trouble connecting to the server right now. '' @
                     ''Please make sure the backend is running at http://127.0.0.1:5000. '' @
                     ''Error: HTTP error! status: 500'')),
                  (''timestamp'', JDate ''2025-08-24T10:00:00.000Z'')]] \<and>
      own_prop s' ''conversations'' = JArr cs' \<and>
      length cs' = 2 \<and>
      own_prop (cs' ! 0) ''messages''
        = JArr [JObj [(''id'', JStr ''1''), (''role'', JStr ''assistant''),
                  (''content'', JStr (''Sorry, I'' @ [CHR 0x27] @
                     ''m having trouble connecting to the server right now. '' @
                     ''Please make sure the backend is running at http://127.0.0.1:5000. '' @
                     ''Error: HTTP error! status: 500'')),
                  (''timestamp'', JDate ''2025-08-24T10:00:00.000Z'')]] \<and>
      cs' ! 1 = conv_two) \<and>
   list_all wf_action [deleteConversation (JStr ''1'')] \<and>
   sendMessageToBackend two_convs_state (Rejected (TypeError ''Failed to fetch'')) 0
       ''2025-08-24T10:00:00.000Z''
     = ([setTyping True,
         addMessage (JStr ''1'')
           (JObj [(''id'', JStr ''1''), (''role'', JStr ''assistant''),
                  (''content'', JStr (''Sorry, I'' @ [CHR 0x27] @
                     ''m having trouble connecting to the server right now. '' @
                     ''Please make sure the backend is running at http://127.0.0.1:5000. '' @
                     ''Error: Failed to fetch'')),
                  (''timestamp'', JDate ''2025-08-24T10:00:00.000Z'')]),
         setTyping False], None) \<and>
   (\<exists>s'. dispatch_all two_convs_state
        [setTyping True,
         deleteConversation (JStr ''1''),
         addMessage (JStr ''1'')
           (JObj [(''id'', JStr ''1''), (''role'', JStr ''assistant''),
                  (''content'', JStr (''Sorry, I'' @ [CHR 0x27] @
                     ''m having trouble connecting to the server right now. '' @
                     ''Please make sure the backend is running at http://127.0.0.1:5000. '' @
                     ''Error: Failed to fetch'')),
                  (''timestamp'', JDate ''2025-08-24T10:00:00.000Z'')]),
         setTyping False] = Inr s' \<and>
      own_prop s' ''isTyping'' = JBool False \<and>
      own_prop s' ''conversations'' = JArr [conv_two] \<and>
      own_prop s' ''activeConversation'' = JNull)"
proof -
  let ?stamp = "''2025-08-24T10:00:00.000Z''"
  let ?out = "Responded 500 (Inr JNull)"
  let ?rej = "Rejected (TypeError ''Failed to fetch'')"
  let ?msg = "JObj [(''id'', JStr ''1''), (''role'', JStr ''assistant''),
                  (''content'', JStr (''Sorry, I'' @ [CHR 0x27] @
                     ''m having trouble connecting to the server right now. '' @
                     ''Please make sure the backend is running at http://127.0.0.1:5000. '' @
                     ''Error: HTTP error! status: 500'')),
                  (''timestamp'', JDate ?stamp)]"
  let ?lost = "JObj [(''id'', JStr ''1''), (''role'', JStr ''assistant''),
                  (''content'', JStr (''Sorry, I'' @ [CHR 0x27] @
                     ''m having trouble connecting to the server right now. '' @
                     ''Please make sure the backend is running at http://127.0.0.1:5000. '' @
                     ''Error: Failed to fetch'')),
                  (''timestamp'', JDate ?stamp)]"
  have obj: "is_obj two_convs_state" by (rule wf_state_obj [OF wf_two_convs_state])
  have c: "elems_of (own_prop two_convs_state ''conversations'') = [conv_one, conv_two]"
    by (simp add: two_convs_state_def)
  have a: "own_prop two_convs_state ''activeConversation'' = conv_one"
    by (simp add: two_convs_state_def)
  have wa: "wf_conv conv_one" by (simp add: wf_conv_def conv_one_def)
  have i1: "own_prop conv_one ''id'' = JStr ''1''" by (simp add: conv_one_def)
  have i2: "own_prop conv_two ''id'' = JStr ''2''" by (simp add: conv_two_def)
  have m1: "elems_of (own_prop conv_one ''messages'') = []" by (simp add: conv_one_def)
  have n0: "[conv_one, conv_two] ! 0 = conv_one" and n1: "[conv_one, conv_two] ! 1 = conv_two"
    by simp_all
  have ne: "JStr ''2'' \<noteq> JStr ''1''" by simp
  have nok: "\<not> response_ok 500" by (simp add: response_ok_def)
  have f: "(\<exists>e. ?out = Rejected e) \<or>
         (\<exists>status body. ?out = Responded status body \<and> \<not> response_ok status)"
    using nok by simp
  have g: "(\<exists>e. ?rej = Rejected e) \<or>
         (\<exists>status body. ?rej = Responded status body \<and> \<not> response_ok status)"
    by simp
  have none: "list_all wf_action []" by simp
  have del: "list_all wf_action [deleteConversation (JStr ''1'')]"
    by (simp add: wf_action_deleteConversation)
  have t500: "JObj [(''id'', JStr (number_toString (0 + 1))), (''role'', JStr ''assistant''),
                   (''content'', JStr (''Sorry, I'' @ [CHR 0x27] @
                      ''m having trouble connecting to the server right now. '' @
                      ''Please make sure the backend is running at http://127.0.0.1:5000. Error: '' @
                      (case ?out of
                         Rejected e \<Rightarrow> err_message e
                       | Responded status body \<Rightarrow> ''HTTP error! status: '' @ number_toString status))),
                   (''timestamp'', JDate ?stamp)] = ?msg"
    by (simp add: number_toString_500 number_toString_1)
  have tlost: "JObj [(''id'', JStr (number_toString (0 + 1))), (''role'', JStr ''assistant''),
                   (''content'', JStr (''Sorry, I'' @ [CHR 0x27] @
                      ''m having trouble connecting to the server right now. '' @
                      ''Please make sure the backend is running at http://127.0.0.1:5000. Error: '' @
                      (case ?rej of
                         Rejected e \<Rightarrow> err_message e
                       | Responded status body \<Rightarrow> ''HTTP error! status: '' @ number_toString status))),
                   (''timestamp'', JDate ?stamp)] = ?lost"
    by (simp add: number_toString_1 TypeError_def)
  note A = failed_request_becomes_message [OF obj wa [folded a] i1 [folded a] f
      wf_two_convs_state none, of 0 ?stamp, unfolded Let_def t500]
  note B = failed_request_becomes_message [OF obj wa [folded a] i1 [folded a] g
      wf_two_convs_state del, of 0 ?stamp, unfolded Let_def tlost]
  have sendA: "sendMessageToBackend two_convs_state ?out 0 ?stamp
     = ([setTyping True, addMessage (JStr ''1'') ?msg, setTyping False], None)"
    by (rule A [THEN conjunct1])
  have sendB: "sendMessageToBackend two_convs_state ?rej 0 ?stamp
     = ([setTyping True, addMessage (JStr ''1'') ?lost, setTyping False], None)"
    by (rule B [THEN conjunct1])
  have og: "opt_get conv_one ''id'' = JStr ''1''"
    using opt_get_wf_conv [OF wa] i1 by simp
  from A [THEN conjunct2]
  obtain s2 s' cs' where r:
    "[] = ([] :: action list) \<longrightarrow>
       own_prop s2 ''conversations'' = own_prop two_convs_state ''conversations'' \<and>
       own_prop s2 ''activeConversation'' = own_prop two_convs_state ''activeConversation''"
    "dispatch_all two_convs_state (setTyping True # [] @ [addMessage (JStr ''1'') ?msg, setTyping False])
       = Inr s'"
    "own_prop s' ''isTyping'' = JBool False"
    "own_prop s' ''conversations'' = JArr cs'"
    "length cs' = length (elems_of (own_prop s2 ''conversations''))"
    "\<forall>i < length cs'.
        if own_prop (elems_of (own_prop s2 ''conversations'') ! i) ''id'' = JStr ''1''
        then own_prop (cs' ! i) ''messages''
               = JArr (elems_of (own_prop (elems_of (own_prop s2 ''conversations'') ! i) ''messages'')
                       @ [?msg]) \<and>
             (\<forall>k. k \<noteq> ''messages'' \<longrightarrow>
                own_prop (cs' ! i) k = own_prop (elems_of (own_prop s2 ''conversations'') ! i) k)
        else cs' ! i = elems_of (own_prop s2 ''conversations'') ! i"
    "if opt_get (own_prop s2 ''activeConversation'') ''id'' = JStr ''1''
     then own_prop (own_prop s' ''activeConversation'') ''messages''
            = JArr (elems_of (own_prop (own_prop s2 ''activeConversation'') ''messages'') @ [?msg]) \<and>
          (\<forall>k. k \<noteq> ''messages'' \<longrightarrow>
             own_prop (own_prop s' ''activeConversation'') k
               = own_prop (own_prop s2 ''activeConversation'') k)
     else own_prop s' ''activeConversation'' = own_prop s2 ''activeConversation''"
    by blast
  have c2: "elems_of (own_prop s2 ''conversations'') = [conv_one, conv_two]"
    and a2: "own_prop s2 ''activeConversation'' = conv_one"
    using r(1) c a by simp_all
  have len: "length cs' = 2" using r(5) unfolding c2 by simp
  have l0: "0 < length cs'" and l1: "1 < length cs'" using len by simp_all
  note e0 = r(6) [rule_format, OF l0, unfolded c2 n0 i1 if_P [OF refl] m1]
  note e1 = r(6) [rule_format, OF l1, unfolded c2 n1 i2 if_not_P [OF ne]]
  note ea = r(7) [unfolded a2 og if_P [OF refl] m1]
  have runA: "dispatch_all two_convs_state
      [setTyping True, addMessage (JStr ''1'') ?msg, setTyping False] = Inr s'"
    using r(2) by simp
  have act: "own_prop (own_prop s' ''activeConversation'') ''messages'' = JArr [?msg]"
    using ea by simp
  have e0': "own_prop (cs' ! 0) ''messages'' = JArr [?msg]" using e0 by simp
  have partA: "\<exists>s' cs'. dispatch_all two_convs_state
        [setTyping True, addMessage (JStr ''1'') ?msg, setTyping False] = Inr s' \<and>
      own_prop s' ''isTyping'' = JBool False \<and>
      own_prop (own_prop s' ''activeConversation'') ''messages'' = JArr [?msg] \<and>
      own_prop s' ''conversations'' = JArr cs' \<and>
      length cs' = 2 \<and>
      own_prop (cs' ! 0) ''messages'' = JArr [?msg] \<and>
      cs' ! 1 = conv_two"
    by (rule exI [of _ s'], rule exI [of _ cs'], intro conjI)
      (rule runA r(3) act r(4) len e0' e1)+
  from B [THEN conjunct2]
  obtain t2 t' ct' where q:
    "dispatch_all two_convs_state (setTyping True # [deleteConversation (JStr ''1'')]) = Inr t2"
    "dispatch_all two_convs_state (setTyping True # [deleteConversation (JStr ''1'')] @
        [addMessage (JStr ''1'') ?lost, setTyping False]) = Inr t'"
    "own_prop t' ''isTyping'' = JBool False"
    "(\<forall>c \<in> set (elems_of (own_prop t2 ''conversations'')). own_prop c ''id'' \<noteq> JStr ''1'') \<and>
     opt_get (own_prop t2 ''activeConversation'') ''id'' \<noteq> JStr ''1'' \<longrightarrow>
       own_prop t' ''conversations'' = own_prop t2 ''conversations'' \<and>
       own_prop t' ''activeConversation'' = own_prop t2 ''activeConversation''"
    by blast
  have t2: "t2 = deleted_typing_state"
    using q(1) typing_then_delete by simp
  have gone: "(\<forall>c \<in> set (elems_of (own_prop t2 ''conversations'')). own_prop c ''id'' \<noteq> JStr ''1'') \<and>
     opt_get (own_prop t2 ''activeConversation'') ''id'' \<noteq> JStr ''1''"
    unfolding t2 by (simp add: deleted_typing_state_def conv_two_def)
  have kept: "own_prop t' ''conversations'' = JArr [conv_two]"
    "own_prop t' ''activeConversation'' = JNull"
    using q(4) [rule_format, OF gone] unfolding t2 by (simp_all add: deleted_typing_state_def)
  have runB: "dispatch_all two_convs_state
      [setTyping True, deleteConversation (JStr ''1''), addMessage (JStr ''1'') ?lost, setTyping False]
        = Inr t'"
    using q(2) by simp
  have partB: "\<exists>s'. dispatch_all two_convs_state
      [setTyping True, deleteConversation (JStr ''1''), addMessage (JStr ''1'') ?lost, setTyping False]
        = Inr s' \<and>
      own_prop s' ''isTyping'' = JBool False \<and>
      own_prop s' ''conversations'' = JArr [conv_two] \<and>
      own_prop s' ''activeConversation'' = JNull"
    by (rule exI [of _ t'], intro conjI) (rule runB q(3) kept)+
  show ?thesis
    by (intro conjI) (rule obj wf_two_convs_state wa [folded a] i1 [folded a] nok sendA partA del
      sendB partB)+
qed

text \<open>
  The claim C8 as stated fails when the conversation is deleted while the request is
  awaited: the message is dispatched for the identifier that the component captured, no
  conversation of the store has that identifier any more, and the message is appended
  nowhere.
\<close>

theorem failed_request_loses_message:
  "wf_state two_convs_state \<and>
   own_prop two_convs_state ''activeConversation'' = conv_one \<and>
   own_prop conv_one ''id'' = JStr ''1'' \<and>
   sendMessageToBackend two_convs_state (Rejected (TypeError ''Failed to fetch'')) 0
       ''2025-08-24T10:00:00.000Z''
     = ([setTyping True,
         addMessage (JStr ''1'')
           (JObj [(''id'', JStr ''1''), (''role'', JStr ''assistant''),
                  (''content'', JStr (''Sorry, I'' @ [CHR 0x27] @
                     ''m having trouble connecting to the server right now. '' @
                     ''Please make sure the backend is running at http://127.0.0.1:5000. '' @
                     ''Error: Failed to fetch'')),
                  (''timestamp'', JDate ''2025-08-24T10:00:00.000Z'')]),
         setTyping False], None) \<and>
   wf_action (deleteConversation (JStr ''1'')) \<and>
   dispatch_all two_convs_state
     [setTyping True,
      deleteConversation (JStr ''1''),
      addMessage (JStr ''1'')
        (JObj [(''id'', JStr ''1''), (''role'', JStr ''assistant''),
               (''content'', JStr (''Sorry, I'' @ [CHR 0x27] @
                  ''m having trouble connecting to the server right now. '' @
                  ''Please make sure the backend is running at http://127.0.0.1:5000. '' @
                  ''Error: Failed to fetch'')),
               (''timestamp'', JDate ''2025-08-24T10:00:00.000Z'')]),
      setTyping False] = Inr deleted_state \<and>
   own_prop deleted_state ''conversations'' = JArr [conv_two] \<and>
   own_prop conv_two ''messages'' = JArr [] \<and>
   own_prop deleted_state ''activeConversation'' = JNull \<and>
   own_prop deleted_state ''isTyping'' = JBool False"
proof -
  let ?stamp = "''2025-08-24T10:00:00.000Z''"
  let ?msg = "JObj [(''id'', JStr ''1''), (''role'', JStr ''assistant''),
                  (''content'', JStr (''Sorry, I'' @ [CHR 0x27] @
                     ''m having trouble connecting to the server right now. '' @
                     ''Please make sure the backend is running at http://127.0.0.1:5000. '' @
                     ''Error: Failed to fetch'')),
                  (''timestamp'', JDate ?stamp)]"
  have a: "own_prop two_convs_state ''activeConversation'' = conv_one"
    by (simp add: two_convs_state_def)
  have wa: "wf_conv conv_one" by (simp add: wf_conv_def conv_one_def)
  have i1: "own_prop conv_one ''id'' = JStr ''1''" by (simp add: conv_one_def)
  have send: "sendMessageToBackend two_convs_state (Rejected (TypeError ''Failed to fetch'')) 0 ?stamp
     = ([setTyping True, addMessage (JStr ''1'') ?msg, setTyping False], None)"
    unfolding send_on_failure(1) [OF wa [folded a] wf_state_obj [OF wf_two_convs_state] i1 [folded a]]
    by (simp add: assistant_message_def connection_trouble_def number_toString_1 TypeError_def)
  have run: "dispatch_all two_convs_state
     [setTyping True, deleteConversation (JStr ''1''), addMessage (JStr ''1'') ?msg, setTyping False]
       = Inr deleted_state"
    using dispatch_all_append [of two_convs_state "[setTyping True, deleteConversation (JStr ''1'')]"
        "[addMessage (JStr ''1'') ?msg, setTyping False]"]
    unfolding typing_then_delete using message_after_delete [of ?msg] by simp
  have fin: "own_prop deleted_state ''conversations'' = JArr [conv_two]"
    "own_prop conv_two ''messages'' = JArr []"
    "own_prop deleted_state ''activeConversation'' = JNull"
    "own_prop deleted_state ''isTyping'' = JBool False"
    by (simp_all add: deleted_state_def conv_two_def)
  show ?thesis
    using wf_two_convs_state a i1 send wf_action_deleteConversation run fin by blast
qed

end
